(* ===== verification/Prelude.thy ===== *)
theory Prelude
  imports Main "HOL-Library.Word" "HOL-Library.AList"
begin

text \<open>
  Shared vocabulary of the development: the collections that carry the component proofs, the
  machine integer types of the Go sources, Go maps as association lists, and the generic lemmas on
  words, folds and sums of results that more than one component needs.
\<close>

unbundle bit_operations_syntax

named_theorems matching \<open>equations of the match-state sets and of the rule items\<close>
named_theorems routing \<open>equations of the routing steps\<close>
named_theorems tracking \<open>equations of the per-node traffic state\<close>
named_theorems fakeip \<open>equations of the fake address store\<close>

type_synonym uint8 = "8 word"
type_synonym uint16 = "16 word"
type_synonym uint32 = "32 word"
type_synonym uint64 = "64 word"
type_synonym uint128 = "128 word"
type_synonym byte = "8 word"
type_synonym bytes = "byte list"

section \<open>Results\<close>

type_synonym ('e, 'a) result = "'e + 'a"

abbreviation Err :: "'e \<Rightarrow> ('e, 'a) result" where "Err \<equiv> Inl"
abbreviation Ok :: "'a \<Rightarrow> ('e, 'a) result" where "Ok \<equiv> Inr"

definition bindR :: "('e, 'a) result \<Rightarrow> ('a \<Rightarrow> ('e, 'b) result) \<Rightarrow> ('e, 'b) result" where
  "bindR r f = (case r of Inl e \<Rightarrow> Inl e | Inr a \<Rightarrow> f a)"

text \<open>
  Errors and panics: \<^verbatim>\<open>E.New\<close>, \<^verbatim>\<open>E.Cause\<close> and \<^verbatim>\<open>E.Extend\<close> of the sources as constructors, and errors that come from
  code outside the repository.
\<close>

datatype goerror = ENew string | ECause goerror string | EExtend goerror string | EOther string | EPanic string

definition withCause :: "string \<Rightarrow> (goerror, 'a) result \<Rightarrow> (goerror, 'a) result" where
  "withCause msg r = (case r of
     Inl (EPanic p) \<Rightarrow> Inl (EPanic p)
   | Inl e \<Rightarrow> Inl (ECause e msg)
   | Inr a \<Rightarrow> Inr a)"

lemma withCause_eq_Ok [simp]: "withCause msg r = Inr a \<longleftrightarrow> r = Inr a"
  by (simp add: withCause_def split: sum.splits goerror.splits)

lemma withCause_cong [fundef_cong]: "r = s \<Longrightarrow> withCause msg r = withCause msg s"
  by simp

fun mapR :: "('a \<Rightarrow> ('e, 'b) result) \<Rightarrow> 'a list \<Rightarrow> ('e, 'b list) result" where
  "mapR f [] = Ok []"
| "mapR f (x # xs) = bindR (f x) (\<lambda>y. bindR (mapR f xs) (\<lambda>ys. Ok (y # ys)))"

lemma bindR_simps [simp]:
  "bindR (Inl e) f = Inl e"
  "bindR (Inr a) f = f a"
  by (simp_all add: bindR_def)

lemma bindR_eq_Ok [simp]: "bindR r f = Inr b \<longleftrightarrow> (\<exists>a. r = Inr a \<and> f a = Inr b)"
  by (cases r) simp_all

lemma bindR_cong [fundef_cong]:
  "r = s \<Longrightarrow> (\<And>a. s = Inr a \<Longrightarrow> f a = g a) \<Longrightarrow> bindR r f = bindR s g"
  by (cases s) auto

lemma mapR_cong [fundef_cong]:
  "xs = ys \<Longrightarrow> (\<And>x. x \<in> set ys \<Longrightarrow> f x = g x) \<Longrightarrow> mapR f xs = mapR g ys"
  by (induction ys arbitrary: xs) (auto simp: bindR_def split: sum.splits)

lemma mapR_Ok_length: "mapR f xs = Inr ys \<Longrightarrow> length ys = length xs"
  by (induction xs arbitrary: ys) auto

lemma mapR_Ok_nth: "mapR f xs = Inr ys \<Longrightarrow> i < length xs \<Longrightarrow> f (xs ! i) = Inr (ys ! i)"
proof (induction xs arbitrary: ys i)
  case Nil
  then show ?case by simp
next
  case (Cons x xs)
  from Cons.prems(1) obtain y ys' where "f x = Inr y" "mapR f xs = Inr ys'" "ys = y # ys'"
    by auto
  with Cons show ?case by (cases i) auto
qed

lemma mapR_Ok_set: "mapR f xs = Inr ys \<Longrightarrow> y \<in> set ys \<Longrightarrow> \<exists>x \<in> set xs. f x = Inr y"
  by (induction xs arbitrary: ys) auto

lemma mapR_Ok_all: "mapR f xs = Inr ys \<Longrightarrow> x \<in> set xs \<Longrightarrow> \<exists>y \<in> set ys. f x = Inr y"
  by (induction xs arbitrary: ys) auto

text \<open>
  A \<^verbatim>\<open>for i, x := range xs\<close> loop whose body updates a state and may leave the function with an error.
\<close>

fun forIR :: "(nat \<Rightarrow> 'a \<Rightarrow> 's \<Rightarrow> ('e, 's) result) \<Rightarrow> nat \<Rightarrow> 'a list \<Rightarrow> 's \<Rightarrow> ('e, 's) result" where
  "forIR f i [] s = Ok s"
| "forIR f i (x # xs) s = bindR (f i x s) (forIR f (Suc i) xs)"

lemma forIR_cong [fundef_cong]:
  "i = j \<Longrightarrow> xs = ys \<Longrightarrow> s = t \<Longrightarrow> (\<And>i x s. x \<in> set ys \<Longrightarrow> f i x s = g i x s) \<Longrightarrow>
   forIR f i xs s = forIR g j ys t"
  by (induction ys arbitrary: i j xs s t) (auto intro!: bindR_cong)

lemma forIR_append:
  "forIR f i (xs @ ys) s = bindR (forIR f i xs s) (forIR f (i + length xs) ys)"
  by (induction xs arbitrary: i s) (auto simp: bindR_def split: sum.splits)

text \<open>An invariant of the loop body is an invariant of the loop.\<close>

lemma forIR_keeps:
  assumes "\<And>i x s s'. x \<in> set xs \<Longrightarrow> P s \<Longrightarrow> f i x s = Inr s' \<Longrightarrow> P s'" "P s" "forIR f i xs s = Inr s'"
  shows "P s'"
  using assms
proof (induction xs arbitrary: i s)
  case (Cons x xs)
  then obtain s1 where s1: "f i x s = Inr s1" "forIR f (Suc i) xs s1 = Inr s'" by auto
  with Cons.prems have "P s1" by (meson list.set_intros(1))
  with Cons s1 show ?case by (meson list.set_intros(2))
qed simp

lemma fold_skip [simp]: "fold (\<lambda>x acc. acc) xs a = a"
  by (induction xs) auto

section \<open>Go maps\<close>

text \<open>
  A Go map is an association list without duplicate keys.  Its order is the order in which a
  \<^verbatim>\<open>range\<close> loop visits the entries; Go leaves that order open, and the lemmas hold for every list.
\<close>

type_synonym ('k, 'v) gomap = "('k \<times> 'v) list"

definition wf_map :: "('k, 'v) gomap \<Rightarrow> bool" where
  "wf_map m \<longleftrightarrow> distinct (map fst m)"

definition getd :: "'v \<Rightarrow> ('k, 'v) gomap \<Rightarrow> 'k \<Rightarrow> 'v" where
  "getd d m k = (case map_of m k of None \<Rightarrow> d | Some v \<Rightarrow> v)"

lemma wf_map_Nil [simp]: "wf_map []"
  by (simp add: wf_map_def)

lemma wf_map_update [simp]: "wf_map m \<Longrightarrow> wf_map (AList.update k v m)"
  by (simp add: wf_map_def distinct_update)

lemma wf_map_delete [simp]: "wf_map m \<Longrightarrow> wf_map (AList.delete k m)"
  by (simp add: wf_map_def distinct_delete)

lemma wf_map_tl: "wf_map ((k, v) # m) \<Longrightarrow> wf_map m \<and> map_of m k = None"
  by (auto simp: wf_map_def map_of_eq_None_iff)

lemma map_of_update [simp]: "map_of (AList.update k v m) = (map_of m)(k \<mapsto> v)"
  by (rule update_conv')

lemma map_of_delete [simp]: "map_of (AList.delete k m) = (map_of m)(k := None)"
  by (rule delete_conv')

lemma getd_update [simp]: "getd d (AList.update k v m) j = (if j = k then v else getd d m j)"
  by (simp add: getd_def)

lemma getd_delete [simp]: "getd d (AList.delete k m) j = (if j = k then d else getd d m j)"
  by (simp add: getd_def)

lemma getd_Nil [simp]: "getd d [] k = d"
  by (simp add: getd_def)

section \<open>Membership maps\<close>

text \<open>The \<^verbatim>\<open>map[T]bool\<close> that rule items build from their list: every element is stored as true, a
  missing key reads as false.\<close>

definition boolMap :: "'a list \<Rightarrow> 'a \<Rightarrow> bool" where
  "boolMap xs = fold (\<lambda>x m. m(x := True)) xs (\<lambda>_. False)"

lemma fold_upd_True: "fold (\<lambda>x m. m(x := True)) xs m k \<longleftrightarrow> k \<in> set xs \<or> m k"
  by (induction xs arbitrary: m) auto

lemma boolMap_iff [simp]: "boolMap xs k \<longleftrightarrow> k \<in> set xs"
  by (simp add: boolMap_def fold_upd_True)

end
