(* ===== verification/MatchState.thy ===== *)
theory MatchState
  imports Prelude
begin

text \<open>
  The match-state sets of \<^verbatim>\<open>route/rule/match_state.go\<close>.  A rule evaluation keeps, for every way the
  rule may match, which of the four address and port groups have matched so far (a
  \<^verbatim>\<open>ruleMatchState\<close>, four bits of a byte), and the set of all these ways (a
  \<^verbatim>\<open>ruleMatchStateSet\<close>, one bit of a 16-bit word per state).  The second half abstracts the words to
  sets of sets of groups and states the operations' laws as a locale, interpreted on the words.
\<close>

section \<open>The words\<close>

type_synonym ruleMatchState = uint8
type_synonym ruleMatchStateSet = uint16

definition ruleMatchSourceAddress :: ruleMatchState where "ruleMatchSourceAddress = 1"
definition ruleMatchSourcePort :: ruleMatchState where "ruleMatchSourcePort = 2"
definition ruleMatchDestinationAddress :: ruleMatchState where "ruleMatchDestinationAddress = 4"
definition ruleMatchDestinationPort :: ruleMatchState where "ruleMatchDestinationPort = 8"

definition has :: "ruleMatchState \<Rightarrow> ruleMatchState \<Rightarrow> bool" where
  "has s target \<longleftrightarrow> s AND target \<noteq> 0"

definition singleRuleMatchState :: "ruleMatchState \<Rightarrow> ruleMatchStateSet" where
  "singleRuleMatchState state = push_bit (unat state) 1"

definition emptyRuleMatchState :: ruleMatchStateSet where
  "emptyRuleMatchState = singleRuleMatchState 0"

definition isEmpty :: "ruleMatchStateSet \<Rightarrow> bool" where
  "isEmpty s \<longleftrightarrow> s = 0"

definition containsState :: "ruleMatchStateSet \<Rightarrow> ruleMatchState \<Rightarrow> bool" where
  "containsState s state \<longleftrightarrow> s AND push_bit (unat state) 1 \<noteq> 0"

definition addState :: "ruleMatchStateSet \<Rightarrow> ruleMatchState \<Rightarrow> ruleMatchStateSet" where
  "addState s state = s OR singleRuleMatchState state"

definition mergeStates :: "ruleMatchStateSet \<Rightarrow> ruleMatchStateSet \<Rightarrow> ruleMatchStateSet" where
  "mergeStates s other = s OR other"

text \<open>The loop \<^verbatim>\<open>for state := range ruleMatchState(16)\<close>.\<close>

definition allStates :: "ruleMatchState list" where
  "allStates = map of_nat [0..<16]"

definition combineStates :: "ruleMatchStateSet \<Rightarrow> ruleMatchStateSet \<Rightarrow> ruleMatchStateSet" where
  "combineStates s other =
     (if isEmpty s \<or> isEmpty other then 0
      else fold (\<lambda>left combined.
             if \<not> containsState s left then combined
             else fold (\<lambda>right combined.
                    if \<not> containsState other right then combined
                    else addState combined (left OR right)) allStates combined) allStates 0)"

definition withBase :: "ruleMatchStateSet \<Rightarrow> ruleMatchState \<Rightarrow> ruleMatchStateSet" where
  "withBase s base =
     (if isEmpty s then 0
      else fold (\<lambda>state acc.
             if \<not> containsState s state then acc else addState acc (state OR base)) allStates 0)"

definition filterStates :: "ruleMatchStateSet \<Rightarrow> (ruleMatchState \<Rightarrow> bool) \<Rightarrow> ruleMatchStateSet" where
  "filterStates s allowed =
     fold (\<lambda>state filtered.
       if \<not> containsState s state then filtered
       else if allowed state then addState filtered state else filtered) allStates 0"

section \<open>States as numbers below sixteen\<close>

lemma allStates_set: "set allStates = {s. unat s < 16}"
proof -
  have "s \<in> set allStates" if "unat s < 16" for s :: ruleMatchState
    unfolding allStates_def using that by (auto intro!: image_eqI[where x = "unat s"])
  moreover have "unat s < 16" if "s \<in> set allStates" for s :: ruleMatchState
    using that unfolding allStates_def by (auto simp: unat_of_nat take_bit_eq_mod)
  ultimately show ?thesis by auto
qed

lemma lt16_iff: "unat s < 16 \<longleftrightarrow> take_bit 4 s = s" for s :: ruleMatchState
  by (simp add: word_unat_eq_iff unsigned_take_bit_eq take_bit_nat_eq_self_iff)

lemma lt16_or [simp]: "unat (a OR b) < 16 \<longleftrightarrow> unat a < 16 \<and> unat b < 16" for a b :: ruleMatchState
proof -
  have "take_bit 4 (a OR b) = a OR b \<longleftrightarrow> take_bit 4 a = a \<and> take_bit 4 b = b"
    by (auto simp: bit_eq_iff bit_simps)
  then show ?thesis by (simp add: lt16_iff)
qed

lemma containsState_bit: "containsState s st \<longleftrightarrow> bit s (unat st)"
  by (simp add: containsState_def bit_iff_and_push_bit_not_eq_0)

lemma containsState_lt16: "containsState s st \<Longrightarrow> unat st < 16"
  using bit_imp_le_length [of s "unat st"] by (simp add: containsState_bit)

lemma containsState_zero [simp]: "\<not> containsState 0 st"
  by (simp add: containsState_bit)

lemma containsState_single [simp]:
  "containsState (singleRuleMatchState a) b \<longleftrightarrow> a = b \<and> unat a < 16"
  by (auto simp: containsState_bit singleRuleMatchState_def bit_simps word_unat_eq_iff)

lemma containsState_add [simp]:
  "containsState (addState s a) b \<longleftrightarrow> containsState s b \<or> a = b \<and> unat a < 16"
  by (simp add: addState_def containsState_bit bit_simps flip: containsState_single)

lemma containsState_merge [simp]:
  "containsState (mergeStates s t) a \<longleftrightarrow> containsState s a \<or> containsState t a"
  by (simp add: mergeStates_def containsState_bit bit_simps)

lemma containsState_ext: "(\<And>a. containsState s a \<longleftrightarrow> containsState t a) \<Longrightarrow> s = t"
proof -
  assume eq: "\<And>a. containsState s a \<longleftrightarrow> containsState t a"
  have "bit s n \<longleftrightarrow> bit t n" if "n < 16" for n
    using eq [of "of_nat n"] that by (simp add: containsState_bit unat_of_nat take_bit_eq_mod)
  then show "s = t" by (intro bit_word_eqI) simp
qed

lemma isEmpty_iff: "isEmpty s \<longleftrightarrow> (\<forall>a. \<not> containsState s a)"
  using containsState_ext [of s 0] by (auto simp: isEmpty_def)

lemma containsState_fold_add:
  "containsState (fold (\<lambda>x acc. if P x then addState acc (f x) else acc) xs acc) a
   \<longleftrightarrow> containsState acc a \<or> (\<exists>x \<in> set xs. P x \<and> f x = a \<and> unat a < 16)"
  by (induction xs arbitrary: acc) auto

lemma containsState_withBase:
  "containsState (withBase s b) a \<longleftrightarrow> (\<exists>x. containsState s x \<and> a = x OR b \<and> unat b < 16)"
proof -
  have "withBase s b =
      fold (\<lambda>x acc. if containsState s x then addState acc (x OR b) else acc) allStates 0"
  proof (cases "isEmpty s")
    case True
    then show ?thesis
      by (intro containsState_ext) (simp add: withBase_def containsState_fold_add isEmpty_iff)
  next
    case False
    then show ?thesis unfolding withBase_def by (auto intro!: fold_cong)
  qed
  then show ?thesis
    using containsState_lt16 [of s] by (auto simp: containsState_fold_add allStates_set) blast
qed

lemma containsState_filter [simp]:
  "containsState (filterStates s p) a \<longleftrightarrow> containsState s a \<and> p a"
proof -
  have "filterStates s p =
      fold (\<lambda>x acc. if containsState s x \<and> p x then addState acc x else acc) allStates 0"
    unfolding filterStates_def by (rule fold_cong) auto
  then show ?thesis
    using containsState_lt16 [of s a] by (auto simp: containsState_fold_add allStates_set)
qed

lemma containsState_combine:
  "containsState (combineStates s t) a
   \<longleftrightarrow> (\<exists>x y. containsState s x \<and> containsState t y \<and> a = x OR y)"
proof -
  let ?inner = "\<lambda>x acc. fold (\<lambda>y acc. if \<not> containsState t y then acc else addState acc (x OR y))
                         allStates acc"
  have inner: "containsState (?inner x acc) a
      \<longleftrightarrow> containsState acc a \<or> (\<exists>y. containsState t y \<and> a = x OR y \<and> unat x < 16)" for x acc
  proof -
    have "?inner x acc =
        fold (\<lambda>y acc. if containsState t y then addState acc (x OR y) else acc) allStates acc"
      by (rule fold_cong) auto
    then show ?thesis
      using containsState_lt16 [of t] by (auto simp: containsState_fold_add allStates_set)
  qed
  have outer: "containsState (fold (\<lambda>x acc. if \<not> containsState s x then acc else ?inner x acc) xs acc) a
      \<longleftrightarrow> containsState acc a
          \<or> (\<exists>x \<in> set xs. containsState s x \<and> (\<exists>y. containsState t y \<and> a = x OR y))" for xs acc
    using containsState_lt16 [of s]
    by (induction xs arbitrary: acc) (auto simp: inner)
  show ?thesis
  proof (cases "isEmpty s \<or> isEmpty t")
    case True
    then show ?thesis by (auto simp: combineStates_def isEmpty_iff)
  next
    case False
    then show ?thesis
      unfolding combineStates_def
      using containsState_lt16 [of s] by (auto simp only: outer if_False allStates_set) auto
  qed
qed

section \<open>Groups and ways to match\<close>

datatype group = SourceAddress | SourcePort | DestinationAddress | DestinationPort

fun groupBit :: "group \<Rightarrow> nat" where
  "groupBit SourceAddress = 0"
| "groupBit SourcePort = 1"
| "groupBit DestinationAddress = 2"
| "groupBit DestinationPort = 3"

definition groups :: "ruleMatchState \<Rightarrow> group set" where
  "groups s = {g. bit s (groupBit g)}"

definition ways :: "ruleMatchStateSet \<Rightarrow> group set set" where
  "ways s = {groups a |a. containsState s a}"

lemma groups_zero [simp]: "groups 0 = {}"
  by (simp add: groups_def)

lemma groups_or [simp]: "groups (a OR b) = groups a \<union> groups b"
  by (auto simp: groups_def bit_simps)

lemma has_iff [matching]:
  "has s ruleMatchSourceAddress \<longleftrightarrow> SourceAddress \<in> groups s"
  "has s ruleMatchSourcePort \<longleftrightarrow> SourcePort \<in> groups s"
  "has s ruleMatchDestinationAddress \<longleftrightarrow> DestinationAddress \<in> groups s"
  "has s ruleMatchDestinationPort \<longleftrightarrow> DestinationPort \<in> groups s"
  using bit_iff_and_push_bit_not_eq_0 [of s 0] bit_iff_and_push_bit_not_eq_0 [of s 1]
    bit_iff_and_push_bit_not_eq_0 [of s 2] bit_iff_and_push_bit_not_eq_0 [of s 3]
  by (simp_all add: has_def groups_def ruleMatchSourceAddress_def ruleMatchSourcePort_def
      ruleMatchDestinationAddress_def ruleMatchDestinationPort_def push_bit_eq_mult)

lemma groups_consts [simp]:
  "groups ruleMatchSourceAddress = {SourceAddress}"
  "groups ruleMatchSourcePort = {SourcePort}"
  "groups ruleMatchDestinationAddress = {DestinationAddress}"
  "groups ruleMatchDestinationPort = {DestinationPort}"
proof -
  have all: "{g. P g} = S \<longleftrightarrow> (\<forall>g. P g \<longleftrightarrow> g \<in> S)" for P and S :: "group set"
    by auto
  have split: "(\<forall>g. P g) \<longleftrightarrow> P SourceAddress \<and> P SourcePort \<and> P DestinationAddress \<and> P DestinationPort" for P
    by (metis group.exhaust)
  show "groups ruleMatchSourceAddress = {SourceAddress}"
    "groups ruleMatchSourcePort = {SourcePort}"
    "groups ruleMatchDestinationAddress = {DestinationAddress}"
    "groups ruleMatchDestinationPort = {DestinationPort}"
    by (simp_all add: groups_def all split ruleMatchSourceAddress_def ruleMatchSourcePort_def
        ruleMatchDestinationAddress_def ruleMatchDestinationPort_def)
qed

lemma valid_consts [simp]:
  "unat (0 :: ruleMatchState) < 16"
  "unat ruleMatchSourceAddress < 16"
  "unat ruleMatchSourcePort < 16"
  "unat ruleMatchDestinationAddress < 16"
  "unat ruleMatchDestinationPort < 16"
  by (simp_all add: ruleMatchSourceAddress_def ruleMatchSourcePort_def
      ruleMatchDestinationAddress_def ruleMatchDestinationPort_def)

section \<open>The interface of a match-state set\<close>

text \<open>
  What the rule evaluator relies on: a set of ways to match, each a set of matched groups, with
  union (alternatives), pairwise union (conjunction), a base added to every way, and a filter that
  looks at the matched groups only.
\<close>

locale match_states =
  fixes abs_set :: "'s \<Rightarrow> 'g set set"
    and abs_state :: "'a \<Rightarrow> 'g set"
    and valid :: "'a \<Rightarrow> bool"
    and none :: 's
    and single :: "'a \<Rightarrow> 's"
    and is_none :: "'s \<Rightarrow> bool"
    and merge :: "'s \<Rightarrow> 's \<Rightarrow> 's"
    and combine :: "'s \<Rightarrow> 's \<Rightarrow> 's"
    and with_base :: "'s \<Rightarrow> 'a \<Rightarrow> 's"
    and keep :: "'s \<Rightarrow> ('a \<Rightarrow> bool) \<Rightarrow> 's"
  assumes abs_none: "abs_set none = {}"
    and abs_single: "valid a \<Longrightarrow> abs_set (single a) = {abs_state a}"
    and is_none_iff: "is_none s \<longleftrightarrow> abs_set s = {}"
    and abs_merge: "abs_set (merge s t) = abs_set s \<union> abs_set t"
    and abs_combine: "abs_set (combine s t) = {x \<union> y |x y. x \<in> abs_set s \<and> y \<in> abs_set t}"
    and abs_with_base: "valid b \<Longrightarrow> abs_set (with_base s b) = (\<lambda>x. x \<union> abs_state b) ` abs_set s"
    and abs_keep: "(\<And>a. p a \<longleftrightarrow> q (abs_state a)) \<Longrightarrow> abs_set (keep s p) = {x \<in> abs_set s. q x}"
begin

lemma abs_merge_fold:
  "abs_set (fold (\<lambda>x acc. merge acc (f x)) xs s) = abs_set s \<union> (\<Union>x \<in> set xs. abs_set (f x))"
  by (induction xs arbitrary: s) (auto simp: abs_merge)

lemma is_none_merge_fold:
  "is_none (fold (\<lambda>x acc. merge acc (f x)) xs s) \<longleftrightarrow> is_none s \<and> (\<forall>x \<in> set xs. is_none (f x))"
  by (auto simp: is_none_iff abs_merge_fold)

lemma is_none_combine: "is_none (combine s t) \<longleftrightarrow> is_none s \<or> is_none t"
  by (auto simp: is_none_iff abs_combine)

lemma is_none_with_base: "valid b \<Longrightarrow> is_none (with_base s b) \<longleftrightarrow> is_none s"
  by (simp add: is_none_iff abs_with_base)

lemma not_is_none_single: "valid a \<Longrightarrow> \<not> is_none (single a)"
  by (simp add: is_none_iff abs_single)

end

interpretation msw: match_states ways groups "\<lambda>a. unat a < 16" 0 singleRuleMatchState isEmpty
  mergeStates combineStates withBase filterStates
proof unfold_locales
  show "ways 0 = {}" by (simp add: ways_def)
  show "ways (singleRuleMatchState a) = {groups a}" if "unat a < 16" for a
    using that by (auto simp: ways_def)
  show "isEmpty s \<longleftrightarrow> ways s = {}" for s
    by (auto simp: ways_def isEmpty_iff)
  show "ways (mergeStates s t) = ways s \<union> ways t" for s t
    by (auto simp: ways_def)
  show "ways (combineStates s t) = {x \<union> y |x y. x \<in> ways s \<and> y \<in> ways t}" for s t
  proof -
    have "ways (combineStates s t) = {groups (x OR y) |x y. containsState s x \<and> containsState t y}"
      unfolding ways_def by (auto simp: containsState_combine simp del: groups_or)
    then show ?thesis unfolding ways_def groups_or by auto
  qed
  show "ways (withBase s b) = (\<lambda>x. x \<union> groups b) ` ways s" if "unat b < 16" for s b
  proof -
    from that have "ways (withBase s b) = {groups (x OR b) |x. containsState s x}"
      unfolding ways_def by (auto simp: containsState_withBase simp del: groups_or)
    then show ?thesis unfolding ways_def groups_or by auto
  qed
  show "ways (filterStates s p) = {x \<in> ways s. q x}" if "\<And>a. p a \<longleftrightarrow> q (groups a)" for s p q
    unfolding ways_def using that by auto
qed

lemmas ways_simps [matching] = msw.abs_none msw.abs_single msw.abs_merge msw.abs_combine
  msw.abs_with_base msw.is_none_iff

lemma ways_empty [matching]: "ways emptyRuleMatchState = {{}}"
  by (simp add: emptyRuleMatchState_def msw.abs_single)

end
