(* ===== verification/GoLib.thy ===== *)
theory GoLib
  imports Prelude
begin

text \<open>
  The parts of Go's standard library that the modelled sources use: \<^verbatim>\<open>strings\<close>, \<^verbatim>\<open>strconv\<close>,
  \<^verbatim>\<open>path/filepath\<close>, \<^verbatim>\<open>net\<close> and \<^verbatim>\<open>net/netip\<close>.  A string is its list of bytes; case conversion and
  white space are those of ASCII, the alphabet of domain names, tags and configuration keywords.
\<close>

section \<open>strings\<close>

definition toLowerChar :: "char \<Rightarrow> char" where
  "toLowerChar c = (if 65 \<le> (of_char c :: nat) \<and> (of_char c :: nat) \<le> 90
                    then char_of ((of_char c :: nat) + 32) else c)"

definition ToLower :: "string \<Rightarrow> string" where
  "ToLower s = map toLowerChar s"

definition EqualFold :: "string \<Rightarrow> string \<Rightarrow> bool" where
  "EqualFold s t \<longleftrightarrow> ToLower s = ToLower t"

definition HasPrefix :: "string \<Rightarrow> string \<Rightarrow> bool" where
  "HasPrefix s p \<longleftrightarrow> take (length p) s = p"

definition HasSuffix :: "string \<Rightarrow> string \<Rightarrow> bool" where
  "HasSuffix s p \<longleftrightarrow> length p \<le> length s \<and> drop (length s - length p) s = p"

fun Contains :: "string \<Rightarrow> string \<Rightarrow> bool" where
  "Contains [] p \<longleftrightarrow> p = []"
| "Contains (c # s) p \<longleftrightarrow> HasPrefix (c # s) p \<or> Contains s p"

definition CutPrefix :: "string \<Rightarrow> string \<Rightarrow> string option" where
  "CutPrefix s p = (if HasPrefix s p then Some (drop (length p) s) else None)"

definition trimFunc :: "(char \<Rightarrow> bool) \<Rightarrow> string \<Rightarrow> string" where
  "trimFunc p s = rev (dropWhile p (rev (dropWhile p s)))"

definition isSpace :: "char \<Rightarrow> bool" where
  "isSpace c \<longleftrightarrow> (of_char c :: nat) \<in> {9, 10, 11, 12, 13, 32}"

definition TrimSpace :: "string \<Rightarrow> string" where
  "TrimSpace s = trimFunc isSpace s"

definition Trim :: "string \<Rightarrow> string \<Rightarrow> string" where
  "Trim s cutset = trimFunc (\<lambda>c. c \<in> set cutset) s"

text \<open>\<^verbatim>\<open>strings.IndexAny\<close> and \<^verbatim>\<open>strings.Index\<close> of one byte; \<open>None\<close> is the Go result -1.\<close>

fun IndexAny :: "string \<Rightarrow> string \<Rightarrow> nat option" where
  "IndexAny [] cs = None"
| "IndexAny (c # s) cs = (if c \<in> set cs then Some 0 else map_option Suc (IndexAny s cs))"

definition LastIndexByte :: "string \<Rightarrow> char \<Rightarrow> nat option" where
  "LastIndexByte s c = (case IndexAny (rev s) [c] of None \<Rightarrow> None | Some i \<Rightarrow> Some (length s - 1 - i))"

fun Join :: "string list \<Rightarrow> string \<Rightarrow> string" where
  "Join [] sep = []"
| "Join [s] sep = s"
| "Join (s # ss) sep = s @ sep @ Join ss sep"

section \<open>strconv\<close>

definition isDigit :: "char \<Rightarrow> bool" where
  "isDigit c \<longleftrightarrow> 48 \<le> (of_char c :: nat) \<and> (of_char c :: nat) \<le> 57"

definition digitVal :: "char \<Rightarrow> nat" where
  "digitVal c = of_char c - 48"

definition decimalVal :: "string \<Rightarrow> nat" where
  "decimalVal s = fold (\<lambda>c acc. acc * 10 + digitVal c) s 0"

text \<open>\<^verbatim>\<open>strconv.ParseUint(s, 10, bitSize)\<close>: a non-empty string of digits whose value fits.\<close>

definition ParseUint :: "string \<Rightarrow> nat \<Rightarrow> nat option" where
  "ParseUint s bitSize =
     (if s \<noteq> [] \<and> list_all isDigit s \<and> decimalVal s < 2 ^ bitSize then Some (decimalVal s) else None)"

fun natToString :: "nat \<Rightarrow> string" where
  "natToString n =
     (if n < 10 then [char_of (n + 48)] else natToString (n div 10) @ [char_of (n mod 10 + 48)])"

declare natToString.simps [simp del]

definition intToString :: "int \<Rightarrow> string" where
  "intToString i = (if i < 0 then ''-'' @ natToString (nat (- i)) else natToString (nat i))"

lemma decimalVal_snoc [simp]: "decimalVal (s @ [c]) = decimalVal s * 10 + digitVal c"
  by (simp add: decimalVal_def)

lemma digit_char [simp]:
  "n < 10 \<Longrightarrow> isDigit (char_of (n + 48))" "n < 10 \<Longrightarrow> digitVal (char_of (n + 48)) = n" for n :: nat
  by (simp_all add: isDigit_def digitVal_def)

text \<open>Printing a number and parsing it again.\<close>

lemma natToString_digits: "natToString n \<noteq> [] \<and> list_all isDigit (natToString n)"
proof (induction n rule: natToString.induct)
  case (1 n)
  then show ?case by (subst (1 2) natToString.simps) (simp add: Let_def)
qed

lemma decimalVal_natToString [simp]: "decimalVal (natToString n) = n"
proof (induction n rule: natToString.induct)
  case (1 n)
  show ?case
  proof (cases "n < 10")
    case True
    then show ?thesis by (subst natToString.simps) (simp add: decimalVal_def)
  next
    case False
    with 1 show ?thesis by (subst natToString.simps) simp
  qed
qed

lemma ParseUint_natToString [simp]: "n < 2 ^ b \<Longrightarrow> ParseUint (natToString n) b = Some n"
  using natToString_digits[of n] by (simp add: ParseUint_def)

lemma IndexAny_skip: "c \<notin> set xs \<Longrightarrow> IndexAny (xs @ c # ys) [c] = Some (length xs)"
  by (induction xs) auto

lemma colon_not_digit: "list_all isDigit s \<Longrightarrow> CHR '':'' \<notin> set s"
  by (auto simp: list_all_iff isDigit_def)

section \<open>path/filepath\<close>

text \<open>\<^verbatim>\<open>filepath.Base\<close> with the separator of Unix systems.\<close>

definition filepathBase :: "string \<Rightarrow> string" where
  "filepathBase p =
     (if p = [] then ''.''
      else let q = rev (dropWhile (\<lambda>c. c = CHR ''/'') (rev p))
           in if q = [] then ''/'' else rev (takeWhile (\<lambda>c. c \<noteq> CHR ''/'') (rev q)))"

section \<open>net.ParseMAC\<close>

definition hexVal :: "char \<Rightarrow> nat option" where
  "hexVal c = (let n = (of_char c :: nat) in
     if 48 \<le> n \<and> n \<le> 57 then Some (n - 48)
     else if 97 \<le> n \<and> n \<le> 102 then Some (n - 87)
     else if 65 \<le> n \<and> n \<le> 70 then Some (n - 55)
     else None)"

definition hexByte :: "char \<Rightarrow> char \<Rightarrow> byte option" where
  "hexByte a b = (case (hexVal a, hexVal b) of (Some x, Some y) \<Rightarrow> Some (of_nat (16 * x + y)) | _ \<Rightarrow> None)"

text \<open>Pairs of hexadecimal digits with the separator \<open>sep\<close> after every pair but the last.\<close>

fun hexPairs :: "char \<Rightarrow> string \<Rightarrow> bytes option" where
  "hexPairs sep [a, b] = map_option (\<lambda>x. [x]) (hexByte a b)"
| "hexPairs sep (a # b # c # s) =
     (if c \<noteq> sep then None
      else case hexByte a b of None \<Rightarrow> None | Some x \<Rightarrow> map_option ((#) x) (hexPairs sep s))"
| "hexPairs sep s = None"

text \<open>Groups of four hexadecimal digits separated by dots.\<close>

fun hexQuads :: "string \<Rightarrow> bytes option" where
  "hexQuads [a, b, c, d] =
     (case (hexByte a b, hexByte c d) of (Some x, Some y) \<Rightarrow> Some [x, y] | _ \<Rightarrow> None)"
| "hexQuads (a # b # c # d # e # s) =
     (if e \<noteq> CHR ''.'' then None
      else case (hexByte a b, hexByte c d) of
             (Some x, Some y) \<Rightarrow> map_option (\<lambda>r. x # y # r) (hexQuads s)
           | _ \<Rightarrow> None)"
| "hexQuads s = None"

definition ParseMAC :: "string \<Rightarrow> bytes option" where
  "ParseMAC s =
     (if length s < 14 then None
      else if s ! 2 = CHR '':'' \<or> s ! 2 = CHR ''-'' then
        (case hexPairs (s ! 2) s of
           Some hw \<Rightarrow> (if length hw \<in> {6, 8, 20} then Some hw else None)
         | None \<Rightarrow> None)
      else if s ! 4 = CHR ''.'' then
        (case hexQuads s of
           Some hw \<Rightarrow> (if length hw \<in> {6, 8, 20} then Some hw else None)
         | None \<Rightarrow> None)
      else None)"

definition hexDigit :: "nat \<Rightarrow> char" where
  "hexDigit n = char_of (if n < 10 then n + 48 else n + 87)"

definition hardwareAddrString :: "bytes \<Rightarrow> string" where
  "hardwareAddrString hw =
     Join (map (\<lambda>b. [hexDigit (unat b div 16), hexDigit (unat b mod 16)]) hw) '':''"

text \<open>\<^verbatim>\<open>hex.DecodeString\<close>.\<close>

fun hexDecode :: "string \<Rightarrow> bytes option" where
  "hexDecode [] = Some []"
| "hexDecode (a # b # s) =
     (case hexByte a b of None \<Rightarrow> None | Some x \<Rightarrow> map_option ((#) x) (hexDecode s))"
| "hexDecode [a] = None"

section \<open>net/netip\<close>

text \<open>\<^verbatim>\<open>netip.Addr\<close>: the zero value, an IPv4 address, or an IPv6 address with its zone.\<close>

datatype addr = NoAddr | IP4 uint32 | IP6 uint128 string

fun Is4 :: "addr \<Rightarrow> bool" where
  "Is4 (IP4 a) = True"
| "Is4 _ = False"

fun Is6 :: "addr \<Rightarrow> bool" where
  "Is6 (IP6 a z) = True"
| "Is6 _ = False"

definition addrIsValid :: "addr \<Rightarrow> bool" where
  "addrIsValid a \<longleftrightarrow> a \<noteq> NoAddr"

fun BitLen :: "addr \<Rightarrow> nat" where
  "BitLen NoAddr = 0"
| "BitLen (IP4 a) = 32"
| "BitLen (IP6 a z) = 128"

fun Unmap :: "addr \<Rightarrow> addr" where
  "Unmap (IP6 a z) = (if drop_bit 32 a = 0xFFFF then IP4 (ucast a) else IP6 a z)"
| "Unmap a = a"

text \<open>\<^verbatim>\<open>Addr.Next\<close>: the zero value past the last address.\<close>

fun addrNext :: "addr \<Rightarrow> addr" where
  "addrNext NoAddr = NoAddr"
| "addrNext (IP4 a) = (if a + 1 = 0 then NoAddr else IP4 (a + 1))"
| "addrNext (IP6 a z) = (if a + 1 = 0 then NoAddr else IP6 (a + 1) z)"

fun IsPrivate :: "addr \<Rightarrow> bool" where
  "IsPrivate NoAddr = False"
| "IsPrivate (IP4 a) \<longleftrightarrow>
     drop_bit 24 a = 10 \<or> drop_bit 20 a = 0xAC1 \<or> drop_bit 16 a = 0xC0A8"
| "IsPrivate (IP6 a z) \<longleftrightarrow>
     (case Unmap (IP6 a z) of
        IP4 b \<Rightarrow> drop_bit 24 b = 10 \<or> drop_bit 20 b = 0xAC1 \<or> drop_bit 16 b = 0xC0A8
      | _ \<Rightarrow> drop_bit 121 a = 0x7E)"

fun IsLoopback :: "addr \<Rightarrow> bool" where
  "IsLoopback NoAddr = False"
| "IsLoopback (IP4 a) \<longleftrightarrow> drop_bit 24 a = 127"
| "IsLoopback (IP6 a z) \<longleftrightarrow>
     (case Unmap (IP6 a z) of IP4 b \<Rightarrow> drop_bit 24 b = 127 | _ \<Rightarrow> a = 1)"

text \<open>\<^verbatim>\<open>netip.Prefix\<close>: the bits are absent in an invalid prefix.\<close>

record netprefix =
  pfxAddr :: addr
  pfxBits :: "nat option"

definition noPrefix :: netprefix where
  "noPrefix = \<lparr>pfxAddr = NoAddr, pfxBits = None\<rparr>"

definition PrefixFrom :: "addr \<Rightarrow> nat \<Rightarrow> netprefix" where
  "PrefixFrom a n =
     (let a' = (case a of IP6 w z \<Rightarrow> IP6 w [] | _ \<Rightarrow> a)
      in \<lparr>pfxAddr = a', pfxBits = (if addrIsValid a \<and> n \<le> BitLen a then Some n else None)\<rparr>)"

definition prefixIsValid :: "netprefix \<Rightarrow> bool" where
  "prefixIsValid p \<longleftrightarrow> pfxBits p \<noteq> None"

definition maskHigh :: "nat \<Rightarrow> 'a::len word \<Rightarrow> 'a word" where
  "maskHigh n a = drop_bit (LENGTH('a) - n) a"

fun samePrefix :: "nat \<Rightarrow> addr \<Rightarrow> addr \<Rightarrow> bool" where
  "samePrefix n (IP4 a) (IP4 b) \<longleftrightarrow> maskHigh n a = maskHigh n b"
| "samePrefix n (IP6 a z) (IP6 b z') \<longleftrightarrow> maskHigh n a = maskHigh n b"
| "samePrefix n _ _ = False"

fun hasZone :: "addr \<Rightarrow> bool" where
  "hasZone (IP6 a z) \<longleftrightarrow> z \<noteq> []"
| "hasZone _ = False"

definition prefixContains :: "netprefix \<Rightarrow> addr \<Rightarrow> bool" where
  "prefixContains p a =
     (case pfxBits p of None \<Rightarrow> False | Some n \<Rightarrow> \<not> hasZone a \<and> samePrefix n (pfxAddr p) a)"

definition Overlaps :: "netprefix \<Rightarrow> netprefix \<Rightarrow> bool" where
  "Overlaps p q =
     (case (pfxBits p, pfxBits q) of
        (Some n, Some m) \<Rightarrow> samePrefix (min n m) (pfxAddr p) (pfxAddr q)
      | _ \<Rightarrow> False)"

lemma samePrefix_sym: "samePrefix n a b \<longleftrightarrow> samePrefix n b a"
  by (cases a; cases b) auto

lemma Overlaps_sym: "Overlaps p q \<longleftrightarrow> Overlaps q p"
  by (auto simp: Overlaps_def min.commute samePrefix_sym split: option.splits)

end
