(* ===== verification/RuleItems.thy ===== *)
theory RuleItems
  imports GoLib
begin

text \<open>
  The context of a connection or a DNS query (\<^verbatim>\<open>adapter/inbound.go\<close>) and the leaf conditions of a
  rule (\<^verbatim>\<open>route/rule/rule_item_*.go\<close> and the three \<^verbatim>\<open>*interface_address.go\<close> files): one constructor
  of \<open>plain_item\<close> per item type, carrying the fields its constructor function computes, and one
  definition per \<^verbatim>\<open>Match\<close> method.  Matchers of third-party packages (compiled regular expressions,
  \<^verbatim>\<open>domain.Matcher\<close>, \<^verbatim>\<open>netipx.IPSet\<close>) are held as the function they compute; third-party functions
  and the observed state of the network manager are the fields of the parameter record \<open>env\<close>.
\<close>

section \<open>Data\<close>

record Socksaddr =
  Addr :: addr
  Port :: uint16
  Fqdn :: string

definition noSocksaddr :: Socksaddr where
  "noSocksaddr = \<lparr>Addr = NoAddr, Port = 0, Fqdn = []\<rparr>"

datatype svcbValue = SVCBIPv4Hint "bytes list" | SVCBIPv6Hint "bytes list" | SVCBOther

text \<open>
  Options of an EDNS0 record: a client subnet with its family, source netmask and address; padding; others
  with their code.
\<close>

datatype ednsOption = EDNS0_SUBNET uint16 uint8 bytes | EDNS0_PADDING bytes | EDNS0_Other uint16 bytes

text \<open>The data of a resource record; of a SOA record only the minimum TTL.\<close>

datatype rdata = RData_A bytes | RData_AAAA bytes | RData_HTTPS "svcbValue list" | RData_PTR string
  | RData_SOA uint32 | RData_OPT "ednsOption list" | RData_CNAME string | RData_TXT "string list"
  | RData_MX uint16 string | RData_Other bytes

record RR =
  rrName :: string
  rrType :: uint16
  rrClass :: uint16
  rrTtl :: uint32
  rrData :: rdata

record Question =
  qName :: string
  qType :: uint16
  qClass :: uint16

record dnsMsg =
  msgId :: uint16
  msgResponse :: bool
  msgAuthoritative :: bool
  msgRecursionDesired :: bool
  msgRecursionAvailable :: bool
  msgRcode :: int
  msgQuestion :: "Question list"
  msgAnswer :: "RR list"
  msgNs :: "RR list"
  msgExtra :: "RR list"

definition RcodeSuccess :: int where "RcodeSuccess = 0"
definition RcodeNameError :: int where "RcodeNameError = 3"
definition RcodeRefused :: int where "RcodeRefused = 5"
definition TypeA :: uint16 where "TypeA = 1"
definition TypePTR :: uint16 where "TypePTR = 12"
definition TypeAAAA :: uint16 where "TypeAAAA = 28"
definition TypeHTTPS :: uint16 where "TypeHTTPS = 65"

record ConnectionOwner =
  ProcessID :: uint32
  UserId :: int
  UserName :: string
  ProcessPath :: string

text \<open>\<^verbatim>\<open>InterfaceType\<close> is a byte; the last constructor is a byte without a name, which a binary rule-set may hold.\<close>

datatype InterfaceType = InterfaceTypeWIFI | InterfaceTypeCellular | InterfaceTypeEthernet | InterfaceTypeOther
  | InterfaceTypeUnknown uint8

datatype NetworkStrategy = NetworkStrategyDefault | NetworkStrategyFallback | NetworkStrategyHybrid

record ctlInterface =
  ifName :: string
  ifAddresses :: "netprefix list"

record NetworkInterface =
  niInterface :: ctlInterface
  niType :: InterfaceType
  niExpensive :: bool
  niConstrained :: bool

record WIFIState =
  SSID :: string
  BSSID :: string

datatype sniffError = ErrNeedMoreData | OtherSniffError

text \<open>\<^verbatim>\<open>adapter.InboundContext\<close>.  Durations are integers of nanoseconds; the opaque \<^verbatim>\<open>SniffContext\<close> is
  recorded as the presence of a value, a sniff error as whether it asks for more data.\<close>

record InboundContext =
  Inbound :: string
  InboundType :: string
  IPVersion :: uint8
  Network :: string
  Source :: Socksaddr
  Destination :: Socksaddr
  User :: string
  Outbound :: string
  Protocol :: string
  Domain :: string
  Client :: string
  SniffContext :: bool
  SnifferNames :: "string list"
  SniffError :: "sniffError option"
  InboundDetour :: string
  LastInbound :: string
  OriginDestination :: Socksaddr
  RouteOriginalDestination :: Socksaddr
  UDPDisableDomainUnmapping :: bool
  UDPConnect :: bool
  UDPTimeout :: int
  TLSFragment :: bool
  TLSFragmentFallbackDelay :: int
  TLSRecordFragment :: bool
  TLSSpoof :: string
  TLSSpoofMethod :: int
  mdNetworkStrategy :: "NetworkStrategy option"
  NetworkType :: "InterfaceType list"
  FallbackNetworkType :: "InterfaceType list"
  FallbackDelay :: int
  DestinationAddresses :: "addr list"
  DNSResponse :: "dnsMsg option"
  DestinationAddressMatchFromResponse :: bool
  SourceGeoIPCode :: string
  GeoIPCode :: string
  ProcessInfo :: "ConnectionOwner option"
  SourceMACAddress :: "bytes option"
  SourceHostname :: string
  QueryType :: uint16
  mdFakeIP :: bool
  IPCIDRMatchSource :: bool
  IPCIDRAcceptEmpty :: bool
  SourceAddressMatch :: bool
  SourcePortMatch :: bool
  DestinationAddressMatch :: bool
  DestinationPortMatch :: bool
  DidMatch :: bool
  IgnoreDestinationIPCIDRMatch :: bool

text \<open>The zero value of the struct, with the fields the rules look at most as arguments elsewhere.\<close>

definition noInboundContext :: InboundContext where
  "noInboundContext = \<lparr>
     Inbound = [], InboundType = [], IPVersion = 0, Network = [], Source = noSocksaddr,
     Destination = noSocksaddr, User = [], Outbound = [], Protocol = [], Domain = [], Client = [],
     SniffContext = False, SnifferNames = [], SniffError = None, InboundDetour = [], LastInbound = [],
     OriginDestination = noSocksaddr, RouteOriginalDestination = noSocksaddr,
     UDPDisableDomainUnmapping = False, UDPConnect = False, UDPTimeout = 0, TLSFragment = False,
     TLSFragmentFallbackDelay = 0, TLSRecordFragment = False, TLSSpoof = [], TLSSpoofMethod = 0,
     mdNetworkStrategy = None, NetworkType = [], FallbackNetworkType = [], FallbackDelay = 0,
     DestinationAddresses = [], DNSResponse = None, DestinationAddressMatchFromResponse = False,
     SourceGeoIPCode = [], GeoIPCode = [], ProcessInfo = None, SourceMACAddress = None,
     SourceHostname = [], QueryType = 0, mdFakeIP = False, IPCIDRMatchSource = False,
     IPCIDRAcceptEmpty = False, SourceAddressMatch = False, SourcePortMatch = False,
     DestinationAddressMatch = False, DestinationPortMatch = False, DidMatch = False,
     IgnoreDestinationIPCIDRMatch = False\<rparr>"

definition ResetRuleMatchCache :: "InboundContext \<Rightarrow> InboundContext" where
  "ResetRuleMatchCache c = c\<lparr>SourceAddressMatch := False, SourcePortMatch := False,
     DestinationAddressMatch := False, DestinationPortMatch := False, DidMatch := False\<rparr>"

definition ResetRuleCache :: "InboundContext \<Rightarrow> InboundContext" where
  "ResetRuleCache c = ResetRuleMatchCache (c\<lparr>IPCIDRMatchSource := False, IPCIDRAcceptEmpty := False\<rparr>)"

text \<open>
  Functions of third-party packages (\<^verbatim>\<open>sing\<close>, \<^verbatim>\<open>miekg/dns\<close>) and the state of the running services
  that a rule item consults: the Clash API mode, if the service exists, and the network manager.
\<close>

record env =
  IsIP :: "Socksaddr \<Rightarrow> bool"
  IsIPv6 :: "Socksaddr \<Rightarrow> bool"
  IsPublicAddr :: "addr \<Rightarrow> bool"
  AddrFromIP :: "bytes \<Rightarrow> addr"
  CanonicalName :: "string \<Rightarrow> string"
  IsDuplicate :: "RR \<Rightarrow> RR \<Rightarrow> bool"
  clashMode :: "string option"
  DefaultNetworkInterface :: "NetworkInterface option"
  NetworkInterfaces :: "NetworkInterface list"
  finderInterfaces :: "ctlInterface list"
  monitorDefaultInterface :: "ctlInterface option"
  MyInterfaces :: "string list"
  wifiState :: WIFIState

section \<open>Addresses of a DNS response\<close>

definition hintAddresses :: "env \<Rightarrow> svcbValue \<Rightarrow> addr list" where
  "hintAddresses E v = (case v of
     SVCBIPv4Hint hs \<Rightarrow> filter addrIsValid (map (\<lambda>ip. Unmap (AddrFromIP E ip)) hs)
   | SVCBIPv6Hint hs \<Rightarrow> filter addrIsValid (map (AddrFromIP E) hs)
   | SVCBOther \<Rightarrow> [])"

definition recordAddresses :: "env \<Rightarrow> RR \<Rightarrow> addr list" where
  "recordAddresses E r = (case rrData r of
     RData_A ip \<Rightarrow> filter addrIsValid [AddrFromIP E ip]
   | RData_AAAA ip \<Rightarrow> filter addrIsValid [AddrFromIP E ip]
   | RData_HTTPS vs \<Rightarrow> concat (map (hintAddresses E) vs)
   | _ \<Rightarrow> [])"

definition DNSResponseAddresses :: "env \<Rightarrow> dnsMsg option \<Rightarrow> addr list" where
  "DNSResponseAddresses E response = (case response of
     None \<Rightarrow> []
   | Some m \<Rightarrow> if msgRcode m \<noteq> RcodeSuccess then [] else concat (map (recordAddresses E) (msgAnswer m)))"

definition DNSResponseAddressesForMatch :: "env \<Rightarrow> InboundContext \<Rightarrow> addr list" where
  "DNSResponseAddressesForMatch E c = DNSResponseAddresses E (DNSResponse c)"

section \<open>Items\<close>

datatype recordSection = dnsResponseAnswers | dnsResponseNS | dnsResponseExtra

text \<open>An outbound with preferred routes and a DNS transport with preferred domains: the methods the
  items call.\<close>

record preferredRoutes =
  PreferredDomain :: "string \<Rightarrow> bool"
  PreferredAddress :: "addr \<Rightarrow> bool"

datatype plain_item =
    AdGuardDomainItem "string \<Rightarrow> bool"
  | AuthUserItem "string list"
  | IPCIDRItem bool "addr \<Rightarrow> bool"
  | ClashModeItem string
  | ClientItem "string list"
  | DomainItem "string \<Rightarrow> bool"
  | DomainKeywordItem "string list"
  | DomainRegexItem "(string \<Rightarrow> bool) list"
  | InboundItem "string list"
  | IPAcceptAnyItem
  | IPIsPrivateItem bool
  | IPVersionItem bool
  | NetworkItem "string list"
  | NetworkIsConstrainedItem
  | NetworkIsExpensiveItem
  | NetworkTypeItem "InterfaceType list"
  | OutboundItem "string list" bool
  | PortItem bool "uint16 list"
  | PortRangeItem bool "(uint16 \<times> uint16) list"
  | PreferredByItem "string list" "preferredRoutes list"
  | PreferredByDNSItem "string list" "(string \<Rightarrow> bool) list"
  | ProcessItem "string list"
  | ProcessPathItem "string list"
  | ProcessPathRegexItem "(string \<Rightarrow> bool) list"
  | ProtocolItem "string list"
  | QueryTypeItem "uint16 list"
  | DNSResponseRCodeItem int
  | DNSResponseRecordItem "RR option list" recordSection
  | SourceHostnameItem "string list"
  | SourceMACAddressItem "string list"
  | UserItem "string list"
  | UserIdItem "int list"
  | WIFIBSSIDItem "string list"
  | WIFISSIDItem "string list"
  | DefaultInterfaceAddressItem "netprefix list"
  | InterfaceAddressItem "(string, netprefix list) gomap"
  | NetworkInterfaceAddressItem "(InterfaceType, netprefix list) gomap"

subsection \<open>Constructors\<close>

text \<open>Third-party builders: \<^verbatim>\<open>regexp.Compile\<close>, \<^verbatim>\<open>domain.NewMatcher\<close>, \<^verbatim>\<open>domain.NewAdGuardMatcher\<close> and
  \<^verbatim>\<open>netipx.IPSetBuilder\<close> applied to the prefixes and single addresses added to it.  The parsers
  \<^verbatim>\<open>netip.ParsePrefix\<close> and \<^verbatim>\<open>netip.ParseAddr\<close> return nothing on a malformed text.\<close>

datatype ipEntry = AddPrefix netprefix | AddAddr addr

record builders =
  regexpCompile :: "string \<Rightarrow> (goerror, string \<Rightarrow> bool) result"
  NewMatcher :: "string list \<Rightarrow> string list \<Rightarrow> string \<Rightarrow> bool"
  NewAdGuardMatcher :: "string list \<Rightarrow> string \<Rightarrow> bool"
  builderIPSet :: "ipEntry list \<Rightarrow> (goerror, addr \<Rightarrow> bool) result"
  ParsePrefix :: "string \<Rightarrow> (goerror, netprefix) result"
  ParseAddr :: "string \<Rightarrow> (goerror, addr) result"

definition NewAdGuardDomainItem :: "builders \<Rightarrow> string list \<Rightarrow> plain_item" where
  "NewAdGuardDomainItem B ruleLines = AdGuardDomainItem (NewAdGuardMatcher B ruleLines)"

definition parseIPEntry :: "builders \<Rightarrow> string \<Rightarrow> (goerror, ipEntry) result" where
  "parseIPEntry B s = (case ParsePrefix B s of
     Inr prefix \<Rightarrow> Ok (AddPrefix prefix)
   | Inl err \<Rightarrow> (case ParseAddr B s of Inr addr \<Rightarrow> Ok (AddAddr addr) | Inl _ \<Rightarrow> Err (ECause err ''parse'')))"

definition NewIPCIDRItem :: "builders \<Rightarrow> bool \<Rightarrow> string list \<Rightarrow> (goerror, plain_item) result" where
  "NewIPCIDRItem B isSource prefixStrings =
     bindR (mapR (parseIPEntry B) prefixStrings) (\<lambda>entries.
     bindR (builderIPSet B entries) (\<lambda>ipSet. Ok (IPCIDRItem isSource ipSet)))"

definition NewDomainItem :: "builders \<Rightarrow> string list \<Rightarrow> string list \<Rightarrow> (goerror, plain_item) result" where
  "NewDomainItem B domains domainSuffixes =
     (if [] \<in> set domains then Err (ENew ''domain: empty item is not allowed'')
      else if [] \<in> set domainSuffixes then Err (ENew ''domain_suffix: empty item is not allowed'')
      else Ok (DomainItem (NewMatcher B domains domainSuffixes)))"

definition NewDomainRegexItem :: "builders \<Rightarrow> string list \<Rightarrow> (goerror, plain_item) result" where
  "NewDomainRegexItem B expressions =
     bindR (mapR (\<lambda>e. withCause ''parse expression'' (regexpCompile B e)) expressions)
       (\<lambda>matchers. Ok (DomainRegexItem matchers))"

definition NewProcessPathRegexItem :: "builders \<Rightarrow> string list \<Rightarrow> (goerror, plain_item) result" where
  "NewProcessPathRegexItem B expressions =
     bindR (mapR (\<lambda>e. withCause ''parse expression'' (regexpCompile B e)) expressions)
       (\<lambda>matchers. Ok (ProcessPathRegexItem matchers))"

definition NewOutboundRule :: "string list \<Rightarrow> plain_item" where
  "NewOutboundRule outbounds =
     OutboundItem (filter (\<lambda>t. t \<noteq> ''any'') outbounds) (''any'' \<in> set outbounds)"

definition ErrBadPortRange :: goerror where
  "ErrBadPortRange = ENew ''bad port range''"

definition parsePortRange :: "string \<Rightarrow> (goerror, uint16 \<times> uint16) result" where
  "parsePortRange portRange = (case IndexAny portRange '':'' of
     None \<Rightarrow> Err (EExtend ErrBadPortRange portRange)
   | Some subIndex \<Rightarrow>
       let bad = Err (ECause (EExtend ErrBadPortRange portRange) ''parse'');
           start = (if subIndex > 0 then ParseUint (take subIndex portRange) 16 else Some 0);
           end = (if subIndex = length portRange - 1 then Some 0xFFFF
                  else ParseUint (drop (subIndex + 1) portRange) 16)
       in case start of None \<Rightarrow> bad | Some s \<Rightarrow>
         (case end of None \<Rightarrow> bad | Some e \<Rightarrow> Ok (of_nat s, of_nat e)))"

definition NewPortRangeItem :: "bool \<Rightarrow> string list \<Rightarrow> (goerror, plain_item) result" where
  "NewPortRangeItem isSource rangeList =
     bindR (mapR parsePortRange rangeList) (\<lambda>l. Ok (PortRangeItem isSource l))"

definition NewSourceMACAddressItem :: "string list \<Rightarrow> plain_item" where
  "NewSourceMACAddressItem addressList =
     SourceMACAddressItem (map (\<lambda>a. case ParseMAC a of Some hw \<Rightarrow> hardwareAddrString hw | None \<Rightarrow> a) addressList)"

definition NormalizeWIFIBSSID :: "string \<Rightarrow> string" where
  "NormalizeWIFIBSSID bssid0 =
     (let bssid = TrimSpace bssid0 in
      if bssid = [] then []
      else case ParseMAC bssid of
        Some parsed \<Rightarrow> (if length parsed = 6 then hardwareAddrString parsed
                        else if length bssid = 12 then
                          (case hexDecode bssid of Some d \<Rightarrow> hardwareAddrString d | None \<Rightarrow> bssid)
                        else bssid)
      | None \<Rightarrow> (if length bssid = 12 then
                    (case hexDecode bssid of Some d \<Rightarrow> hardwareAddrString d | None \<Rightarrow> bssid)
                  else bssid))"

definition NewWIFIBSSIDItem :: "string list \<Rightarrow> plain_item" where
  "NewWIFIBSSIDItem bssidList = WIFIBSSIDItem (map NormalizeWIFIBSSID bssidList)"

definition prefixMap :: "('k \<times> netprefix list) list \<Rightarrow> ('k, netprefix list) gomap" where
  "prefixMap entries = fold (\<lambda>(k, v) m. AList.update k v m) entries []"

definition NewInterfaceAddressItem :: "(string \<times> netprefix list) list \<Rightarrow> plain_item" where
  "NewInterfaceAddressItem entries = InterfaceAddressItem (prefixMap entries)"

definition NewNetworkInterfaceAddressItem :: "(InterfaceType \<times> netprefix list) list \<Rightarrow> plain_item" where
  "NewNetworkInterfaceAddressItem entries = NetworkInterfaceAddressItem (prefixMap entries)"

text \<open>Starting a \<^verbatim>\<open>preferred_by\<close> item resolves its tags: a tag names an outbound (transport) with its
  type and, when that type supports it, its preferred routes (domains).\<close>

definition PreferredByItem_Start ::
  "(string \<Rightarrow> (string \<times> 'r option) option) \<Rightarrow> string list \<Rightarrow> (goerror, 'r list) result" where
  "PreferredByItem_Start lookup outboundTags = mapR (\<lambda>tag. case lookup tag of
       None \<Rightarrow> Err (ENew (''outbound not found: '' @ tag))
     | Some (typ, None) \<Rightarrow> Err (ENew (''outbound type does not support preferred routes: '' @ typ))
     | Some (typ, Some r) \<Rightarrow> Ok r) outboundTags"

definition PreferredByDNSItem_Start ::
  "(string \<Rightarrow> (string \<times> 'r option) option) \<Rightarrow> string list \<Rightarrow> (goerror, 'r list) result" where
  "PreferredByDNSItem_Start lookup transportTags = mapR (\<lambda>tag. case lookup tag of
       None \<Rightarrow> Err (ENew (''DNS server not found: '' @ tag))
     | Some (typ, None) \<Rightarrow> Err (ENew (''DNS server type does not support preferred_by: '' @ typ))
     | Some (typ, Some r) \<Rightarrow> Ok r) transportTags"

subsection \<open>Match\<close>

definition domainHost :: "InboundContext \<Rightarrow> string" where
  "domainHost m = (if Domain m \<noteq> [] then Domain m else Fqdn (Destination m))"

definition AdGuardDomainItem_Match :: "(string \<Rightarrow> bool) \<Rightarrow> InboundContext \<Rightarrow> bool" where
  "AdGuardDomainItem_Match matcher m =
     (if domainHost m = [] then False else matcher (ToLower (domainHost m)))"

definition AuthUserItem_Match :: "string list \<Rightarrow> InboundContext \<Rightarrow> bool" where
  "AuthUserItem_Match users m = boolMap users (User m)"

definition IPCIDRItem_Match :: "env \<Rightarrow> bool \<Rightarrow> (addr \<Rightarrow> bool) \<Rightarrow> InboundContext \<Rightarrow> bool" where
  "IPCIDRItem_Match E isSource ipSet m =
     (if isSource \<or> IPCIDRMatchSource m then ipSet (Addr (Source m))
      else if DestinationAddressMatchFromResponse m then
        (let addresses = DNSResponseAddressesForMatch E m in
         if addresses = [] then IPCIDRAcceptEmpty m else list_ex ipSet addresses)
      else if IsIP E (Destination m) then ipSet (Addr (Destination m))
      else if DestinationAddresses m \<noteq> [] then list_ex ipSet (DestinationAddresses m)
      else IPCIDRAcceptEmpty m)"

definition ClashModeItem_Match :: "env \<Rightarrow> string \<Rightarrow> bool" where
  "ClashModeItem_Match E mode = (case clashMode E of None \<Rightarrow> False | Some cur \<Rightarrow> EqualFold cur mode)"

definition ClientItem_Match :: "string list \<Rightarrow> InboundContext \<Rightarrow> bool" where
  "ClientItem_Match clients m = boolMap clients (Client m)"

definition DomainItem_Match :: "(string \<Rightarrow> bool) \<Rightarrow> InboundContext \<Rightarrow> bool" where
  "DomainItem_Match matcher m =
     (if domainHost m = [] then False else matcher (ToLower (domainHost m)))"

definition DomainKeywordItem_Match :: "string list \<Rightarrow> InboundContext \<Rightarrow> bool" where
  "DomainKeywordItem_Match keywords m =
     (if domainHost m = [] then False else list_ex (Contains (ToLower (domainHost m))) keywords)"

definition DomainRegexItem_Match :: "(string \<Rightarrow> bool) list \<Rightarrow> InboundContext \<Rightarrow> bool" where
  "DomainRegexItem_Match matchers m =
     (if domainHost m = [] then False else list_ex (\<lambda>f. f (ToLower (domainHost m))) matchers)"

definition InboundItem_Match :: "string list \<Rightarrow> InboundContext \<Rightarrow> bool" where
  "InboundItem_Match inbounds m = boolMap inbounds (Inbound m)"

definition IPAcceptAnyItem_Match :: "env \<Rightarrow> InboundContext \<Rightarrow> bool" where
  "IPAcceptAnyItem_Match E m =
     (if DestinationAddressMatchFromResponse m then DNSResponseAddressesForMatch E m \<noteq> []
      else DestinationAddresses m \<noteq> [])"

definition IPIsPrivateItem_Match :: "env \<Rightarrow> bool \<Rightarrow> InboundContext \<Rightarrow> bool" where
  "IPIsPrivateItem_Match E isSource m =
     (if isSource then \<not> IsPublicAddr E (Addr (Source m))
      else if DestinationAddressMatchFromResponse m then
        list_ex (\<lambda>a. \<not> IsPublicAddr E a) (DNSResponseAddressesForMatch E m)
      else if addrIsValid (Addr (Destination m)) then \<not> IsPublicAddr E (Addr (Destination m))
      else list_ex (\<lambda>a. \<not> IsPublicAddr E a) (DestinationAddresses m))"

definition IPVersionItem_Match :: "env \<Rightarrow> bool \<Rightarrow> InboundContext \<Rightarrow> bool" where
  "IPVersionItem_Match E isIPv6 m \<longleftrightarrow>
     IPVersion m \<noteq> 0 \<and> (IPVersion m = 6) = isIPv6 \<or>
     IsIP E (Destination m) \<and> IsIPv6 E (Destination m) = isIPv6"

definition NetworkItem_Match :: "string list \<Rightarrow> InboundContext \<Rightarrow> bool" where
  "NetworkItem_Match networks m = boolMap networks (Network m)"

definition NetworkIsConstrainedItem_Match :: "env \<Rightarrow> bool" where
  "NetworkIsConstrainedItem_Match E =
     (case DefaultNetworkInterface E of None \<Rightarrow> False | Some i \<Rightarrow> niConstrained i)"

definition NetworkIsExpensiveItem_Match :: "env \<Rightarrow> bool" where
  "NetworkIsExpensiveItem_Match E =
     (case DefaultNetworkInterface E of None \<Rightarrow> False | Some i \<Rightarrow> niExpensive i)"

definition NetworkTypeItem_Match :: "env \<Rightarrow> InterfaceType list \<Rightarrow> bool" where
  "NetworkTypeItem_Match E types =
     (case DefaultNetworkInterface E of None \<Rightarrow> False | Some i \<Rightarrow> niType i \<in> set types)"

definition OutboundItem_Match :: "string list \<Rightarrow> bool \<Rightarrow> InboundContext \<Rightarrow> bool" where
  "OutboundItem_Match outbounds matchAny m =
     (if matchAny then Outbound m \<noteq> [] else boolMap outbounds (Outbound m))"

definition PortItem_Match :: "bool \<Rightarrow> uint16 list \<Rightarrow> InboundContext \<Rightarrow> bool" where
  "PortItem_Match isSource ports m =
     (if isSource then boolMap ports (Port (Source m)) else boolMap ports (Port (Destination m)))"

definition PortRangeItem_Match :: "bool \<Rightarrow> (uint16 \<times> uint16) list \<Rightarrow> InboundContext \<Rightarrow> bool" where
  "PortRangeItem_Match isSource portRangeList m =
     (let port = (if isSource then Port (Source m) else Port (Destination m))
      in list_ex (\<lambda>(s, e). s \<le> port \<and> port \<le> e) portRangeList)"

definition PreferredByItem_Match :: "env \<Rightarrow> preferredRoutes list \<Rightarrow> InboundContext \<Rightarrow> bool" where
  "PreferredByItem_Match E outbounds m =
     (if domainHost m \<noteq> [] \<and> list_ex (\<lambda>o'. PreferredDomain o' (domainHost m)) outbounds then True
      else if IsIP E (Destination m) \<and> list_ex (\<lambda>o'. PreferredAddress o' (Addr (Destination m))) outbounds then True
      else list_ex (\<lambda>a. list_ex (\<lambda>o'. PreferredAddress o' a) outbounds) (DestinationAddresses m))"

definition PreferredByDNSItem_Match :: "env \<Rightarrow> (string \<Rightarrow> bool) list \<Rightarrow> InboundContext \<Rightarrow> bool" where
  "PreferredByDNSItem_Match E transports m =
     (if domainHost m = [] then False
      else list_ex (\<lambda>t. t (CanonicalName E (domainHost m))) transports)"

definition ProcessItem_Match :: "string list \<Rightarrow> InboundContext \<Rightarrow> bool" where
  "ProcessItem_Match processes m = (case ProcessInfo m of
     None \<Rightarrow> False
   | Some p \<Rightarrow> if ProcessPath p = [] then False else boolMap processes (filepathBase (ProcessPath p)))"

definition ProcessPathItem_Match :: "string list \<Rightarrow> InboundContext \<Rightarrow> bool" where
  "ProcessPathItem_Match processes m = (case ProcessInfo m of
     None \<Rightarrow> False
   | Some p \<Rightarrow> ProcessPath p \<noteq> [] \<and> boolMap processes (ProcessPath p))"

definition ProcessPathRegexItem_Match :: "(string \<Rightarrow> bool) list \<Rightarrow> InboundContext \<Rightarrow> bool" where
  "ProcessPathRegexItem_Match matchers m = (case ProcessInfo m of
     None \<Rightarrow> False
   | Some p \<Rightarrow> if ProcessPath p = [] then False else list_ex (\<lambda>f. f (ProcessPath p)) matchers)"

definition ProtocolItem_Match :: "string list \<Rightarrow> InboundContext \<Rightarrow> bool" where
  "ProtocolItem_Match protocols m = boolMap protocols (Protocol m)"

definition QueryTypeItem_Match :: "uint16 list \<Rightarrow> InboundContext \<Rightarrow> bool" where
  "QueryTypeItem_Match types m = (if QueryType m = 0 then False else boolMap types (QueryType m))"

definition DNSResponseRCodeItem_Match :: "int \<Rightarrow> InboundContext \<Rightarrow> bool" where
  "DNSResponseRCodeItem_Match rcode m =
     (case DNSResponse m of None \<Rightarrow> False | Some r \<Rightarrow> msgRcode r = rcode)"

definition DNSRecordOptions_Match :: "env \<Rightarrow> RR option \<Rightarrow> RR \<Rightarrow> bool" where
  "DNSRecordOptions_Match E expected record' =
     (case expected of None \<Rightarrow> False | Some rr \<Rightarrow> IsDuplicate E rr record')"

fun selector :: "recordSection \<Rightarrow> dnsMsg \<Rightarrow> RR list" where
  "selector dnsResponseAnswers m = msgAnswer m"
| "selector dnsResponseNS m = msgNs m"
| "selector dnsResponseExtra m = msgExtra m"

definition DNSResponseRecordItem_Match ::
  "env \<Rightarrow> RR option list \<Rightarrow> recordSection \<Rightarrow> InboundContext \<Rightarrow> bool" where
  "DNSResponseRecordItem_Match E records sel m = (case DNSResponse m of
     None \<Rightarrow> False
   | Some r \<Rightarrow> list_ex (\<lambda>expected. list_ex (DNSRecordOptions_Match E expected) (selector sel r)) records)"

definition SourceHostnameItem_Match :: "string list \<Rightarrow> InboundContext \<Rightarrow> bool" where
  "SourceHostnameItem_Match hostnames m =
     (if SourceHostname m = [] then False else boolMap hostnames (SourceHostname m))"

definition SourceMACAddressItem_Match :: "string list \<Rightarrow> InboundContext \<Rightarrow> bool" where
  "SourceMACAddressItem_Match addresses m = (case SourceMACAddress m of
     None \<Rightarrow> False | Some hw \<Rightarrow> boolMap addresses (hardwareAddrString hw))"

definition UserItem_Match :: "string list \<Rightarrow> InboundContext \<Rightarrow> bool" where
  "UserItem_Match users m = (case ProcessInfo m of
     None \<Rightarrow> False | Some p \<Rightarrow> if UserName p = [] then False else boolMap users (UserName p))"

definition UserIdItem_Match :: "int list \<Rightarrow> InboundContext \<Rightarrow> bool" where
  "UserIdItem_Match userIds m = (case ProcessInfo m of
     None \<Rightarrow> False | Some p \<Rightarrow> if UserId p = - 1 then False else boolMap userIds (UserId p))"

definition WIFIBSSIDItem_Match :: "env \<Rightarrow> string list \<Rightarrow> bool" where
  "WIFIBSSIDItem_Match E bssids = boolMap bssids (BSSID (wifiState E))"

definition WIFISSIDItem_Match :: "env \<Rightarrow> string list \<Rightarrow> bool" where
  "WIFISSIDItem_Match E ssids = boolMap ssids (SSID (wifiState E))"

definition DefaultInterfaceAddressItem_Match :: "env \<Rightarrow> netprefix list \<Rightarrow> bool" where
  "DefaultInterfaceAddressItem_Match E interfaceAddresses = (case monitorDefaultInterface E of
     None \<Rightarrow> False
   | Some i \<Rightarrow> \<not> list_ex (\<lambda>address. list_all (\<lambda>it. \<not> Overlaps address it) (ifAddresses i)) interfaceAddresses)"

text \<open>\<^verbatim>\<open>common.Find\<close> returns the zero value, with an empty name, when nothing is found.\<close>

definition InterfaceAddressItem_Match :: "env \<Rightarrow> (string, netprefix list) gomap \<Rightarrow> bool" where
  "InterfaceAddressItem_Match E interfaceAddresses = list_all (\<lambda>(name, addresses).
     case List.find (\<lambda>it. ifName it = name) (finderInterfaces E) of
       None \<Rightarrow> False
     | Some iface \<Rightarrow>
         if ifName iface = [] then False
         else \<not> list_all (\<lambda>address. list_all (\<lambda>it. \<not> Overlaps address it) (ifAddresses iface)) addresses)
     interfaceAddresses"

definition NetworkInterfaceAddressItem_Match :: "env \<Rightarrow> (InterfaceType, netprefix list) gomap \<Rightarrow> bool" where
  "NetworkInterfaceAddressItem_Match E interfaceAddresses = list_all (\<lambda>(ifType, addresses).
     list_ex (\<lambda>i. ifName (niInterface i) \<notin> set (MyInterfaces E) \<and> niType i = ifType \<and>
                  list_ex (\<lambda>it. list_ex (\<lambda>prefix. Overlaps prefix it) addresses) (ifAddresses (niInterface i)))
       (NetworkInterfaces E))
     interfaceAddresses"

fun itemMatch :: "env \<Rightarrow> plain_item \<Rightarrow> InboundContext \<Rightarrow> bool" where
  "itemMatch E (AdGuardDomainItem f) m = AdGuardDomainItem_Match f m"
| "itemMatch E (AuthUserItem xs) m = AuthUserItem_Match xs m"
| "itemMatch E (IPCIDRItem src f) m = IPCIDRItem_Match E src f m"
| "itemMatch E (ClashModeItem md) m = ClashModeItem_Match E md"
| "itemMatch E (ClientItem xs) m = ClientItem_Match xs m"
| "itemMatch E (DomainItem f) m = DomainItem_Match f m"
| "itemMatch E (DomainKeywordItem xs) m = DomainKeywordItem_Match xs m"
| "itemMatch E (DomainRegexItem fs) m = DomainRegexItem_Match fs m"
| "itemMatch E (InboundItem xs) m = InboundItem_Match xs m"
| "itemMatch E IPAcceptAnyItem m = IPAcceptAnyItem_Match E m"
| "itemMatch E (IPIsPrivateItem src) m = IPIsPrivateItem_Match E src m"
| "itemMatch E (IPVersionItem v6) m = IPVersionItem_Match E v6 m"
| "itemMatch E (NetworkItem xs) m = NetworkItem_Match xs m"
| "itemMatch E NetworkIsConstrainedItem m = NetworkIsConstrainedItem_Match E"
| "itemMatch E NetworkIsExpensiveItem m = NetworkIsExpensiveItem_Match E"
| "itemMatch E (NetworkTypeItem ts) m = NetworkTypeItem_Match E ts"
| "itemMatch E (OutboundItem xs any) m = OutboundItem_Match xs any m"
| "itemMatch E (PortItem src ps) m = PortItem_Match src ps m"
| "itemMatch E (PortRangeItem src rs) m = PortRangeItem_Match src rs m"
| "itemMatch E (PreferredByItem ts os) m = PreferredByItem_Match E os m"
| "itemMatch E (PreferredByDNSItem ts fs) m = PreferredByDNSItem_Match E fs m"
| "itemMatch E (ProcessItem xs) m = ProcessItem_Match xs m"
| "itemMatch E (ProcessPathItem xs) m = ProcessPathItem_Match xs m"
| "itemMatch E (ProcessPathRegexItem fs) m = ProcessPathRegexItem_Match fs m"
| "itemMatch E (ProtocolItem xs) m = ProtocolItem_Match xs m"
| "itemMatch E (QueryTypeItem ts) m = QueryTypeItem_Match ts m"
| "itemMatch E (DNSResponseRCodeItem c) m = DNSResponseRCodeItem_Match c m"
| "itemMatch E (DNSResponseRecordItem rs sel) m = DNSResponseRecordItem_Match E rs sel m"
| "itemMatch E (SourceHostnameItem xs) m = SourceHostnameItem_Match xs m"
| "itemMatch E (SourceMACAddressItem xs) m = SourceMACAddressItem_Match xs m"
| "itemMatch E (UserItem xs) m = UserItem_Match xs m"
| "itemMatch E (UserIdItem xs) m = UserIdItem_Match xs m"
| "itemMatch E (WIFIBSSIDItem xs) m = WIFIBSSIDItem_Match E xs"
| "itemMatch E (WIFISSIDItem xs) m = WIFISSIDItem_Match E xs"
| "itemMatch E (DefaultInterfaceAddressItem ps) m = DefaultInterfaceAddressItem_Match E ps"
| "itemMatch E (InterfaceAddressItem mp) m = InterfaceAddressItem_Match E mp"
| "itemMatch E (NetworkInterfaceAddressItem mp) m = NetworkInterfaceAddressItem_Match E mp"

section \<open>Port ranges\<close>

lemma parsePortRange_print:
  assumes "a < 65536" "b < 65536"
  shows "parsePortRange (natToString a @ '':'' @ natToString b) = Ok (of_nat a, of_nat b)"
proof -
  have digits: "CHR '':'' \<notin> set (natToString a)" "natToString a \<noteq> []" "natToString b \<noteq> []"
    using natToString_digits[of a] natToString_digits[of b] colon_not_digit by blast+
  then have "IndexAny (natToString a @ '':'' @ natToString b) '':'' = Some (length (natToString a))"
    using IndexAny_skip[of "CHR '':''" "natToString a"] by simp
  moreover have "ParseUint (natToString a) 16 = Some a" "ParseUint (natToString b) 16 = Some b"
    using assms by simp_all
  ultimately show ?thesis
    using digits by (simp add: parsePortRange_def Let_def)
qed

text \<open>
  C11: Port ranges: a range written as two decimal port numbers is parsed to exactly these two bounds,
  and the resulting condition matches a destination port exactly when it lies between them, both
  included.
\<close>

theorem port_range_parse_match:
  assumes "a < 65536" "b < 65536"
  shows "NewPortRangeItem False [natToString a @ '':'' @ natToString b] =
      Ok (PortRangeItem False [(of_nat a, of_nat b)]) \<and>
    (itemMatch E (PortRangeItem False [(of_nat a, of_nat b)]) m \<longleftrightarrow>
      a \<le> unat (Port (Destination m)) \<and> unat (Port (Destination m)) \<le> b)"
proof
  show "NewPortRangeItem False [natToString a @ '':'' @ natToString b] =
      Ok (PortRangeItem False [(of_nat a, of_nat b)])"
    using parsePortRange_print[OF assms] by (simp add: NewPortRangeItem_def)
  have "unat (of_nat a :: uint16) = a" "unat (of_nat b :: uint16) = b"
    using assms by (simp_all add: unat_of_nat)
  then show "itemMatch E (PortRangeItem False [(of_nat a, of_nat b)]) m \<longleftrightarrow>
      a \<le> unat (Port (Destination m)) \<and> unat (Port (Destination m)) \<le> b"
    by (simp add: PortRangeItem_Match_def word_le_nat_alt Let_def)
qed

theorem port_range_parse_match_witness:
  "NewPortRangeItem False [natToString 80 @ '':'' @ natToString 443] = Ok (PortRangeItem False [(80, 443)]) \<and>
   itemMatch undefined (PortRangeItem False [(80, 443)])
     (noInboundContext\<lparr>Destination := \<lparr>Addr = NoAddr, Port = 100, Fqdn = []\<rparr>\<rparr>)"
  using port_range_parse_match[of 80 443 undefined
      "noInboundContext\<lparr>Destination := \<lparr>Addr = NoAddr, Port = 100, Fqdn = []\<rparr>\<rparr>"]
  by simp

end
