(* ===== verification/RuleAction.thy ===== *)
theory RuleAction
  imports RuleItems
begin

text \<open>
  Rule actions (\<^verbatim>\<open>route/rule/rule_action.go\<close>, \<^verbatim>\<open>option/rule_action.go\<close>, \<^verbatim>\<open>constant/rule.go\<close>): the action
  values with one constructor per Go type, their construction from the configuration, the sliding
  window of the \<^verbatim>\<open>reject\<close> action and the answers of the \<^verbatim>\<open>predefined\<close> action.
\<close>

section \<open>Constants\<close>

definition RuleTypeDefault :: string where "RuleTypeDefault = ''default''"
definition RuleTypeLogical :: string where "RuleTypeLogical = ''logical''"
definition LogicalTypeAnd :: string where "LogicalTypeAnd = ''and''"
definition LogicalTypeOr :: string where "LogicalTypeOr = ''or''"
definition RuleActionTypeRoute :: string where "RuleActionTypeRoute = ''route''"
definition RuleActionTypeRouteOptions :: string where "RuleActionTypeRouteOptions = ''route-options''"
definition RuleActionTypeEvaluate :: string where "RuleActionTypeEvaluate = ''evaluate''"
definition RuleActionTypeRespond :: string where "RuleActionTypeRespond = ''respond''"
definition RuleActionTypeDirect :: string where "RuleActionTypeDirect = ''direct''"
definition RuleActionTypeBypass :: string where "RuleActionTypeBypass = ''bypass''"
definition RuleActionTypeReject :: string where "RuleActionTypeReject = ''reject''"
definition RuleActionTypeHijackDNS :: string where "RuleActionTypeHijackDNS = ''hijack-dns''"
definition RuleActionTypeSniff :: string where "RuleActionTypeSniff = ''sniff''"
definition RuleActionTypeResolve :: string where "RuleActionTypeResolve = ''resolve''"
definition RuleActionTypePredefined :: string where "RuleActionTypePredefined = ''predefined''"
definition RuleActionRejectMethodDefault :: string where "RuleActionRejectMethodDefault = ''default''"
definition RuleActionRejectMethodDrop :: string where "RuleActionRejectMethodDrop = ''drop''"
definition RuleActionRejectMethodReply :: string where "RuleActionRejectMethodReply = ''reply''"

lemmas type_consts = RuleTypeDefault_def RuleTypeLogical_def LogicalTypeAnd_def LogicalTypeOr_def

lemmas action_consts = RuleActionTypeRoute_def RuleActionTypeRouteOptions_def RuleActionTypeEvaluate_def
  RuleActionTypeRespond_def RuleActionTypeDirect_def RuleActionTypeBypass_def RuleActionTypeReject_def
  RuleActionTypeHijackDNS_def RuleActionTypeSniff_def RuleActionTypeResolve_def
  RuleActionTypePredefined_def

lemmas reject_consts = RuleActionRejectMethodDefault_def RuleActionRejectMethodDrop_def
  RuleActionRejectMethodReply_def

section \<open>Actions\<close>

record RouteOptions =
  roOverrideAddress :: Socksaddr
  roOverridePort :: uint16
  roNetworkStrategy :: "NetworkStrategy option"
  roNetworkType :: "InterfaceType list"
  roFallbackNetworkType :: "InterfaceType list"
  roFallbackDelay :: int
  roUDPDisableDomainUnmapping :: bool
  roUDPConnect :: bool
  roUDPTimeout :: int
  roTLSFragment :: bool
  roTLSFragmentFallbackDelay :: int
  roTLSRecordFragment :: bool
  roTLSSpoof :: string
  roTLSSpoofMethod :: int

record DNSRouteOptions =
  drStrategy :: uint8
  drTimeout :: int
  drDisableCache :: bool
  drDisableOptimisticCache :: bool
  drRewriteTTL :: "uint32 option"
  drClientSubnet :: netprefix

record ResolveOptions =
  rsServer :: string
  rsTimeout :: int
  rsStrategy :: uint8
  rsDisableCache :: bool
  rsDisableOptimisticCache :: bool
  rsRewriteTTL :: "uint32 option"
  rsClientSubnet :: netprefix

datatype streamSniffer = TLSClientHello | HTTPHost | StreamDomainNameQuery | BitTorrent | SSH | RDP
datatype packetSniffer = QUICClientHello | DomainNameQuery | STUNMessage | UTP | UDPTracker | DTLSRecord | NTP

record SniffOptions =
  snSnifferNames :: "string list"
  snStreamSniffers :: "streamSniffer list"
  snPacketSniffers :: "packetSniffer list"
  snTimeout :: int
  snOverrideDestination :: bool

datatype rule_action =
    RuleActionRoute string RouteOptions
  | RuleActionRouteOptions RouteOptions
  | RuleActionBypass string RouteOptions
  | RuleActionDirect string
  | RuleActionReject string bool
  | RuleActionHijackDNS
  | RuleActionSniff SniffOptions
  | RuleActionResolve ResolveOptions
  | RuleActionDNSRoute string DNSRouteOptions
  | RuleActionEvaluate string DNSRouteOptions
  | RuleActionRespond
  | RuleActionDNSRouteOptions DNSRouteOptions
  | RuleActionPredefined int "RR list" "RR list" "RR list"

fun actionType :: "rule_action \<Rightarrow> string" where
  "actionType (RuleActionRoute _ _) = RuleActionTypeRoute"
| "actionType (RuleActionRouteOptions _) = RuleActionTypeRouteOptions"
| "actionType (RuleActionBypass _ _) = RuleActionTypeBypass"
| "actionType (RuleActionDirect _) = RuleActionTypeDirect"
| "actionType (RuleActionReject _ _) = RuleActionTypeReject"
| "actionType RuleActionHijackDNS = RuleActionTypeHijackDNS"
| "actionType (RuleActionSniff _) = RuleActionTypeSniff"
| "actionType (RuleActionResolve _) = RuleActionTypeResolve"
| "actionType (RuleActionDNSRoute _ _) = RuleActionTypeRoute"
| "actionType (RuleActionEvaluate _ _) = RuleActionTypeEvaluate"
| "actionType RuleActionRespond = RuleActionTypeRespond"
| "actionType (RuleActionDNSRouteOptions _) = RuleActionTypeRouteOptions"
| "actionType (RuleActionPredefined _ _ _ _) = RuleActionTypePredefined"

definition IsFinalAction :: "rule_action \<Rightarrow> bool" where
  "IsFinalAction action \<longleftrightarrow>
     actionType action \<notin> {RuleActionTypeSniff, RuleActionTypeResolve, RuleActionTypeEvaluate}"

section \<open>Construction\<close>

subsection \<open>TLS spoofing\<close>

definition MethodWrongSequence :: int where "MethodWrongSequence = 0"
definition MethodWrongChecksum :: int where "MethodWrongChecksum = 1"
definition MethodWrongAcknowledgment :: int where "MethodWrongAcknowledgment = 2"
definition MethodWrongMD5Sig :: int where "MethodWrongMD5Sig = 3"
definition MethodWrongTimestamp :: int where "MethodWrongTimestamp = 4"

definition ParseMethod :: "string \<Rightarrow> (goerror, int) result" where
  "ParseMethod s =
     (if s = [] \<or> s = ''wrong-sequence'' then Ok MethodWrongSequence
      else if s = ''wrong-checksum'' then Ok MethodWrongChecksum
      else if s = ''wrong-ack'' then Ok MethodWrongAcknowledgment
      else if s = ''wrong-md5'' then Ok MethodWrongMD5Sig
      else if s = ''wrong-timestamp'' then Ok MethodWrongTimestamp
      else Err (ENew (''tls_spoof: unknown method: '' @ s)))"

definition ParseOptions :: "bool \<Rightarrow> string \<Rightarrow> string \<Rightarrow> (goerror, string \<times> int) result" where
  "ParseOptions PlatformSupported spoof method =
     (if spoof = [] then
        (if method \<noteq> [] then Err (ENew ''spoof_method requires spoof'') else Ok ([], 0))
      else if \<not> PlatformSupported then Err (ENew ''tls_spoof is not supported on this platform'')
      else bindR (ParseMethod method) (\<lambda>parsed. Ok (spoof, parsed)))"

subsection \<open>Options\<close>

record RawRouteOptionsActionOptions =
  opOverrideAddress :: string
  opOverridePort :: uint16
  opNetworkStrategy :: "NetworkStrategy option"
  opFallbackDelay :: uint32
  opUDPDisableDomainUnmapping :: bool
  opUDPConnect :: bool
  opUDPTimeout :: int
  opTLSFragment :: bool
  opTLSFragmentFallbackDelay :: int
  opTLSRecordFragment :: bool
  opTLSSpoof :: string
  opTLSSpoofMethod :: string

definition noRawRouteOptions :: RawRouteOptionsActionOptions where
  "noRawRouteOptions = \<lparr>opOverrideAddress = [], opOverridePort = 0, opNetworkStrategy = None,
     opFallbackDelay = 0, opUDPDisableDomainUnmapping = False, opUDPConnect = False, opUDPTimeout = 0,
     opTLSFragment = False, opTLSFragmentFallbackDelay = 0, opTLSRecordFragment = False,
     opTLSSpoof = [], opTLSSpoofMethod = []\<rparr>"

record RouteActionOptions =
  opOutbound :: string
  opRaw :: RawRouteOptionsActionOptions

definition noRouteActionOptions :: RouteActionOptions where
  "noRouteActionOptions = \<lparr>opOutbound = [], opRaw = noRawRouteOptions\<rparr>"

text \<open>\<^verbatim>\<open>DNSRouteActionOptions\<close>; \<^verbatim>\<open>DNSRouteOptionsActionOptions\<close> is the same struct without the server.\<close>

record DNSRouteActionOptions =
  doServer :: string
  doTimeout :: int
  doStrategy :: uint8
  doDisableCache :: bool
  doDisableOptimisticCache :: bool
  doRewriteTTL :: "uint32 option"
  doClientSubnet :: "netprefix option"

definition noDNSRouteActionOptions :: DNSRouteActionOptions where
  "noDNSRouteActionOptions = \<lparr>doServer = [], doTimeout = 0, doStrategy = 0, doDisableCache = False,
     doDisableOptimisticCache = False, doRewriteTTL = None, doClientSubnet = None\<rparr>"

text \<open>
  The options of the \<^verbatim>\<open>direct\<close> action are the dialer options; the model keeps what the action shows of
  them, the list \<^verbatim>\<open>Descriptions()\<close> computes.
\<close>

record RuleActionOpt =
  oaAction :: string
  oaRouteOptions :: RouteActionOptions
  oaRouteOptionsOptions :: RawRouteOptionsActionOptions
  oaDirectOptions :: "string list"
  oaBypassOptions :: RouteActionOptions
  oaRejectMethod :: string
  oaRejectNoDrop :: bool
  oaSniffer :: "string list"
  oaSniffTimeout :: int
  oaResolveOptions :: DNSRouteActionOptions

definition noRuleAction :: RuleActionOpt where
  "noRuleAction = \<lparr>oaAction = [], oaRouteOptions = noRouteActionOptions,
     oaRouteOptionsOptions = noRawRouteOptions, oaDirectOptions = [],
     oaBypassOptions = noRouteActionOptions, oaRejectMethod = [], oaRejectNoDrop = False,
     oaSniffer = [], oaSniffTimeout = 0, oaResolveOptions = noDNSRouteActionOptions\<rparr>"

record DNSRuleActionOpt =
  odAction :: string
  odRouteOptions :: DNSRouteActionOptions
  odRouteOptionsOptions :: DNSRouteActionOptions
  odRejectMethod :: string
  odRejectNoDrop :: bool
  odPredefinedRcode :: "int option"
  odPredefinedAnswer :: "RR list"
  odPredefinedNs :: "RR list"
  odPredefinedExtra :: "RR list"

definition noDNSRuleAction :: DNSRuleActionOpt where
  "noDNSRuleAction = \<lparr>odAction = [], odRouteOptions = noDNSRouteActionOptions,
     odRouteOptionsOptions = noDNSRouteActionOptions, odRejectMethod = [], odRejectNoDrop = False,
     odPredefinedRcode = None, odPredefinedAnswer = [], odPredefinedNs = [], odPredefinedExtra = []\<rparr>"

text \<open>The checks of \<^verbatim>\<open>RejectActionOptions.UnmarshalJSON\<close> after the fields are read.\<close>

definition checkRejectOptions :: "string \<Rightarrow> bool \<Rightarrow> (goerror, string) result" where
  "checkRejectOptions m noDrop =
     bindR (if m = [] \<or> m = RuleActionRejectMethodDefault then Ok RuleActionRejectMethodDefault
            else if m = RuleActionRejectMethodDrop \<or> m = RuleActionRejectMethodReply then Ok m
            else Err (ENew (''unknown reject method: '' @ m)))
       (\<lambda>m'. if m' = RuleActionRejectMethodDrop \<and> noDrop
             then Err (ENew ''no_drop is not available in current context'') else Ok m')"

text \<open>The checks of \<^verbatim>\<open>RouteOptionsActionOptions.UnmarshalJSON\<close> after the fields are read.\<close>

definition checkRouteOptions :: "RawRouteOptionsActionOptions \<Rightarrow> (goerror, unit) result" where
  "checkRouteOptions r =
     (if r = noRawRouteOptions then Err (ENew ''empty route option action'')
      else if opTLSFragment r \<and> opTLSRecordFragment r
      then Err (ENew ''`tls_fragment` and `tls_record_fragment` are mutually exclusive'')
      else Ok ())"

subsection \<open>Building actions\<close>

text \<open>Third-party parts: \<^verbatim>\<open>M.ParseSocksaddrHostPort\<close>, whether raw sockets are supported, and the
  construction of a dialer for the \<^verbatim>\<open>direct\<close> action.\<close>

record actionEnv =
  ParseSocksaddrHostPort :: "string \<Rightarrow> uint16 \<Rightarrow> Socksaddr"
  PlatformSupported :: bool
  dialerNew :: "string list \<Rightarrow> (goerror, unit) result"

definition newRuleActionRouteOptions ::
  "actionEnv \<Rightarrow> RawRouteOptionsActionOptions \<Rightarrow> (goerror, RouteOptions) result" where
  "newRuleActionRouteOptions A options =
     bindR (ParseOptions (PlatformSupported A) (opTLSSpoof options) (opTLSSpoofMethod options))
       (\<lambda>(spoof, spoofMethod). Ok \<lparr>
          roOverrideAddress = ParseSocksaddrHostPort A (opOverrideAddress options) 0,
          roOverridePort = opOverridePort options,
          roNetworkStrategy = opNetworkStrategy options,
          roNetworkType = [],
          roFallbackNetworkType = [],
          roFallbackDelay = uint (opFallbackDelay options),
          roUDPDisableDomainUnmapping = opUDPDisableDomainUnmapping options,
          roUDPConnect = opUDPConnect options,
          roUDPTimeout = opUDPTimeout options,
          roTLSFragment = opTLSFragment options,
          roTLSFragmentFallbackDelay = opTLSFragmentFallbackDelay options,
          roTLSRecordFragment = opTLSRecordFragment options,
          roTLSSpoof = spoof,
          roTLSSpoofMethod = spoofMethod\<rparr>)"

definition sniffersOf :: "string \<Rightarrow> (goerror, streamSniffer list \<times> packetSniffer list) result" where
  "sniffersOf name =
     (if name = ''tls'' then Ok ([TLSClientHello], [])
      else if name = ''http'' then Ok ([HTTPHost], [])
      else if name = ''quic'' then Ok ([], [QUICClientHello])
      else if name = ''dns'' then Ok ([StreamDomainNameQuery], [DomainNameQuery])
      else if name = ''stun'' then Ok ([], [STUNMessage])
      else if name = ''bittorrent'' then Ok ([BitTorrent], [UTP, UDPTracker])
      else if name = ''dtls'' then Ok ([], [DTLSRecord])
      else if name = ''ssh'' then Ok ([SSH], [])
      else if name = ''rdp'' then Ok ([RDP], [])
      else if name = ''ntp'' then Ok ([], [NTP])
      else Err (ENew (''unknown sniffer: '' @ name)))"

definition sniffBuild :: "string list \<Rightarrow> int \<Rightarrow> (goerror, SniffOptions) result" where
  "sniffBuild names timeout =
     bindR (mapR sniffersOf names) (\<lambda>ss. Ok \<lparr>snSnifferNames = names,
       snStreamSniffers = concat (map fst ss), snPacketSniffers = concat (map snd ss),
       snTimeout = timeout, snOverrideDestination = False\<rparr>)"

definition directDescription :: "string list \<Rightarrow> string" where
  "directDescription ds = (case ds of
     [] \<Rightarrow> []
   | [a] \<Rightarrow> ''('' @ a @ '')''
   | [a, b] \<Rightarrow> ''('' @ a @ '','' @ b @ '')''
   | a # b # _ \<Rightarrow> ''('' @ a @ '','' @ b @ '',...)'')"

definition NewRuleAction :: "actionEnv \<Rightarrow> RuleActionOpt \<Rightarrow> (goerror, rule_action option) result" where
  "NewRuleAction A action =
     (if oaAction action = [] then Ok None
      else if oaAction action = RuleActionTypeRoute then
        bindR (newRuleActionRouteOptions A (opRaw (oaRouteOptions action)))
          (\<lambda>ro. Ok (Some (RuleActionRoute (opOutbound (oaRouteOptions action)) ro)))
      else if oaAction action = RuleActionTypeRouteOptions then
        bindR (newRuleActionRouteOptions A (oaRouteOptionsOptions action))
          (\<lambda>ro. Ok (Some (RuleActionRouteOptions ro)))
      else if oaAction action = RuleActionTypeBypass then
        bindR (newRuleActionRouteOptions A (opRaw (oaBypassOptions action)))
          (\<lambda>ro. Ok (Some (RuleActionBypass (opOutbound (oaBypassOptions action)) ro)))
      else if oaAction action = RuleActionTypeDirect then
        bindR (dialerNew A (oaDirectOptions action))
          (\<lambda>_. Ok (Some (RuleActionDirect (directDescription (oaDirectOptions action)))))
      else if oaAction action = RuleActionTypeReject then
        Ok (Some (RuleActionReject (oaRejectMethod action) (oaRejectNoDrop action)))
      else if oaAction action = RuleActionTypeHijackDNS then Ok (Some RuleActionHijackDNS)
      else if oaAction action = RuleActionTypeSniff then
        bindR (sniffBuild (oaSniffer action) (oaSniffTimeout action))
          (\<lambda>s. Ok (Some (RuleActionSniff s)))
      else if oaAction action = RuleActionTypeResolve then
        (let r = oaResolveOptions action in Ok (Some (RuleActionResolve \<lparr>
           rsServer = doServer r, rsTimeout = doTimeout r, rsStrategy = doStrategy r,
           rsDisableCache = doDisableCache r, rsDisableOptimisticCache = doDisableOptimisticCache r,
           rsRewriteTTL = doRewriteTTL r,
           rsClientSubnet = (case doClientSubnet r of None \<Rightarrow> noPrefix | Some p \<Rightarrow> p)\<rparr>)))
      else Err (EPanic (''unknown rule action: '' @ oaAction action)))"

definition dnsRouteOptionsOf :: "DNSRouteActionOptions \<Rightarrow> DNSRouteOptions" where
  "dnsRouteOptionsOf r = \<lparr>drStrategy = doStrategy r, drTimeout = doTimeout r,
     drDisableCache = doDisableCache r, drDisableOptimisticCache = doDisableOptimisticCache r,
     drRewriteTTL = doRewriteTTL r,
     drClientSubnet = (case doClientSubnet r of None \<Rightarrow> noPrefix | Some p \<Rightarrow> p)\<rparr>"

definition NewDNSRuleAction :: "DNSRuleActionOpt \<Rightarrow> (goerror, rule_action option) result" where
  "NewDNSRuleAction action =
     (if odAction action = [] then Ok None
      else if odAction action = RuleActionTypeRoute then
        Ok (Some (RuleActionDNSRoute (doServer (odRouteOptions action)) (dnsRouteOptionsOf (odRouteOptions action))))
      else if odAction action = RuleActionTypeEvaluate then
        Ok (Some (RuleActionEvaluate (doServer (odRouteOptions action)) (dnsRouteOptionsOf (odRouteOptions action))))
      else if odAction action = RuleActionTypeRespond then Ok (Some RuleActionRespond)
      else if odAction action = RuleActionTypeRouteOptions then
        Ok (Some (RuleActionDNSRouteOptions (dnsRouteOptionsOf (odRouteOptionsOptions action))))
      else if odAction action = RuleActionTypeReject then
        Ok (Some (RuleActionReject (odRejectMethod action) (odRejectNoDrop action)))
      else if odAction action = RuleActionTypePredefined then
        Ok (Some (RuleActionPredefined
          (case odPredefinedRcode action of None \<Rightarrow> RcodeSuccess | Some c \<Rightarrow> c)
          (odPredefinedAnswer action) (odPredefinedNs action) (odPredefinedExtra action)))
      else Err (EPanic (''unknown rule action: '' @ odAction action)))"

section \<open>The reject action\<close>

datatype rejectError = ErrReset | ErrDrop

text \<open>
  \<^verbatim>\<open>RuleActionReject.Error\<close>: the result (\<open>Ok None\<close> is a nil error) and the new drop counter, the times
  of the recent rejections.  Times and durations are nanoseconds.
\<close>

definition floodWindow :: int where "floodWindow = 30 * 1000000000"

definition RuleActionReject_Error ::
  "string \<Rightarrow> bool \<Rightarrow> int list \<Rightarrow> int \<Rightarrow> (goerror, rejectError option) result \<times> int list" where
  "RuleActionReject_Error method noDrop dropCounter timeNow =
     (if method = RuleActionRejectMethodDefault then
        (if noDrop then (Ok (Some ErrReset), dropCounter)
         else let c = filter (\<lambda>t. timeNow - t \<le> floodWindow) dropCounter @ [timeNow]
              in (if length c > 50 then (Ok (Some ErrDrop), c) else (Ok (Some ErrReset), c)))
      else if method = RuleActionRejectMethodDrop then (Ok (Some ErrDrop), dropCounter)
      else if method = RuleActionRejectMethodReply then (Ok None, dropCounter)
      else (Err (EPanic (''unknown reject method: '' @ method)), dropCounter))"

text \<open>The answers to a sequence of calls at the given times.\<close>

fun rejectRun :: "int list \<Rightarrow> int list \<Rightarrow> (goerror, rejectError option) result list" where
  "rejectRun counter [] = []"
| "rejectRun counter (t # ts) =
     (let (r, counter') = RuleActionReject_Error RuleActionRejectMethodDefault False counter t
      in r # rejectRun counter' ts)"

section \<open>The predefined action\<close>

definition rewriteRecord :: "Question \<Rightarrow> RR \<Rightarrow> RR" where
  "rewriteRecord question it =
     (if HasPrefix (rrName it) ''*'' \<and> HasSuffix (qName question) (drop 1 (rrName it))
      then it\<lparr>rrName := qName question\<rparr> else it)"

definition rewriteRecords :: "RR list \<Rightarrow> Question \<Rightarrow> RR list" where
  "rewriteRecords records question = map (rewriteRecord question) records"

text \<open>Indexing the question of a request that has none panics.\<close>

definition RuleActionPredefined_Response ::
  "int \<Rightarrow> RR list \<Rightarrow> RR list \<Rightarrow> RR list \<Rightarrow> dnsMsg \<Rightarrow> (goerror, dnsMsg) result" where
  "RuleActionPredefined_Response rcode answer ns extra request = (case msgQuestion request of
     [] \<Rightarrow> Err (EPanic ''index out of range'')
   | question # _ \<Rightarrow> Ok \<lparr>
       msgId = msgId request, msgResponse = True, msgAuthoritative = True, msgRecursionDesired = True,
       msgRecursionAvailable = True, msgRcode = rcode, msgQuestion = msgQuestion request,
       msgAnswer = rewriteRecords answer question, msgNs = rewriteRecords ns question,
       msgExtra = rewriteRecords extra question\<rparr>)"

section \<open>Flood detection\<close>

text \<open>The calls among the first ones of \<open>ts\<close> that lie in the window that ends at \<open>now\<close>.\<close>

definition recentCalls :: "int list \<Rightarrow> int \<Rightarrow> nat" where
  "recentCalls ts now = length (filter (\<lambda>t. now - t \<le> floodWindow) ts)"

lemma floodWindow_nonneg: "0 \<le> floodWindow"
  by (simp add: floodWindow_def)

lemma window_filter:
  "l \<le> x \<Longrightarrow> filter (\<lambda>t. x - t \<le> floodWindow) (filter (\<lambda>t. l - t \<le> floodWindow) past)
     = filter (\<lambda>t. x - t \<le> floodWindow) past" for l x :: int
  by (induction past) auto

lemma RuleActionReject_Error_default:
  "RuleActionReject_Error RuleActionRejectMethodDefault False (filter (\<lambda>t. l - t \<le> floodWindow) past) x =
     (let c = filter (\<lambda>t. x - t \<le> floodWindow) (past @ [x])
      in (Ok (Some (if length c > 50 then ErrDrop else ErrReset)), c))" if "l \<le> x"
  using that floodWindow_nonneg
  by (simp add: RuleActionReject_Error_def window_filter Let_def del: filter_filter)

lemma rejectRun_window:
  assumes "sorted (l # ts)" "i < length ts"
  shows "rejectRun (filter (\<lambda>t. l - t \<le> floodWindow) past) ts ! i =
    Ok (Some (if recentCalls (past @ take (Suc i) ts) (ts ! i) > 50 then ErrDrop else ErrReset))"
  using assms
proof (induction ts arbitrary: l past i)
  case Nil
  then show ?case by simp
next
  case (Cons x ts)
  then have le: "l \<le> x" and sorted: "sorted (x # ts)" by simp_all
  note step = RuleActionReject_Error_default[OF le]
  show ?case
  proof (cases i)
    case 0
    then show ?thesis by (simp add: step recentCalls_def Let_def floodWindow_nonneg)
  next
    case (Suc j)
    with Cons.prems have "j < length ts" by simp
    with Cons.IH[OF sorted, of j "past @ [x]"] Suc show ?thesis
      by (simp add: step Let_def)
  qed
qed

text \<open>
  C6: Flood detection of the default \<^verbatim>\<open>reject\<close> method: over any sequence of rejections at non-decreasing
  times the i-th one is answered with a silent drop exactly when more than 50 rejections, itself
  included, fell into the 30 seconds that end with it, and with a reset otherwise.  The pruned counter
  loses nothing the window still needs.
\<close>

theorem reject_flood_window:
  assumes "sorted ts" "i < length ts"
  shows "rejectRun [] ts ! i =
    Ok (Some (if recentCalls (take (Suc i) ts) (ts ! i) > 50 then ErrDrop else ErrReset))"
proof -
  have "sorted (ts ! 0 # ts)"
    using assms by (cases ts) auto
  from rejectRun_window[OF this assms(2), of "[]"] show ?thesis by simp
qed

theorem reject_flood_window_witness:
  "rejectRun [] (replicate 51 0) ! 49 = Ok (Some ErrReset) \<and>
   rejectRun [] (replicate 51 0) ! 50 = Ok (Some ErrDrop)"
  using reject_flood_window[of "replicate 51 0" 49] reject_flood_window[of "replicate 51 0" 50]
  by (simp add: recentCalls_def floodWindow_def sorted_replicate)

section \<open>Reject options\<close>

text \<open>
  C10: A \<^verbatim>\<open>reject\<close> action whose options passed the configuration checks never panics: whatever the state
  of its drop counter and the time, it answers, and with an error unless its method is \<^verbatim>\<open>reply\<close>.
\<close>

theorem reject_checked_total:
  assumes "checkRejectOptions m noDrop = Ok m'"
  shows "\<exists>e c'. RuleActionReject_Error m' noDrop counter now = (Ok e, c') \<and>
    (e = None \<longleftrightarrow> m' = RuleActionRejectMethodReply)"
  using assms
  by (auto simp: checkRejectOptions_def RuleActionReject_Error_def reject_consts Let_def
      split: if_splits)

theorem reject_checked_total_witness:
  "checkRejectOptions [] True = Ok RuleActionRejectMethodDefault \<and>
   (\<exists>e c'. RuleActionReject_Error RuleActionRejectMethodDefault True [] 0 = (Ok e, c') \<and>
     (e = None \<longleftrightarrow> RuleActionRejectMethodDefault = RuleActionRejectMethodReply))"
proof -
  have "checkRejectOptions [] True = Ok RuleActionRejectMethodDefault"
    by (simp add: checkRejectOptions_def reject_consts)
  with reject_checked_total[OF this, of "[]" 0] show ?thesis by blast
qed

end
