(* ===== verification/RuleMatch.thy ===== *)
theory RuleMatch
  imports MatchState RuleAction
begin

text \<open>
  Matching of rules (\<^verbatim>\<open>route/rule/rule_abstract.go\<close>, the matching parts of \<^verbatim>\<open>match_state.go\<close>,
  \<^verbatim>\<open>rule_headless.go\<close>, \<^verbatim>\<open>rule_item_rule_set.go\<close>, \<^verbatim>\<open>rule_set_local.go\<close>, \<^verbatim>\<open>rule_set_remote.go\<close>,
  \<^verbatim>\<open>rule_default.go\<close> and \<^verbatim>\<open>rule_dns.go\<close>).  The Go code reaches items and sub-rules through interfaces; here the
  methods of the interface are arguments of the two abstract rules, which are then used at the item
  and rule types of the program.
\<close>

section \<open>The abstract default rule\<close>

record 'i abstractDefaultRule =
  items :: "'i list"
  sourceAddressItems :: "'i list"
  sourcePortItems :: "'i list"
  destinationAddressItems :: "'i list"
  destinationIPCIDRItems :: "'i list"
  destinationPortItems :: "'i list"
  allItems :: "'i list"
  ruleSetItem :: "'i option"
  invert :: bool
  action :: "rule_action option"

definition noDefaultRule :: "bool \<Rightarrow> rule_action option \<Rightarrow> 'i abstractDefaultRule" where
  "noDefaultRule neg act = \<lparr>items = [], sourceAddressItems = [], sourcePortItems = [],
     destinationAddressItems = [], destinationIPCIDRItems = [], destinationPortItems = [],
     allItems = [], ruleSetItem = None, invert = neg, action = act\<rparr>"

definition destinationIPCIDRMatchesSource :: "'i abstractDefaultRule \<Rightarrow> InboundContext \<Rightarrow> bool" where
  "destinationIPCIDRMatchesSource r m \<longleftrightarrow>
     \<not> IgnoreDestinationIPCIDRMatch m \<and> IPCIDRMatchSource m \<and> destinationIPCIDRItems r \<noteq> []"

definition destinationIPCIDRMatchesDestination :: "'i abstractDefaultRule \<Rightarrow> InboundContext \<Rightarrow> bool" where
  "destinationIPCIDRMatchesDestination r m \<longleftrightarrow>
     \<not> IgnoreDestinationIPCIDRMatch m \<and> \<not> IPCIDRMatchSource m \<and> destinationIPCIDRItems r \<noteq> []"

definition requiresSourceAddressMatch :: "'i abstractDefaultRule \<Rightarrow> InboundContext \<Rightarrow> bool" where
  "requiresSourceAddressMatch r m \<longleftrightarrow> sourceAddressItems r \<noteq> [] \<or> destinationIPCIDRMatchesSource r m"

definition requiresDestinationAddressMatch :: "'i abstractDefaultRule \<Rightarrow> InboundContext \<Rightarrow> bool" where
  "requiresDestinationAddressMatch r m \<longleftrightarrow>
     destinationAddressItems r \<noteq> [] \<or> destinationIPCIDRMatchesDestination r m"

definition matchAnyItem :: "('i \<Rightarrow> InboundContext \<Rightarrow> bool) \<Rightarrow> 'i list \<Rightarrow> InboundContext \<Rightarrow> bool" where
  "matchAnyItem itemM its m = list_ex (\<lambda>it. itemM it m) its"

definition invertedFailure :: "'i abstractDefaultRule \<Rightarrow> ruleMatchState \<Rightarrow> ruleMatchStateSet" where
  "invertedFailure r base = (if invert r then withBase emptyRuleMatchState base else 0)"

text \<open>One group of items: \<^verbatim>\<open>if len(group) > 0 { metadata.DidMatch = true; if matchAnyItem(...) \<dots> }\<close>.\<close>

definition evalGroup ::
  "bool \<Rightarrow> (InboundContext \<Rightarrow> bool) \<Rightarrow> ruleMatchState \<Rightarrow> ruleMatchState \<times> InboundContext \<Rightarrow>
   ruleMatchState \<times> InboundContext" where
  "evalGroup present matched flag s =
     (let (base, m) = s in
      if present then let m' = m\<lparr>DidMatch := True\<rparr> in ((if matched m' then base OR flag else base), m')
      else (base, m))"

text \<open>The destination \<^verbatim>\<open>ip_cidr\<close> items, evaluated only when the flag is not yet set.\<close>

definition evalIPCIDR ::
  "(InboundContext \<Rightarrow> bool) \<Rightarrow> (InboundContext \<Rightarrow> bool) \<Rightarrow> ruleMatchState \<Rightarrow>
   ruleMatchState \<times> InboundContext \<Rightarrow> ruleMatchState \<times> InboundContext" where
  "evalIPCIDR present matched flag s =
     (let (base, m) = s; m' = m\<lparr>DidMatch := True\<rparr> in
      if present m \<and> \<not> has base flag then ((if matched m' then base OR flag else base), m')
      else if present m then (base, m')
      else (base, m))"

definition baseStateOf ::
  "('i \<Rightarrow> InboundContext \<Rightarrow> bool) \<Rightarrow> 'i abstractDefaultRule \<Rightarrow> ruleMatchState \<Rightarrow> InboundContext \<Rightarrow>
   ruleMatchState \<times> InboundContext" where
  "baseStateOf itemM r evaluationBase m =
     (let s = (evaluationBase, m);
          s = evalGroup (sourceAddressItems r \<noteq> []) (matchAnyItem itemM (sourceAddressItems r))
                ruleMatchSourceAddress s;
          s = evalIPCIDR (destinationIPCIDRMatchesSource r)
                (matchAnyItem itemM (destinationIPCIDRItems r)) ruleMatchSourceAddress s;
          s = evalGroup (sourcePortItems r \<noteq> []) (matchAnyItem itemM (sourcePortItems r))
                ruleMatchSourcePort s;
          s = evalGroup (destinationAddressItems r \<noteq> []) (matchAnyItem itemM (destinationAddressItems r))
                ruleMatchDestinationAddress s;
          s = evalIPCIDR (destinationIPCIDRMatchesDestination r)
                (matchAnyItem itemM (destinationIPCIDRItems r)) ruleMatchDestinationAddress s
      in evalGroup (destinationPortItems r \<noteq> []) (matchAnyItem itemM (destinationPortItems r))
           ruleMatchDestinationPort s)"

definition stateAllowed :: "'i abstractDefaultRule \<Rightarrow> InboundContext \<Rightarrow> ruleMatchState \<Rightarrow> bool" where
  "stateAllowed r m state =
     (if requiresSourceAddressMatch r m \<and> \<not> has state ruleMatchSourceAddress then False
      else if sourcePortItems r \<noteq> [] \<and> \<not> has state ruleMatchSourcePort then False
      else if requiresDestinationAddressMatch r m \<and> \<not> has state ruleMatchDestinationAddress then False
      else if destinationPortItems r \<noteq> [] \<and> \<not> has state ruleMatchDestinationPort then False
      else True)"

text \<open>
  \<^verbatim>\<open>abstractDefaultRule.matchStatesWithBase\<close>; the second component is the metadata after the call, of
  which only \<open>DidMatch\<close> changes.  \<open>itemM\<close> and \<open>itemStates\<close> are the methods of the items.
\<close>

definition abstractDefaultRule_matchStatesWithBase ::
  "('i \<Rightarrow> InboundContext \<Rightarrow> bool) \<Rightarrow> ('i \<Rightarrow> InboundContext \<Rightarrow> ruleMatchState \<Rightarrow> ruleMatchStateSet) \<Rightarrow>
   'i abstractDefaultRule \<Rightarrow> InboundContext \<Rightarrow> ruleMatchState \<Rightarrow> ruleMatchStateSet \<times> InboundContext" where
  "abstractDefaultRule_matchStatesWithBase itemM itemStates r metadata inheritedBase =
     (if allItems r = [] then (withBase emptyRuleMatchState inheritedBase, metadata)
      else
        let evaluationBase = (if invert r then 0 else inheritedBase);
            (baseState, m1) = baseStateOf itemM r evaluationBase metadata;
            m2 = (if items r \<noteq> [] then m1\<lparr>DidMatch := True\<rparr> else m1)
        in if \<not> list_all (\<lambda>item. itemM item m2) (items r) then (invertedFailure r inheritedBase, m2)
        else
          let m3 = (if ruleSetItem r \<noteq> None then m2\<lparr>DidMatch := True\<rparr> else m2);
              stateSet0 = (case ruleSetItem r of
                  Some item \<Rightarrow> itemStates item m3 baseState
                | None \<Rightarrow> singleRuleMatchState baseState);
              stateSet = filterStates stateSet0 (stateAllowed r m3)
          in if isEmpty stateSet then (invertedFailure r inheritedBase, m3)
          else if invert r then
            (if IgnoreDestinationIPCIDRMatch m3 \<and> stateSet = emptyRuleMatchState \<and> \<not> DidMatch m3 \<and>
                destinationIPCIDRItems r \<noteq> []
             then (withBase emptyRuleMatchState inheritedBase, m3)
             else (0, m3))
          else (stateSet, m3))"

section \<open>The abstract logical rule\<close>

text \<open>The loop of an \<^verbatim>\<open>and\<close> rule: \<open>None\<close> when a sub-rule has no way to match.\<close>

fun combineAll :: "('r \<Rightarrow> ruleMatchStateSet) \<Rightarrow> 'r list \<Rightarrow> ruleMatchStateSet \<Rightarrow> ruleMatchStateSet option" where
  "combineAll f [] stateSet = Some stateSet"
| "combineAll f (r # rs) stateSet =
     (if isEmpty (f r) then None else combineAll f rs (combineStates stateSet (f r)))"

definition mergeAll :: "('r \<Rightarrow> ruleMatchStateSet) \<Rightarrow> 'r list \<Rightarrow> ruleMatchStateSet" where
  "mergeAll f rs = fold (\<lambda>r stateSet. mergeStates stateSet (f r)) rs 0"

definition abstractLogicalRule_matchStatesWithBase ::
  "('r \<Rightarrow> InboundContext \<Rightarrow> ruleMatchState \<Rightarrow> ruleMatchStateSet) \<Rightarrow> 'r list \<Rightarrow> string \<Rightarrow> bool \<Rightarrow>
   InboundContext \<Rightarrow> ruleMatchState \<Rightarrow> ruleMatchStateSet" where
  "abstractLogicalRule_matchStatesWithBase ruleStates rules mode neg metadata base =
     (let evaluationBase = (if neg then 0 else base);
          nested = (\<lambda>rule. ruleStates rule (ResetRuleCache metadata) evaluationBase);
          failure = (if neg then withBase emptyRuleMatchState base else 0)
      in if mode = LogicalTypeAnd then
           (case combineAll nested rules (withBase emptyRuleMatchState evaluationBase) of
              None \<Rightarrow> failure
            | Some stateSet \<Rightarrow> if neg then 0 else stateSet)
         else
           (let stateSet = mergeAll nested rules
            in if isEmpty stateSet then failure else if neg then 0 else stateSet))"

lemma combineAll_cong [fundef_cong]:
  "rs = rs' \<Longrightarrow> s = s' \<Longrightarrow> (\<And>r. r \<in> set rs' \<Longrightarrow> f r = g r) \<Longrightarrow> combineAll f rs s = combineAll g rs' s'"
  by (induction rs' arbitrary: rs s s') auto

lemma mergeAll_cong [fundef_cong]:
  "rs = rs' \<Longrightarrow> (\<And>r. r \<in> set rs' \<Longrightarrow> f r = g r) \<Longrightarrow> mergeAll f rs = mergeAll g rs'"
  by (auto simp: mergeAll_def intro: fold_cong)

lemma abstractLogicalRule_cong [fundef_cong]:
  assumes "rs = rs'" "md = md'" "neg = neg'" "m = m'" "b = b'"
    "\<And>r m b. r \<in> set rs' \<Longrightarrow> f r m b = g r m b"
  shows "abstractLogicalRule_matchStatesWithBase f rs md neg m b =
    abstractLogicalRule_matchStatesWithBase g rs' md' neg' m' b'"
  using assms
  by (simp add: abstractLogicalRule_matchStatesWithBase_def Let_def
      cong: combineAll_cong mergeAll_cong)

section \<open>Headless rules\<close>

text \<open>\<^verbatim>\<open>matchRuleItemStatesWithBase\<close> at an item that only has \<^verbatim>\<open>Match\<close>.\<close>

definition plainItemStates ::
  "env \<Rightarrow> plain_item \<Rightarrow> InboundContext \<Rightarrow> ruleMatchState \<Rightarrow> ruleMatchStateSet" where
  "plainItemStates E item metadata base =
     (if itemMatch E item metadata then withBase emptyRuleMatchState base else 0)"

datatype headless_rule =
    DefaultHeadlessRule "plain_item abstractDefaultRule"
  | LogicalHeadlessRule "headless_rule list" string bool

text \<open>\<^verbatim>\<open>matchHeadlessRuleStatesWithBase\<close>: both rule types have \<^verbatim>\<open>matchStatesWithBase\<close>.\<close>

fun headlessRule_matchStatesWithBase ::
  "env \<Rightarrow> headless_rule \<Rightarrow> InboundContext \<Rightarrow> ruleMatchState \<Rightarrow> ruleMatchStateSet" where
  "headlessRule_matchStatesWithBase E (DefaultHeadlessRule r) metadata base =
     fst (abstractDefaultRule_matchStatesWithBase (itemMatch E) (plainItemStates E) r metadata base)"
| "headlessRule_matchStatesWithBase E (LogicalHeadlessRule rs md neg) metadata base =
     abstractLogicalRule_matchStatesWithBase (headlessRule_matchStatesWithBase E) rs md neg metadata base"

section \<open>Rule-sets\<close>

record RuleSetMetadata =
  ContainsProcessRule :: bool
  ContainsWIFIRule :: bool
  ContainsIPCIDRRule :: bool
  ContainsDNSQueryTypeRule :: bool
  ContainsNonIPCIDRRule :: bool

text \<open>What a matching call sees of a \<^verbatim>\<open>LocalRuleSet\<close> or \<^verbatim>\<open>RemoteRuleSet\<close>: its tag and the rule list and
  metadata it holds at that moment (\<^verbatim>\<open>ruleList\<close> copies the list under the lock).\<close>

record rule_set =
  setName :: string
  setRules :: "headless_rule list"
  setMetadata :: RuleSetMetadata

definition ruleSet_matchStatesWithBase ::
  "env \<Rightarrow> rule_set \<Rightarrow> InboundContext \<Rightarrow> ruleMatchState \<Rightarrow> ruleMatchStateSet" where
  "ruleSet_matchStatesWithBase E s metadata base =
     mergeAll (\<lambda>rule. headlessRule_matchStatesWithBase E rule (ResetRuleMatchCache metadata) base) (setRules s)"

definition ruleSet_Match :: "env \<Rightarrow> rule_set \<Rightarrow> InboundContext \<Rightarrow> bool" where
  "ruleSet_Match E s metadata \<longleftrightarrow> \<not> isEmpty (ruleSet_matchStatesWithBase E s metadata 0)"

record ruleSetItem =
  tagList :: "string list"
  setList :: "rule_set list"
  ipCidrMatchSource :: bool
  ipCidrAcceptEmpty :: bool

definition RuleSetItem_matchStatesWithBase ::
  "env \<Rightarrow> ruleSetItem \<Rightarrow> InboundContext \<Rightarrow> ruleMatchState \<Rightarrow> ruleMatchStateSet" where
  "RuleSetItem_matchStatesWithBase E r metadata base =
     mergeAll (\<lambda>ruleSet. ruleSet_matchStatesWithBase E ruleSet
       ((ResetRuleMatchCache metadata)\<lparr>IPCIDRMatchSource := ipCidrMatchSource r,
          IPCIDRAcceptEmpty := ipCidrAcceptEmpty r\<rparr>) base) (setList r)"

definition RuleSetItem_Match :: "env \<Rightarrow> ruleSetItem \<Rightarrow> InboundContext \<Rightarrow> bool" where
  "RuleSetItem_Match E r metadata \<longleftrightarrow> \<not> isEmpty (RuleSetItem_matchStatesWithBase E r metadata 0)"

definition ContainsDestinationIPCIDRRule :: "ruleSetItem \<Rightarrow> bool" where
  "ContainsDestinationIPCIDRRule r =
     (if ipCidrMatchSource r then False
      else list_ex (\<lambda>s. ContainsIPCIDRRule (setMetadata s)) (setList r))"

section \<open>Items and rules of the router\<close>

datatype rule_item = PlainItem plain_item | RuleSetItem ruleSetItem

fun ruleItem_Match :: "env \<Rightarrow> rule_item \<Rightarrow> InboundContext \<Rightarrow> bool" where
  "ruleItem_Match E (PlainItem i) m = itemMatch E i m"
| "ruleItem_Match E (RuleSetItem s) m = RuleSetItem_Match E s m"

fun matchRuleItemStatesWithBase ::
  "env \<Rightarrow> rule_item \<Rightarrow> InboundContext \<Rightarrow> ruleMatchState \<Rightarrow> ruleMatchStateSet" where
  "matchRuleItemStatesWithBase E (PlainItem i) m base = plainItemStates E i m base"
| "matchRuleItemStatesWithBase E (RuleSetItem s) m base = RuleSetItem_matchStatesWithBase E s m base"

definition defaultRule_matchStatesWithBase ::
  "env \<Rightarrow> rule_item abstractDefaultRule \<Rightarrow> InboundContext \<Rightarrow> ruleMatchState \<Rightarrow>
   ruleMatchStateSet \<times> InboundContext" where
  "defaultRule_matchStatesWithBase E =
     abstractDefaultRule_matchStatesWithBase (ruleItem_Match E) (matchRuleItemStatesWithBase E)"

datatype rule =
    DefaultRule "rule_item abstractDefaultRule"
  | LogicalRule "rule list" string bool "rule_action option"

fun rule_matchStatesWithBase ::
  "env \<Rightarrow> rule \<Rightarrow> InboundContext \<Rightarrow> ruleMatchState \<Rightarrow> ruleMatchStateSet" where
  "rule_matchStatesWithBase E (DefaultRule r) m base = fst (defaultRule_matchStatesWithBase E r m base)"
| "rule_matchStatesWithBase E (LogicalRule rs md neg act) m base =
     abstractLogicalRule_matchStatesWithBase (rule_matchStatesWithBase E) rs md neg m base"

text \<open>\<^verbatim>\<open>Rule.Match\<close>; the metadata after the call is the second component.\<close>

fun rule_Match :: "env \<Rightarrow> rule \<Rightarrow> InboundContext \<Rightarrow> bool \<times> InboundContext" where
  "rule_Match E (DefaultRule r) m =
     (let (s, m') = defaultRule_matchStatesWithBase E r m 0 in (\<not> isEmpty s, m'))"
| "rule_Match E (LogicalRule rs md neg act) m =
     (\<not> isEmpty (rule_matchStatesWithBase E (LogicalRule rs md neg act) m 0), m)"

fun rule_Action :: "rule \<Rightarrow> rule_action option" where
  "rule_Action (DefaultRule r) = action r"
| "rule_Action (LogicalRule rs md neg act) = act"

section \<open>DNS rules\<close>

datatype dns_rule =
    DefaultDNSRule "rule_item abstractDefaultRule" bool
  | LogicalDNSRule "dns_rule list" string bool "rule_action option"

fun dnsRule_matchStatesWithBase ::
  "env \<Rightarrow> dns_rule \<Rightarrow> InboundContext \<Rightarrow> ruleMatchState \<Rightarrow> ruleMatchStateSet" where
  "dnsRule_matchStatesWithBase E (DefaultDNSRule r mr) m base = fst (defaultRule_matchStatesWithBase E r m base)"
| "dnsRule_matchStatesWithBase E (LogicalDNSRule rs md neg act) m base =
     abstractLogicalRule_matchStatesWithBase (dnsRule_matchStatesWithBase E) rs md neg m base"

definition defaultDNSRule_matchStatesForMatch ::
  "env \<Rightarrow> rule_item abstractDefaultRule \<Rightarrow> bool \<Rightarrow> InboundContext \<Rightarrow> ruleMatchStateSet \<times> InboundContext" where
  "defaultDNSRule_matchStatesForMatch E r matchResponse metadata =
     (if matchResponse then
        (if DNSResponse metadata = None then (invertedFailure r 0, metadata)
         else (fst (defaultRule_matchStatesWithBase E r
                 (metadata\<lparr>DestinationAddressMatchFromResponse := True\<rparr>) 0), metadata))
      else defaultRule_matchStatesWithBase E r metadata 0)"

definition logicalDNSRule_matchStatesForMatch ::
  "('r \<Rightarrow> InboundContext \<Rightarrow> ruleMatchStateSet) \<Rightarrow> 'r list \<Rightarrow> string \<Rightarrow> bool \<Rightarrow> InboundContext \<Rightarrow>
   ruleMatchStateSet" where
  "logicalDNSRule_matchStatesForMatch ruleStates rules mode neg metadata =
     (let nested = (\<lambda>rule. ruleStates rule (ResetRuleCache metadata));
          failure = (if neg then emptyRuleMatchState else 0)
      in if mode = LogicalTypeAnd then
           (case combineAll nested rules emptyRuleMatchState of
              None \<Rightarrow> failure
            | Some stateSet \<Rightarrow> if neg then 0 else stateSet)
         else
           (let stateSet = mergeAll nested rules
            in if isEmpty stateSet then failure else if neg then 0 else stateSet))"

lemma logicalDNSRule_cong [fundef_cong]:
  assumes "rs = rs'" "md = md'" "neg = neg'" "m = m'" "\<And>r m. r \<in> set rs' \<Longrightarrow> f r m = g r m"
  shows "logicalDNSRule_matchStatesForMatch f rs md neg m = logicalDNSRule_matchStatesForMatch g rs' md' neg' m'"
  using assms
  by (simp add: logicalDNSRule_matchStatesForMatch_def Let_def cong: combineAll_cong mergeAll_cong)

text \<open>\<^verbatim>\<open>matchDNSHeadlessRuleStatesForMatch\<close>, and the \<^verbatim>\<open>matchStatesForMatch\<close> methods it dispatches to.\<close>

fun dnsRule_matchStatesForMatch :: "env \<Rightarrow> dns_rule \<Rightarrow> InboundContext \<Rightarrow> ruleMatchStateSet" where
  "dnsRule_matchStatesForMatch E (DefaultDNSRule r mr) metadata =
     fst (defaultDNSRule_matchStatesForMatch E r mr metadata)"
| "dnsRule_matchStatesForMatch E (LogicalDNSRule rs md neg act) metadata =
     logicalDNSRule_matchStatesForMatch (dnsRule_matchStatesForMatch E) rs md neg metadata"

fun dnsRule_Match :: "env \<Rightarrow> dns_rule \<Rightarrow> InboundContext \<Rightarrow> bool \<times> InboundContext" where
  "dnsRule_Match E (DefaultDNSRule r mr) m =
     (let (s, m') = defaultDNSRule_matchStatesForMatch E r mr m in (\<not> isEmpty s, m'))"
| "dnsRule_Match E (LogicalDNSRule rs md neg act) m =
     (\<not> isEmpty (dnsRule_matchStatesForMatch E (LogicalDNSRule rs md neg act) m), m)"

fun LegacyPreMatch :: "env \<Rightarrow> dns_rule \<Rightarrow> InboundContext \<Rightarrow> bool \<times> InboundContext" where
  "LegacyPreMatch E (DefaultDNSRule r mr) m =
     (if mr then (False, m)
      else let (s, m') = defaultRule_matchStatesWithBase E r (m\<lparr>IgnoreDestinationIPCIDRMatch := True\<rparr>) 0
           in (\<not> isEmpty s, m'\<lparr>IgnoreDestinationIPCIDRMatch := False\<rparr>))"
| "LegacyPreMatch E (LogicalDNSRule rs md neg act) m =
     (\<not> isEmpty (dnsRule_matchStatesWithBase E (LogicalDNSRule rs md neg act)
          (m\<lparr>IgnoreDestinationIPCIDRMatch := True\<rparr>) 0),
      m\<lparr>IgnoreDestinationIPCIDRMatch := False\<rparr>)"

definition MatchAddressLimit :: "env \<Rightarrow> dns_rule \<Rightarrow> InboundContext \<Rightarrow> dnsMsg option \<Rightarrow> bool" where
  "MatchAddressLimit E rule metadata response \<longleftrightarrow>
     \<not> isEmpty (dnsRule_matchStatesWithBase E rule
       (metadata\<lparr>DNSResponse := response, DestinationAddressMatchFromResponse := True\<rparr>) 0)"

fun WithAddressLimit :: "dns_rule \<Rightarrow> bool" where
  "WithAddressLimit (DefaultDNSRule r mr) =
     (if destinationIPCIDRItems r \<noteq> [] then True
      else case ruleSetItem r of
        Some (RuleSetItem s) \<Rightarrow> ContainsDestinationIPCIDRRule s
      | _ \<Rightarrow> False)"
| "WithAddressLimit (LogicalDNSRule rs md neg act) = list_ex WithAddressLimit rs"

fun dnsRule_Action :: "dns_rule \<Rightarrow> rule_action option" where
  "dnsRule_Action (DefaultDNSRule r mr) = action r"
| "dnsRule_Action (LogicalDNSRule rs md neg act) = act"

end
