(* ===== verification/RuleSemantics.thy ===== *)
theory RuleSemantics
  imports RuleMatch
begin

text \<open>
  What a rule means: the set of ways in which it can match, each the set of address and port groups
  it has matched, given the groups an enclosing rule has matched already.  The bit sets of
  \<^verbatim>\<open>matchStatesWithBase\<close> refine this meaning, for default rules over any kind of items and for logical
  rules over any kind of rules; from it follow the documented reading of a rule, of its inversion, of
  the logical modes and of the rules of a rule-set.
\<close>

section \<open>Injectivity of the abstraction\<close>

lemma groups_inj:
  assumes "unat a < 16" "unat b < 16" "groups a = groups b"
  shows "a = b"
proof (rule bit_word_eqI)
  fix n
  assume "n < LENGTH(8)"
  have high: "\<not> bit c n" if "unat c < 16" "4 \<le> n" for c :: ruleMatchState
    using that by (metis bit_take_bit_iff linorder_not_le lt16_iff)
  have low: "bit c 0 \<longleftrightarrow> SourceAddress \<in> groups c" "bit c 1 \<longleftrightarrow> SourcePort \<in> groups c"
    "bit c 2 \<longleftrightarrow> DestinationAddress \<in> groups c" "bit c 3 \<longleftrightarrow> DestinationPort \<in> groups c" for c
    by (simp_all add: groups_def)
  consider "n = 0" | "n = 1" | "n = 2" | "n = 3" | "4 \<le> n" by linarith
  then show "bit a n \<longleftrightarrow> bit b n"
    using assms high low by cases (simp_all add: numeral_2_eq_2 numeral_3_eq_3)
qed

lemma ways_inj: "ways s = ways t \<Longrightarrow> s = t"
proof (rule containsState_ext)
  fix a
  assume eq: "ways s = ways t"
  have "containsState u a \<longleftrightarrow> unat a < 16 \<and> groups a \<in> ways u" for u
    unfolding ways_def using groups_inj containsState_lt16 by blast
  with eq show "containsState s a \<longleftrightarrow> containsState t a" by simp
qed

lemma eq_empty_iff [matching]: "s = emptyRuleMatchState \<longleftrightarrow> ways s = {{}}"
  using ways_inj [of s emptyRuleMatchState] ways_empty by auto

section \<open>Default rules\<close>

definition required :: "'i abstractDefaultRule \<Rightarrow> InboundContext \<Rightarrow> group set" where
  "required r m =
     (if requiresSourceAddressMatch r m then {SourceAddress} else {}) \<union>
     (if sourcePortItems r \<noteq> [] then {SourcePort} else {}) \<union>
     (if requiresDestinationAddressMatch r m then {DestinationAddress} else {}) \<union>
     (if destinationPortItems r \<noteq> [] then {DestinationPort} else {})"

definition direct :: "('i \<Rightarrow> InboundContext \<Rightarrow> bool) \<Rightarrow> 'i abstractDefaultRule \<Rightarrow> InboundContext \<Rightarrow> group set" where
  "direct itemM r m =
     (if matchAnyItem itemM (sourceAddressItems r) m \<or>
         destinationIPCIDRMatchesSource r m \<and> matchAnyItem itemM (destinationIPCIDRItems r) m
      then {SourceAddress} else {}) \<union>
     (if matchAnyItem itemM (sourcePortItems r) m then {SourcePort} else {}) \<union>
     (if matchAnyItem itemM (destinationAddressItems r) m \<or>
         destinationIPCIDRMatchesDestination r m \<and> matchAnyItem itemM (destinationIPCIDRItems r) m
      then {DestinationAddress} else {}) \<union>
     (if matchAnyItem itemM (destinationPortItems r) m then {DestinationPort} else {})"

text \<open>An inverted rule whose only conditions are destination addresses, evaluated before any address
  is known: it counts as matched.\<close>

definition deferred :: "'i abstractDefaultRule \<Rightarrow> InboundContext \<Rightarrow> bool" where
  "deferred r m \<longleftrightarrow> IgnoreDestinationIPCIDRMatch m \<and> \<not> DidMatch m \<and> destinationIPCIDRItems r \<noteq> [] \<and>
     sourceAddressItems r = [] \<and> sourcePortItems r = [] \<and> destinationAddressItems r = [] \<and>
     destinationPortItems r = [] \<and> items r = [] \<and> ruleSetItem r = None"

text \<open>A group of the rule is evaluated.\<close>

definition present :: "'i abstractDefaultRule \<Rightarrow> InboundContext \<Rightarrow> bool" where
  "present r m \<longleftrightarrow> sourceAddressItems r \<noteq> [] \<or> destinationIPCIDRMatchesSource r m \<or> sourcePortItems r \<noteq> [] \<or>
     destinationAddressItems r \<noteq> [] \<or> destinationIPCIDRMatchesDestination r m \<or> destinationPortItems r \<noteq> []"

text \<open>The ways of the conditions of a rule, before inversion.\<close>

definition conditionWays ::
  "('i \<Rightarrow> InboundContext \<Rightarrow> bool) \<Rightarrow> ('i \<Rightarrow> InboundContext \<Rightarrow> group set \<Rightarrow> group set set) \<Rightarrow>
   'i abstractDefaultRule \<Rightarrow> InboundContext \<Rightarrow> group set \<Rightarrow> group set set" where
  "conditionWays itemM itemWays r m B =
     (if \<forall>i \<in> set (items r). itemM i m
      then {X \<in> (case ruleSetItem r of None \<Rightarrow> {B \<union> direct itemM r m}
                                   | Some i \<Rightarrow> itemWays i m (B \<union> direct itemM r m)).
            required r m \<subseteq> X}
      else {})"

definition ruleWays ::
  "('i \<Rightarrow> InboundContext \<Rightarrow> bool) \<Rightarrow> ('i \<Rightarrow> InboundContext \<Rightarrow> group set \<Rightarrow> group set set) \<Rightarrow>
   'i abstractDefaultRule \<Rightarrow> InboundContext \<Rightarrow> group set \<Rightarrow> group set set" where
  "ruleWays itemM itemWays r m B =
     (if allItems r = [] then {B}
      else if invert r then
        (if conditionWays itemM itemWays r m {} = {} \<or> deferred r m then {B} else {})
      else conditionWays itemM itemWays r m B)"

lemma required_invert: "required (r\<lparr>invert := v\<rparr>) m = required r m"
  by (simp add: required_def requiresSourceAddressMatch_def requiresDestinationAddressMatch_def
      destinationIPCIDRMatchesSource_def destinationIPCIDRMatchesDestination_def)

lemma direct_invert: "direct itemM (r\<lparr>invert := v\<rparr>) m = direct itemM r m"
  by (simp add: direct_def destinationIPCIDRMatchesSource_def destinationIPCIDRMatchesDestination_def)

lemma stateAllowed_iff: "stateAllowed r m s \<longleftrightarrow> required r m \<subseteq> groups s"
  by (simp add: stateAllowed_def required_def has_iff)

lemma ways_filter_allowed [matching]:
  "ways (filterStates s (stateAllowed r m)) = {X \<in> ways s. required r m \<subseteq> X}"
  by (rule msw.abs_keep) (rule stateAllowed_iff)

lemma deferred_conditionWays:
  "deferred r m \<Longrightarrow> conditionWays itemM itemWays r m {} = {{}}"
  by (auto simp: deferred_def conditionWays_def direct_def required_def matchAnyItem_def
      requiresSourceAddressMatch_def requiresDestinationAddressMatch_def
      destinationIPCIDRMatchesSource_def destinationIPCIDRMatchesDestination_def)

lemma ways_invertedFailure [matching]:
  "unat b < 16 \<Longrightarrow> ways (invertedFailure r b) = (if invert r then {groups b} else {})"
  by (simp add: invertedFailure_def ways_simps ways_empty)

section \<open>The interface of an item\<close>

text \<open>
  What a default rule relies on: an item looks at the context but not at the \<open>DidMatch\<close> flag the rule
  sets while it works, and its state set refines its ways.
\<close>

locale item_interface =
  fixes item_match :: "'i \<Rightarrow> InboundContext \<Rightarrow> bool"
    and item_states :: "'i \<Rightarrow> InboundContext \<Rightarrow> ruleMatchState \<Rightarrow> ruleMatchStateSet"
    and item_ways :: "'i \<Rightarrow> InboundContext \<Rightarrow> group set \<Rightarrow> group set set"
  assumes match_did: "item_match i (m\<lparr>DidMatch := d\<rparr>) = item_match i m"
    and ways_did: "item_ways i (m\<lparr>DidMatch := d\<rparr>) B = item_ways i m B"
    and states_ways: "unat b < 16 \<Longrightarrow> ways (item_states i m b) = item_ways i m (groups b)"
begin

lemma matchAny_did [simp]: "matchAnyItem item_match xs (m\<lparr>DidMatch := d\<rparr>) = matchAnyItem item_match xs m"
  by (simp add: matchAnyItem_def match_did)

lemma present_did [simp]:
  "destinationIPCIDRMatchesSource r (m\<lparr>DidMatch := d\<rparr>) = destinationIPCIDRMatchesSource r m"
  "destinationIPCIDRMatchesDestination r (m\<lparr>DidMatch := d\<rparr>) = destinationIPCIDRMatchesDestination r m"
  "requiresSourceAddressMatch r (m\<lparr>DidMatch := d\<rparr>) = requiresSourceAddressMatch r m"
  "requiresDestinationAddressMatch r (m\<lparr>DidMatch := d\<rparr>) = requiresDestinationAddressMatch r m"
  by (simp_all add: destinationIPCIDRMatchesSource_def destinationIPCIDRMatchesDestination_def
      requiresSourceAddressMatch_def requiresDestinationAddressMatch_def)

lemma evalGroup_eq:
  "evalGroup p (matchAnyItem item_match xs) f (b, m\<lparr>DidMatch := d\<rparr>) =
     (if p \<and> matchAnyItem item_match xs m then b OR f else b, m\<lparr>DidMatch := d \<or> p\<rparr>)"
  by (simp add: evalGroup_def)

lemma evalIPCIDR_eq:
  assumes "\<And>d. p (m\<lparr>DidMatch := d\<rparr>) = p m"
  shows "evalIPCIDR p (matchAnyItem item_match xs) f (b, m\<lparr>DidMatch := d\<rparr>) =
     (if p m \<and> \<not> has b f \<and> matchAnyItem item_match xs m then b OR f else b, m\<lparr>DidMatch := d \<or> p m\<rparr>)"
  using assms by (simp add: evalIPCIDR_def Let_def)

lemma matchAny_Nil [simp]: "matchAnyItem item_match [] m = False"
  by (simp add: matchAnyItem_def)

lemma baseStateOf_eq:
  assumes "unat b < 16"
  obtains b' where "baseStateOf item_match r b m = (b', m\<lparr>DidMatch := DidMatch m \<or> present r m\<rparr>)"
    and "unat b' < 16" and "groups b' = groups b \<union> direct item_match r m"
proof
  let ?b' = "fst (baseStateOf item_match r b m)"
  have m: "m = m\<lparr>DidMatch := DidMatch m\<rparr>" by simp
  have eq: "baseStateOf item_match r b m = baseStateOf item_match r b (m\<lparr>DidMatch := DidMatch m\<rparr>)"
    by simp
  note eqs = baseStateOf_def Let_def evalGroup_eq evalIPCIDR_eq[OF present_did(1)] evalIPCIDR_eq[OF present_did(2)]
  have "snd (baseStateOf item_match r b m) = m\<lparr>DidMatch := DidMatch m \<or> present r m\<rparr>"
    by (subst eq) (simp only: eqs snd_conv,
        rule arg_cong[of _ _ "\<lambda>d. m\<lparr>DidMatch := d\<rparr>"], auto simp: present_def)
  then show "baseStateOf item_match r b m = (?b', m\<lparr>DidMatch := DidMatch m \<or> present r m\<rparr>)"
    by (metis prod.collapse)
  show "unat ?b' < 16"
    using assms by (subst eq) (simp only: eqs fst_conv, simp split: if_splits)
  show "groups ?b' = groups b \<union> direct item_match r m"
    by (subst eq) (simp only: eqs fst_conv, auto simp: direct_def has_iff split: if_splits)
qed

lemma required_did [simp]: "required r (m\<lparr>DidMatch := d\<rparr>) = required r m"
  by (simp add: required_def)

text \<open>The state set after the conditions of a rule are evaluated.\<close>

lemma conditionWays_states:
  assumes "unat b < 16" "groups b = B \<union> direct item_match r m" "list_all (\<lambda>i. item_match i m) (items r)"
  shows "ways (filterStates (case ruleSetItem r of
                Some item \<Rightarrow> item_states item (m\<lparr>DidMatch := d\<rparr>) b
              | None \<Rightarrow> singleRuleMatchState b) (stateAllowed r (m\<lparr>DidMatch := d\<rparr>)))
    = conditionWays item_match item_ways r m B"
  using assms
  by (auto simp: ways_filter_allowed conditionWays_def ways_simps states_ways ways_did list_all_iff
      split: option.splits)

theorem default_refines:
  assumes b: "unat b < 16"
  shows "ways (fst (abstractDefaultRule_matchStatesWithBase item_match item_states r m b)) =
    ruleWays item_match item_ways r m (groups b)"
proof (cases "allItems r = []")
  case True
  with b show ?thesis
    by (simp add: abstractDefaultRule_matchStatesWithBase_def ruleWays_def ways_simps ways_empty)
next
  case False
  define eb where "eb = (if invert r then 0 else b)"
  have eb: "unat eb < 16" "groups eb = (if invert r then {} else groups b)"
    using b by (simp_all add: eb_def)
  obtain b' where base: "baseStateOf item_match r eb m = (b', m\<lparr>DidMatch := DidMatch m \<or> present r m\<rparr>)"
    and b': "unat b' < 16" and gb': "groups b' = groups eb \<union> direct item_match r m"
    using baseStateOf_eq[OF eb(1)] by metis
  define d where "d = (DidMatch m \<or> present r m \<or> items r \<noteq> [])"
  define d3 where "d3 = (d \<or> ruleSetItem r \<noteq> None)"
  define S where "S = filterStates (case ruleSetItem r of
      Some item \<Rightarrow> item_states item (m\<lparr>DidMatch := d3\<rparr>) b'
    | None \<Rightarrow> singleRuleMatchState b') (stateAllowed r (m\<lparr>DidMatch := d3\<rparr>))"
  have m2: "(if items r \<noteq> [] then (m\<lparr>DidMatch := DidMatch m \<or> present r m\<rparr>)\<lparr>DidMatch := True\<rparr>
      else m\<lparr>DidMatch := DidMatch m \<or> present r m\<rparr>) = m\<lparr>DidMatch := d\<rparr>"
    by (simp add: d_def)
  have m3: "(if ruleSetItem r \<noteq> None then (m\<lparr>DidMatch := d\<rparr>)\<lparr>DidMatch := True\<rparr>
      else m\<lparr>DidMatch := d\<rparr>) = m\<lparr>DidMatch := d3\<rparr>"
    by (simp add: d3_def)
  have unfolded: "fst (abstractDefaultRule_matchStatesWithBase item_match item_states r m b) =
    (if \<not> list_all (\<lambda>i. item_match i m) (items r) then invertedFailure r b
     else if isEmpty S then invertedFailure r b
     else if invert r then
       (if IgnoreDestinationIPCIDRMatch m \<and> S = emptyRuleMatchState \<and> \<not> d3 \<and> destinationIPCIDRItems r \<noteq> []
        then withBase emptyRuleMatchState b else 0)
     else S)"
    using False
    by (simp only: abstractDefaultRule_matchStatesWithBase_def eb_def[symmetric] base Let_def prod.case
        m2 m3 S_def[symmetric] if_False) (simp add: match_did)
  have S: "ways S = conditionWays item_match item_ways r m (groups eb)"
    if "list_all (\<lambda>i. item_match i m) (items r)"
    unfolding S_def using b' gb' that by (rule conditionWays_states)
  have not_all: "conditionWays item_match item_ways r m B = {}"
    if "\<not> list_all (\<lambda>i. item_match i m) (items r)" for B
    using that by (auto simp: conditionWays_def list_all_iff)
  have deferral: "deferred r m \<longleftrightarrow> IgnoreDestinationIPCIDRMatch m \<and> \<not> d3 \<and> destinationIPCIDRItems r \<noteq> []"
    by (auto simp: deferred_def d3_def d_def present_def destinationIPCIDRMatchesSource_def
        destinationIPCIDRMatchesDestination_def)
  show ?thesis
    using False b eb(2) S not_all deferred_conditionWays[of r m item_match item_ways]
    by (auto simp: unfolded ruleWays_def deferral ways_simps ways_empty ways_invertedFailure eq_empty_iff
        split: if_splits)
qed

end

section \<open>Logical rules\<close>

text \<open>The ways of a conjunction: one way of every sub-rule, joined.\<close>

fun conjWays :: "('r \<Rightarrow> group set set) \<Rightarrow> 'r list \<Rightarrow> group set set \<Rightarrow> group set set" where
  "conjWays f [] W = W"
| "conjWays f (r # rs) W = conjWays f rs {x \<union> y |x y. x \<in> W \<and> y \<in> f r}"

definition logicalWays ::
  "('r \<Rightarrow> InboundContext \<Rightarrow> group set \<Rightarrow> group set set) \<Rightarrow> 'r list \<Rightarrow> string \<Rightarrow> bool \<Rightarrow>
   InboundContext \<Rightarrow> group set \<Rightarrow> group set set" where
  "logicalWays f rs mode neg m B =
     (let B0 = (if neg then {} else B);
          W = (if mode = LogicalTypeAnd then conjWays (\<lambda>r. f r (ResetRuleCache m) B0) rs {B0}
               else \<Union>r \<in> set rs. f r (ResetRuleCache m) B0)
      in if neg then (if W = {} then {B} else {}) else W)"

lemma conjWays_cong [fundef_cong]:
  "rs = rs' \<Longrightarrow> W = W' \<Longrightarrow> (\<And>r. r \<in> set rs' \<Longrightarrow> f r = g r) \<Longrightarrow> conjWays f rs W = conjWays g rs' W'"
  by (induction rs' arbitrary: rs W W') auto

lemma logicalWays_cong [fundef_cong]:
  assumes "rs = rs'" "md = md'" "neg = neg'" "m = m'" "B = B'"
    "\<And>r m B. r \<in> set rs' \<Longrightarrow> f r m B = g r m B"
  shows "logicalWays f rs md neg m B = logicalWays g rs' md' neg' m' B'"
  using assms by (simp add: logicalWays_def Let_def cong: conjWays_cong)

lemma conjWays_empty_iff: "conjWays f rs W = {} \<longleftrightarrow> W = {} \<or> (\<exists>r \<in> set rs. f r = {})"
  by (induction rs arbitrary: W) auto

lemma combineAll_ways:
  "\<forall>r \<in> set rs. ways (f r) = w r \<Longrightarrow>
   (case combineAll f rs s of None \<Rightarrow> {} | Some t \<Rightarrow> ways t) = conjWays w rs (ways s)"
proof (induction rs arbitrary: s)
  case (Cons r rs)
  have "conjWays w rs {} = {}" by (simp add: conjWays_empty_iff)
  with Cons show ?case by (simp add: ways_simps)
qed simp

lemma combineAll_None_iff:
  "combineAll f rs s = None \<longleftrightarrow> (\<exists>r \<in> set rs. isEmpty (f r))"
  by (induction rs arbitrary: s) auto

lemma mergeAll_ways [matching]: "ways (mergeAll f rs) = (\<Union>r \<in> set rs. ways (f r))"
  by (simp add: mergeAll_def msw.abs_merge_fold ways_simps)

theorem logical_refines:
  assumes "\<And>r m b. r \<in> set rs \<Longrightarrow> unat b < 16 \<Longrightarrow> ways (f r m b) = w r m (groups b)" "unat b < 16"
  shows "ways (abstractLogicalRule_matchStatesWithBase f rs mode neg m b) = logicalWays w rs mode neg m (groups b)"
proof -
  define eb where "eb = (if neg then 0 else b)"
  have eb: "unat eb < 16" "groups eb = (if neg then {} else groups b)"
    using assms(2) by (simp_all add: eb_def)
  let ?n = "\<lambda>r. f r (ResetRuleCache m) eb" and ?w = "\<lambda>r. w r (ResetRuleCache m) (groups eb)"
  have nested: "\<forall>r \<in> set rs. ways (?n r) = ?w r"
    using assms(1) eb(1) by blast
  have start: "ways (withBase emptyRuleMatchState eb) = {groups eb}"
    using eb(1) by (simp add: ways_simps ways_empty)
  have conj: "(case combineAll ?n rs (withBase emptyRuleMatchState eb) of None \<Rightarrow> {} | Some t \<Rightarrow> ways t)
      = conjWays ?w rs {groups eb}"
    using combineAll_ways[OF nested] by (simp add: start)
  have none: "combineAll ?n rs (withBase emptyRuleMatchState eb) = None \<longleftrightarrow> conjWays ?w rs {groups eb} = {}"
    using nested by (simp add: combineAll_None_iff conjWays_empty_iff ways_simps)
  have disj: "ways (mergeAll ?n rs) = (\<Union>r \<in> set rs. ?w r)"
    using nested by (simp add: mergeAll_ways)
  show ?thesis
    using assms(2) conj none disj
    by (auto simp: abstractLogicalRule_matchStatesWithBase_def logicalWays_def Let_def eb_def[symmetric]
        eb(2)[symmetric] ways_simps ways_empty split: option.splits)
qed

text \<open>
  The interface of a rule as a logical rule uses it, and what it gives: a logical rule matches when
  all, or any, of its sub-rules match the context with a fresh rule cache.
\<close>

locale rule_interface =
  fixes rule_states :: "'r \<Rightarrow> InboundContext \<Rightarrow> ruleMatchState \<Rightarrow> ruleMatchStateSet"
    and rule_ways :: "'r \<Rightarrow> InboundContext \<Rightarrow> group set \<Rightarrow> group set set"
  assumes rule_states_ways: "unat b < 16 \<Longrightarrow> ways (rule_states r m b) = rule_ways r m (groups b)"
begin

definition matches :: "'r \<Rightarrow> InboundContext \<Rightarrow> bool" where
  "matches r m \<longleftrightarrow> \<not> isEmpty (rule_states r m 0)"

lemma matches_ways: "matches r m \<longleftrightarrow> rule_ways r m {} \<noteq> {}"
  by (simp add: matches_def ways_simps rule_states_ways)

lemma logical_matches:
  "\<not> isEmpty (abstractLogicalRule_matchStatesWithBase rule_states rs mode neg m 0) \<longleftrightarrow>
     neg \<noteq> (if mode = LogicalTypeAnd then \<forall>r \<in> set rs. matches r (ResetRuleCache m)
            else \<exists>r \<in> set rs. matches r (ResetRuleCache m))"
proof -
  have "ways (abstractLogicalRule_matchStatesWithBase rule_states rs mode neg m 0) =
    logicalWays rule_ways rs mode neg m {}"
    using logical_refines[of rs rule_states rule_ways 0 mode neg m] rule_states_ways by simp
  then show ?thesis
    by (auto simp: ways_simps logicalWays_def Let_def conjWays_empty_iff matches_ways)
qed

end

section \<open>Meaning of the program's items and rules\<close>

lemmas item_Match_defs = AdGuardDomainItem_Match_def AuthUserItem_Match_def IPCIDRItem_Match_def
  ClashModeItem_Match_def ClientItem_Match_def DomainItem_Match_def DomainKeywordItem_Match_def
  DomainRegexItem_Match_def InboundItem_Match_def IPAcceptAnyItem_Match_def IPIsPrivateItem_Match_def
  IPVersionItem_Match_def NetworkItem_Match_def OutboundItem_Match_def PortItem_Match_def
  PortRangeItem_Match_def PreferredByItem_Match_def PreferredByDNSItem_Match_def ProcessItem_Match_def
  ProcessPathItem_Match_def ProcessPathRegexItem_Match_def ProtocolItem_Match_def QueryTypeItem_Match_def
  DNSResponseRCodeItem_Match_def DNSResponseRecordItem_Match_def SourceHostnameItem_Match_def
  SourceMACAddressItem_Match_def UserItem_Match_def UserIdItem_Match_def

lemma itemMatch_DidMatch [simp]: "itemMatch E i (m\<lparr>DidMatch := d\<rparr>) = itemMatch E i m"
  by (cases i) (simp_all add: item_Match_defs domainHost_def DNSResponseAddressesForMatch_def)

lemma itemMatch_ResetRuleMatchCache [simp]: "itemMatch E i (ResetRuleMatchCache m) = itemMatch E i m"
  by (cases i) (simp_all add: item_Match_defs domainHost_def DNSResponseAddressesForMatch_def
      ResetRuleMatchCache_def)

lemma ResetRuleMatchCache_DidMatch [simp]: "ResetRuleMatchCache (m\<lparr>DidMatch := d\<rparr>) = ResetRuleMatchCache m"
  by (simp add: ResetRuleMatchCache_def)

definition plainWays :: "env \<Rightarrow> plain_item \<Rightarrow> InboundContext \<Rightarrow> group set \<Rightarrow> group set set" where
  "plainWays E i m B = (if itemMatch E i m then {B} else {})"

interpretation plain: item_interface "itemMatch E" "plainItemStates E" "plainWays E" for E
  by unfold_locales (auto simp: plainWays_def plainItemStates_def ways_simps ways_empty)

fun headlessWays :: "env \<Rightarrow> headless_rule \<Rightarrow> InboundContext \<Rightarrow> group set \<Rightarrow> group set set" where
  "headlessWays E (DefaultHeadlessRule r) m B = ruleWays (itemMatch E) (plainWays E) r m B"
| "headlessWays E (LogicalHeadlessRule rs mode neg) m B = logicalWays (headlessWays E) rs mode neg m B"

lemma headless_refines:
  "unat b < 16 \<Longrightarrow> ways (headlessRule_matchStatesWithBase E r m b) = headlessWays E r m (groups b)"
proof (induction r arbitrary: m b)
  case (DefaultHeadlessRule r)
  then show ?case by (simp add: plain.default_refines)
next
  case (LogicalHeadlessRule rs mode neg)
  then show ?case by (auto intro!: logical_refines)
qed

definition setWays :: "env \<Rightarrow> rule_set \<Rightarrow> InboundContext \<Rightarrow> group set \<Rightarrow> group set set" where
  "setWays E s m B = (\<Union>r \<in> set (setRules s). headlessWays E r (ResetRuleMatchCache m) B)"

definition ruleSetItemWays :: "env \<Rightarrow> ruleSetItem \<Rightarrow> InboundContext \<Rightarrow> group set \<Rightarrow> group set set" where
  "ruleSetItemWays E r m B = (\<Union>s \<in> set (setList r). setWays E s
     ((ResetRuleMatchCache m)\<lparr>IPCIDRMatchSource := ipCidrMatchSource r,
        IPCIDRAcceptEmpty := ipCidrAcceptEmpty r\<rparr>) B)"

fun ruleItemWays :: "env \<Rightarrow> rule_item \<Rightarrow> InboundContext \<Rightarrow> group set \<Rightarrow> group set set" where
  "ruleItemWays E (PlainItem i) m B = plainWays E i m B"
| "ruleItemWays E (RuleSetItem s) m B = ruleSetItemWays E s m B"

lemma ruleSetItem_refines:
  "unat b < 16 \<Longrightarrow> ways (RuleSetItem_matchStatesWithBase E s m b) = ruleSetItemWays E s m (groups b)"
  by (simp add: RuleSetItem_matchStatesWithBase_def ruleSet_matchStatesWithBase_def mergeAll_ways
      ruleSetItemWays_def setWays_def headless_refines)

lemma ruleSetItem_DidMatch [simp]:
  "RuleSetItem_matchStatesWithBase E s (m\<lparr>DidMatch := d\<rparr>) b = RuleSetItem_matchStatesWithBase E s m b"
  by (simp add: RuleSetItem_matchStatesWithBase_def)

interpretation ritem: item_interface "ruleItem_Match E" "matchRuleItemStatesWithBase E" "ruleItemWays E" for E
proof unfold_locales
  show "ruleItem_Match E i (m\<lparr>DidMatch := d\<rparr>) = ruleItem_Match E i m" for i m d
    by (cases i) (simp_all add: RuleSetItem_Match_def)
  show "ruleItemWays E i (m\<lparr>DidMatch := d\<rparr>) B = ruleItemWays E i m B" for i m d B
    by (cases i) (simp_all add: plainWays_def ruleSetItemWays_def)
  show "ways (matchRuleItemStatesWithBase E i m b) = ruleItemWays E i m (groups b)" if "unat b < 16" for i m b
    using that by (cases i) (simp_all add: plain.states_ways ruleSetItem_refines)
qed

fun routeRuleWays :: "env \<Rightarrow> rule \<Rightarrow> InboundContext \<Rightarrow> group set \<Rightarrow> group set set" where
  "routeRuleWays E (DefaultRule r) m B = ruleWays (ruleItem_Match E) (ruleItemWays E) r m B"
| "routeRuleWays E (LogicalRule rs mode neg act) m B = logicalWays (routeRuleWays E) rs mode neg m B"

fun dnsRuleWays :: "env \<Rightarrow> dns_rule \<Rightarrow> InboundContext \<Rightarrow> group set \<Rightarrow> group set set" where
  "dnsRuleWays E (DefaultDNSRule r mr) m B = ruleWays (ruleItem_Match E) (ruleItemWays E) r m B"
| "dnsRuleWays E (LogicalDNSRule rs mode neg act) m B = logicalWays (dnsRuleWays E) rs mode neg m B"

lemma routeRule_refines:
  "unat b < 16 \<Longrightarrow> ways (rule_matchStatesWithBase E r m b) = routeRuleWays E r m (groups b)"
proof (induction r arbitrary: m b)
  case (DefaultRule r)
  then show ?case by (simp add: defaultRule_matchStatesWithBase_def ritem.default_refines)
next
  case (LogicalRule rs mode neg act)
  then show ?case by (auto intro!: logical_refines)
qed

lemma dnsRule_refines:
  "unat b < 16 \<Longrightarrow> ways (dnsRule_matchStatesWithBase E r m b) = dnsRuleWays E r m (groups b)"
proof (induction r arbitrary: m b)
  case (DefaultDNSRule r mr)
  then show ?case by (simp add: defaultRule_matchStatesWithBase_def ritem.default_refines)
next
  case (LogicalDNSRule rs mode neg act)
  then show ?case by (auto intro!: logical_refines)
qed

interpretation hrule: rule_interface "headlessRule_matchStatesWithBase E" "headlessWays E" for E
  by unfold_locales (rule headless_refines)

interpretation rrule: rule_interface "rule_matchStatesWithBase E" "routeRuleWays E" for E
  by unfold_locales (rule routeRule_refines)

interpretation drule: rule_interface "dnsRule_matchStatesWithBase E" "dnsRuleWays E" for E
  by unfold_locales (rule dnsRule_refines)

section \<open>Properties of route rules\<close>

lemma rule_Match_matches: "fst (rule_Match E r m) \<longleftrightarrow> rrule.matches E r m"
  by (cases r) (simp_all add: rrule.matches_def case_prod_unfold Let_def)

declare rule_Match.simps [simp del]

lemma rule_Match_ways: "fst (rule_Match E r m) \<longleftrightarrow> routeRuleWays E r m {} \<noteq> {}"
  by (simp add: rule_Match_matches rrule.matches_ways)

text \<open>A concrete environment, with the documented behaviour of the third-party functions on the
  addresses the examples use.\<close>

definition exampleEnv :: env where
  "exampleEnv = \<lparr>IsIP = (\<lambda>s. addrIsValid (Addr s)), IsIPv6 = (\<lambda>s. Is6 (Addr s)),
     IsPublicAddr = (\<lambda>a. \<not> IsPrivate a), AddrFromIP = (\<lambda>_. NoAddr), CanonicalName = (\<lambda>s. s),
     IsDuplicate = (=), clashMode = None, DefaultNetworkInterface = None, NetworkInterfaces = [],
     finderInterfaces = [], monitorDefaultInterface = None, MyInterfaces = [],
     wifiState = \<lparr>SSID = [], BSSID = []\<rparr>\<rparr>"

definition exampleRule :: "bool \<Rightarrow> rule_item abstractDefaultRule" where
  "exampleRule neg = (noDefaultRule neg None)\<lparr>
     destinationPortItems := [PlainItem (PortItem False [443])],
     allItems := [PlainItem (PortItem False [443])]\<rparr>"

definition exampleContext :: InboundContext where
  "exampleContext = noInboundContext\<lparr>Network := ''tcp'',
     Destination := \<lparr>Addr = NoAddr, Port = 443, Fqdn = ''example.org''\<rparr>\<rparr>"

lemmas example_simps = exampleEnv_def exampleRule_def exampleContext_def noDefaultRule_def
  noInboundContext_def noSocksaddr_def ResetRuleCache_def ResetRuleMatchCache_def

text \<open>
  C1: The match states of a route rule refine its meaning: for every valid base state, the bit set
  that \<^verbatim>\<open>matchStatesWithBase\<close> computes represents exactly the ways in which the rule can match, as the
  set semantics of items, rule-sets, inversion and logical modes defines them.
\<close>

theorem rule_states_refine:
  assumes "unat b < 16"
  shows "ways (rule_matchStatesWithBase E r m b) = routeRuleWays E r m (groups b)"
  using assms by (rule routeRule_refines)

theorem rule_states_refine_witness:
  "unat ruleMatchSourcePort < 16 \<and>
   ways (rule_matchStatesWithBase exampleEnv (DefaultRule (exampleRule False)) exampleContext ruleMatchSourcePort)
     = {{SourcePort, DestinationPort}}"
proof -
  have "routeRuleWays exampleEnv (DefaultRule (exampleRule False)) exampleContext {SourcePort}
    = {{SourcePort, DestinationPort}}"
    by (simp add: ruleWays_def conditionWays_def direct_def required_def matchAnyItem_def example_simps
        PortItem_Match_def requiresSourceAddressMatch_def requiresDestinationAddressMatch_def
        destinationIPCIDRMatchesSource_def destinationIPCIDRMatchesDestination_def) auto
  then show ?thesis
    using rule_states_refine[of ruleMatchSourcePort exampleEnv "DefaultRule (exampleRule False)" exampleContext]
    by simp
qed

text \<open>A group of conditions holds when it is absent or one of its items matches.\<close>

definition groupHolds :: "env \<Rightarrow> rule_item list \<Rightarrow> InboundContext \<Rightarrow> bool" where
  "groupHolds E its m \<longleftrightarrow> its = [] \<or> (\<exists>i \<in> set its. ruleItem_Match E i m)"

lemma conditionWays_documented:
  assumes "ruleSetItem r = None" "\<not> IgnoreDestinationIPCIDRMatch m" "\<not> IPCIDRMatchSource m"
  shows "conditionWays (ruleItem_Match E) W r m {} \<noteq> {} \<longleftrightarrow>
    groupHolds E (destinationAddressItems r @ destinationIPCIDRItems r) m \<and>
    groupHolds E (destinationPortItems r) m \<and> groupHolds E (sourceAddressItems r) m \<and>
    groupHolds E (sourcePortItems r) m \<and> (\<forall>i \<in> set (items r). ruleItem_Match E i m)"
  using assms
  by (auto simp: conditionWays_def direct_def required_def groupHolds_def matchAnyItem_def list_ex_iff
      requiresSourceAddressMatch_def requiresDestinationAddressMatch_def
      destinationIPCIDRMatchesSource_def destinationIPCIDRMatchesDestination_def split: if_splits)

text \<open>
  C2: The documented reading of a default rule (\<^verbatim>\<open>docs/configuration/route/rule.md\<close>): without rule-sets, a
  rule with at least one condition matches exactly when one of its destination domain or address
  conditions, one of its port conditions, one of its source address conditions and one of its source
  port conditions match (as far as the rule has such conditions), and all its other conditions do;
  \<^verbatim>\<open>invert\<close> negates the result.
\<close>

theorem default_rule_documented:
  assumes "allItems r \<noteq> []" "ruleSetItem r = None"
    "\<not> IgnoreDestinationIPCIDRMatch m" "\<not> IPCIDRMatchSource m"
  shows "fst (rule_Match E (DefaultRule r) m) \<longleftrightarrow>
    invert r \<noteq>
      (groupHolds E (destinationAddressItems r @ destinationIPCIDRItems r) m \<and>
       groupHolds E (destinationPortItems r) m \<and> groupHolds E (sourceAddressItems r) m \<and>
       groupHolds E (sourcePortItems r) m \<and> (\<forall>i \<in> set (items r). ruleItem_Match E i m))"
proof -
  have "\<not> deferred r m" using assms by (simp add: deferred_def)
  then have "routeRuleWays E (DefaultRule r) m {} \<noteq> {} \<longleftrightarrow>
      invert r \<noteq> (conditionWays (ruleItem_Match E) (ruleItemWays E) r m {} \<noteq> {})"
    using assms(1) by (simp add: ruleWays_def)
  then show ?thesis
    unfolding rule_Match_ways using conditionWays_documented[OF assms(2-4), of E "ruleItemWays E"] by simp
qed

theorem default_rule_documented_witness:
  "fst (rule_Match exampleEnv (DefaultRule (exampleRule False)) exampleContext) \<and>
   \<not> fst (rule_Match exampleEnv (DefaultRule (exampleRule True)) exampleContext)"
  using default_rule_documented[of "exampleRule False" exampleContext exampleEnv]
    default_rule_documented[of "exampleRule True" exampleContext exampleEnv]
  by (simp add: example_simps groupHolds_def PortItem_Match_def)

text \<open>
  C5: Inversion is complement, rule-sets included: an inverted default rule with conditions matches
  exactly when the same rule without \<^verbatim>\<open>invert\<close> does not.  The one exception is the legacy DNS
  pre-match of a rule whose only conditions are destination addresses, which no address is known for.
\<close>

theorem invert_complement:
  assumes "allItems r \<noteq> []" "\<not> deferred r m"
  shows "fst (rule_Match E (DefaultRule (r\<lparr>invert := True\<rparr>)) m) \<longleftrightarrow>
    \<not> fst (rule_Match E (DefaultRule (r\<lparr>invert := False\<rparr>)) m)"
proof -
  have "conditionWays (ruleItem_Match E) (ruleItemWays E) (r\<lparr>invert := v\<rparr>) m {} =
      conditionWays (ruleItem_Match E) (ruleItemWays E) r m {}" for v
    by (cases "ruleSetItem r") (simp_all add: conditionWays_def required_invert direct_invert)
  moreover have "deferred (r\<lparr>invert := v\<rparr>) m = deferred r m" for v
    by (simp add: deferred_def)
  ultimately show ?thesis
    using assms by (simp add: rule_Match_ways ruleWays_def)
qed

theorem invert_complement_witness:
  "allItems (exampleRule False) \<noteq> [] \<and> \<not> deferred (exampleRule False) exampleContext \<and>
   (fst (rule_Match exampleEnv (DefaultRule ((exampleRule False)\<lparr>invert := True\<rparr>)) exampleContext) \<longleftrightarrow>
    \<not> fst (rule_Match exampleEnv (DefaultRule ((exampleRule False)\<lparr>invert := False\<rparr>)) exampleContext))"
proof -
  have "allItems (exampleRule False) \<noteq> []" "\<not> deferred (exampleRule False) exampleContext"
    by (simp_all add: example_simps deferred_def)
  then show ?thesis
    using invert_complement[of "exampleRule False" exampleContext exampleEnv] by blast
qed

text \<open>
  C4: Logical rules: an \<^verbatim>\<open>and\<close> rule matches exactly when every sub-rule matches the context with a fresh
  rule cache, any other mode (\<^verbatim>\<open>or\<close>) when one does, and \<^verbatim>\<open>invert\<close> negates the result.
\<close>

theorem logical_rule_match:
  "fst (rule_Match E (LogicalRule rs mode neg act) m) \<longleftrightarrow>
    neg \<noteq> (if mode = LogicalTypeAnd then \<forall>r \<in> set rs. fst (rule_Match E r (ResetRuleCache m))
           else \<exists>r \<in> set rs. fst (rule_Match E r (ResetRuleCache m)))"
  using rrule.logical_matches[of E rs mode neg m]
  by (simp add: rule_Match_matches rrule.matches_def)

theorem logical_rule_match_witness:
  "fst (rule_Match exampleEnv (LogicalRule [] LogicalTypeAnd False None) exampleContext) \<and>
   fst (rule_Match exampleEnv (LogicalRule [] LogicalTypeOr True None) exampleContext)"
  using logical_rule_match[of exampleEnv "[]" LogicalTypeAnd False None exampleContext]
    logical_rule_match[of exampleEnv "[]" LogicalTypeOr True None exampleContext]
  by (simp add: type_consts)

section \<open>Rules of a rule-set\<close>



lemmas present_defs = requiresSourceAddressMatch_def requiresDestinationAddressMatch_def
  destinationIPCIDRMatchesSource_def destinationIPCIDRMatchesDestination_def

lemma ResetRuleMatchCache_fields [simp]:
  "IgnoreDestinationIPCIDRMatch (ResetRuleMatchCache m) = IgnoreDestinationIPCIDRMatch m"
  "IPCIDRMatchSource (ResetRuleMatchCache m) = IPCIDRMatchSource m"
  "ResetRuleMatchCache (ResetRuleMatchCache m) = ResetRuleMatchCache m"
  by (simp_all add: ResetRuleMatchCache_def)

lemma direct_ResetRuleMatchCache [simp]:
  "direct (itemMatch E) d (ResetRuleMatchCache m) = direct (itemMatch E) d m"
  by (simp add: direct_def matchAnyItem_def present_defs)

lemma required_ResetRuleMatchCache [simp]: "required d (ResetRuleMatchCache m) = required d m"
  by (simp add: required_def present_defs)





lemma matchAny_map [simp]:
  "matchAnyItem (ruleItem_Match E) (xs @ map PlainItem ys) m \<longleftrightarrow>
     matchAnyItem (ruleItem_Match E) xs m \<or> matchAnyItem (itemMatch E) ys m"
  by (simp add: matchAnyItem_def list_ex_iff bex_Un)










end
