(* ===== verification/RuleOptions.thy ===== *)
theory RuleOptions
  imports RuleMatch
begin

text \<open>
  The configuration of rules (\<^verbatim>\<open>option/rule.go\<close>, \<^verbatim>\<open>option/rule_dns.go\<close>, \<^verbatim>\<open>option/rule_set.go\<close>) and its
  validity checks.  A list option that is absent or empty is the empty list, an absent map the empty
  map; \<^verbatim>\<open>Prefixable\<close> values are the prefixes they build.  The fields that route and DNS rules share are
  declared once and extended.
\<close>

section \<open>Rule options\<close>

record RawRule =
  oInbound :: "string list"
  oIPVersion :: int
  oNetwork :: "string list"
  oAuthUser :: "string list"
  oProtocol :: "string list"
  oDomain :: "string list"
  oDomainSuffix :: "string list"
  oDomainKeyword :: "string list"
  oDomainRegex :: "string list"
  oGeosite :: "string list"
  oSourceGeoIP :: "string list"
  oGeoIP :: "string list"
  oSourceIPCIDR :: "string list"
  oSourceIPIsPrivate :: bool
  oIPCIDR :: "string list"
  oIPIsPrivate :: bool
  oSourcePort :: "uint16 list"
  oSourcePortRange :: "string list"
  oPort :: "uint16 list"
  oPortRange :: "string list"
  oProcessName :: "string list"
  oProcessPath :: "string list"
  oProcessPathRegex :: "string list"
  oUser :: "string list"
  oUserID :: "int list"
  oClashMode :: string
  oNetworkType :: "InterfaceType list"
  oNetworkIsExpensive :: bool
  oNetworkIsConstrained :: bool
  oWIFISSID :: "string list"
  oWIFIBSSID :: "string list"
  oInterfaceAddress :: "(string \<times> netprefix list) list"
  oNetworkInterfaceAddress :: "(InterfaceType \<times> netprefix list) list"
  oDefaultInterfaceAddress :: "netprefix list"
  oSourceMACAddress :: "string list"
  oSourceHostname :: "string list"
  oPreferredBy :: "string list"
  oRuleSet :: "string list"
  oRuleSetIPCIDRMatchSource :: bool
  oInvert :: bool
  oDeprecated_RulesetIPCIDRMatchSource :: bool

record RawDefaultRule = RawRule +
  oClient :: "string list"

record RawDefaultDNSRule = RawRule +
  oQueryType :: "uint16 list"
  oOutbound :: "string list"
  oMatchResponse :: bool
  oIPAcceptAny :: bool
  oResponseRcode :: "int option"
  oResponseAnswer :: "RR option list"
  oResponseNs :: "RR option list"
  oResponseExtra :: "RR option list"
  oRuleSetIPCIDRAcceptEmpty :: bool

definition noRawRule :: RawRule where
  "noRawRule = \<lparr>oInbound = [], oIPVersion = 0, oNetwork = [], oAuthUser = [], oProtocol = [],
     oDomain = [], oDomainSuffix = [], oDomainKeyword = [], oDomainRegex = [], oGeosite = [],
     oSourceGeoIP = [], oGeoIP = [], oSourceIPCIDR = [], oSourceIPIsPrivate = False, oIPCIDR = [],
     oIPIsPrivate = False, oSourcePort = [], oSourcePortRange = [], oPort = [], oPortRange = [],
     oProcessName = [], oProcessPath = [], oProcessPathRegex = [], oUser = [], oUserID = [],
     oClashMode = [], oNetworkType = [], oNetworkIsExpensive = False, oNetworkIsConstrained = False,
     oWIFISSID = [], oWIFIBSSID = [], oInterfaceAddress = [], oNetworkInterfaceAddress = [],
     oDefaultInterfaceAddress = [], oSourceMACAddress = [], oSourceHostname = [], oPreferredBy = [],
     oRuleSet = [], oRuleSetIPCIDRMatchSource = False, oInvert = False,
     oDeprecated_RulesetIPCIDRMatchSource = False\<rparr>"

definition noRawDefaultRule :: RawDefaultRule where
  "noRawDefaultRule = RawRule.extend noRawRule \<lparr>oClient = []\<rparr>"

definition noRawDefaultDNSRule :: RawDefaultDNSRule where
  "noRawDefaultDNSRule = RawRule.extend noRawRule \<lparr>oQueryType = [], oOutbound = [],
     oMatchResponse = False, oIPAcceptAny = False, oResponseRcode = None, oResponseAnswer = [],
     oResponseNs = [], oResponseExtra = [], oRuleSetIPCIDRAcceptEmpty = False\<rparr>"

record DefaultRuleOptions =
  defRaw :: RawDefaultRule
  defAction :: RuleActionOpt

record DefaultDNSRuleOptions =
  ddRaw :: RawDefaultDNSRule
  ddAction :: DNSRuleActionOpt

text \<open>\<^verbatim>\<open>option.Rule\<close>: the type, the options of a default rule, and the options of a logical rule (mode,
  sub-rules, invert and action).\<close>

datatype rule_options = RuleOptions
  (ruleType: string)
  (defaultOptions: DefaultRuleOptions)
  (logicalMode: string)
  (logicalRules: "rule_options list")
  (logicalInvert: bool)
  (logicalAction: RuleActionOpt)

datatype dns_rule_options = DNSRuleOptions
  (dnsRuleType: string)
  (dnsDefaultOptions: DefaultDNSRuleOptions)
  (dnsLogicalMode: string)
  (dnsLogicalRules: "dns_rule_options list")
  (dnsLogicalInvert: bool)
  (dnsLogicalAction: DNSRuleActionOpt)

text \<open>\<^verbatim>\<open>option.DefaultHeadlessRule\<close>; binary matchers of a compiled rule-set are the functions they compute.\<close>

record DefaultHeadlessRuleOptions =
  hQueryType :: "uint16 list"
  hNetwork :: "string list"
  hDomain :: "string list"
  hDomainSuffix :: "string list"
  hDomainKeyword :: "string list"
  hDomainRegex :: "string list"
  hSourceIPCIDR :: "string list"
  hIPCIDR :: "string list"
  hSourcePort :: "uint16 list"
  hSourcePortRange :: "string list"
  hPort :: "uint16 list"
  hPortRange :: "string list"
  hProcessName :: "string list"
  hProcessPath :: "string list"
  hProcessPathRegex :: "string list"
  hNetworkType :: "InterfaceType list"
  hNetworkIsExpensive :: bool
  hNetworkIsConstrained :: bool
  hWIFISSID :: "string list"
  hWIFIBSSID :: "string list"
  hNetworkInterfaceAddress :: "(InterfaceType \<times> netprefix list) list"
  hDefaultInterfaceAddress :: "netprefix list"
  hInvert :: bool
  hDomainMatcher :: "(string \<Rightarrow> bool) option"
  hSourceIPSet :: "(addr \<Rightarrow> bool) option"
  hIPSet :: "(addr \<Rightarrow> bool) option"
  hAdGuardDomain :: "string list"
  hAdGuardDomainMatcher :: "(string \<Rightarrow> bool) option"

definition noHeadlessRule :: DefaultHeadlessRuleOptions where
  "noHeadlessRule = \<lparr>hQueryType = [], hNetwork = [], hDomain = [], hDomainSuffix = [],
     hDomainKeyword = [], hDomainRegex = [], hSourceIPCIDR = [], hIPCIDR = [], hSourcePort = [],
     hSourcePortRange = [], hPort = [], hPortRange = [], hProcessName = [], hProcessPath = [],
     hProcessPathRegex = [], hNetworkType = [], hNetworkIsExpensive = False,
     hNetworkIsConstrained = False, hWIFISSID = [], hWIFIBSSID = [], hNetworkInterfaceAddress = [],
     hDefaultInterfaceAddress = [], hInvert = False, hDomainMatcher = None, hSourceIPSet = None,
     hIPSet = None, hAdGuardDomain = [], hAdGuardDomainMatcher = None\<rparr>"

datatype headless_options = HeadlessOptions
  (headlessType: string)
  (headlessDefault: DefaultHeadlessRuleOptions)
  (headlessMode: string)
  (headlessRules: "headless_options list")
  (headlessInvert: bool)

section \<open>Validity\<close>

text \<open>\<^verbatim>\<open>common.All\<close> over a predicate that may panic: the first false or panicking element decides.\<close>

fun allR :: "('a \<Rightarrow> (goerror, bool) result) \<Rightarrow> 'a list \<Rightarrow> (goerror, bool) result" where
  "allR f [] = Ok True"
| "allR f (x # xs) = bindR (f x) (\<lambda>b. if b then allR f xs else Ok False)"

lemma allR_cong [fundef_cong]:
  "xs = ys \<Longrightarrow> (\<And>x. x \<in> set ys \<Longrightarrow> f x = g x) \<Longrightarrow> allR f xs = allR g ys"
  by (induction ys arbitrary: xs) (auto simp: bindR_def split: sum.splits)

definition DefaultRule_IsValid :: "DefaultRuleOptions \<Rightarrow> bool" where
  "DefaultRule_IsValid r \<longleftrightarrow>
     r \<noteq> \<lparr>defRaw = noRawDefaultRule\<lparr>oInvert := oInvert (defRaw r)\<rparr>, defAction = noRuleAction\<rparr>"

definition DefaultDNSRule_IsValid :: "DefaultDNSRuleOptions \<Rightarrow> bool" where
  "DefaultDNSRule_IsValid r \<longleftrightarrow>
     r \<noteq> \<lparr>ddRaw = noRawDefaultDNSRule\<lparr>oInvert := oInvert (ddRaw r)\<rparr>, ddAction = noDNSRuleAction\<rparr>"

definition DefaultHeadlessRule_IsValid :: "DefaultHeadlessRuleOptions \<Rightarrow> bool" where
  "DefaultHeadlessRule_IsValid r \<longleftrightarrow> r \<noteq> noHeadlessRule\<lparr>hInvert := hInvert r\<rparr>"

fun Rule_IsValid :: "rule_options \<Rightarrow> (goerror, bool) result" where
  "Rule_IsValid (RuleOptions typ d md rs neg act) =
     (if typ = RuleTypeDefault then Ok (DefaultRule_IsValid d)
      else if typ = RuleTypeLogical then (if rs = [] then Ok False else allR Rule_IsValid rs)
      else Err (EPanic (''unknown rule type: '' @ typ)))"

fun DNSRule_IsValid :: "dns_rule_options \<Rightarrow> (goerror, bool) result" where
  "DNSRule_IsValid (DNSRuleOptions typ d md rs neg act) =
     (if typ = RuleTypeDefault then Ok (DefaultDNSRule_IsValid d)
      else if typ = RuleTypeLogical then (if rs = [] then Ok False else allR DNSRule_IsValid rs)
      else Err (EPanic (''unknown DNS rule type: '' @ typ)))"

fun HeadlessRule_IsValid :: "headless_options \<Rightarrow> (goerror, bool) result" where
  "HeadlessRule_IsValid (HeadlessOptions typ d md rs neg) =
     (if typ = RuleTypeDefault \<or> typ = [] then Ok (DefaultHeadlessRule_IsValid d)
      else if typ = RuleTypeLogical then (if rs = [] then Ok False else allR HeadlessRule_IsValid rs)
      else Err (EPanic (''unknown rule type: '' @ typ)))"

definition LogicalRule_IsValid :: "rule_options list \<Rightarrow> (goerror, bool) result" where
  "LogicalRule_IsValid rs = (if rs = [] then Ok False else allR Rule_IsValid rs)"

definition LogicalDNSRule_IsValid :: "dns_rule_options list \<Rightarrow> (goerror, bool) result" where
  "LogicalDNSRule_IsValid rs = (if rs = [] then Ok False else allR DNSRule_IsValid rs)"

definition LogicalHeadlessRule_IsValid :: "headless_options list \<Rightarrow> (goerror, bool) result" where
  "LogicalHeadlessRule_IsValid rs = (if rs = [] then Ok False else allR HeadlessRule_IsValid rs)"

end
