(* ===== verification/RuleBuild.thy ===== *)
theory RuleBuild
  imports RuleOptions
begin

text \<open>
  Construction of rules from their options (\<^verbatim>\<open>route/rule/rule_default.go\<close>, \<^verbatim>\<open>rule_dns.go\<close>,
  \<^verbatim>\<open>rule_headless.go\<close>, \<^verbatim>\<open>rule_nested_action.go\<close>, \<^verbatim>\<open>rule_set.go\<close>).  A constructor is a list of steps, one per
  \<^verbatim>\<open>if\<close> block of the source and in its order; a step appends an item to a group of the rule and to
  \<open>allItems\<close>, or fails.  Items that other services complete (rule-sets, preferred outbounds) are built
  unresolved, as the code does; starting them fills them in.
\<close>

section \<open>Steps\<close>

type_synonym 'i step = "'i abstractDefaultRule \<Rightarrow> (goerror, 'i abstractDefaultRule) result"

definition addItem :: "'i \<Rightarrow> 'i abstractDefaultRule \<Rightarrow> 'i abstractDefaultRule" where
  "addItem i r = r\<lparr>items := items r @ [i], allItems := allItems r @ [i]\<rparr>"

definition addSourceAddress :: "'i \<Rightarrow> 'i abstractDefaultRule \<Rightarrow> 'i abstractDefaultRule" where
  "addSourceAddress i r = r\<lparr>sourceAddressItems := sourceAddressItems r @ [i], allItems := allItems r @ [i]\<rparr>"

definition addSourcePort :: "'i \<Rightarrow> 'i abstractDefaultRule \<Rightarrow> 'i abstractDefaultRule" where
  "addSourcePort i r = r\<lparr>sourcePortItems := sourcePortItems r @ [i], allItems := allItems r @ [i]\<rparr>"

definition addDestinationAddress :: "'i \<Rightarrow> 'i abstractDefaultRule \<Rightarrow> 'i abstractDefaultRule" where
  "addDestinationAddress i r =
     r\<lparr>destinationAddressItems := destinationAddressItems r @ [i], allItems := allItems r @ [i]\<rparr>"

definition addDestinationIPCIDR :: "'i \<Rightarrow> 'i abstractDefaultRule \<Rightarrow> 'i abstractDefaultRule" where
  "addDestinationIPCIDR i r =
     r\<lparr>destinationIPCIDRItems := destinationIPCIDRItems r @ [i], allItems := allItems r @ [i]\<rparr>"

definition addDestinationPort :: "'i \<Rightarrow> 'i abstractDefaultRule \<Rightarrow> 'i abstractDefaultRule" where
  "addDestinationPort i r =
     r\<lparr>destinationPortItems := destinationPortItems r @ [i], allItems := allItems r @ [i]\<rparr>"

definition setRuleSetItem :: "'i \<Rightarrow> 'i abstractDefaultRule \<Rightarrow> 'i abstractDefaultRule" where
  "setRuleSetItem i r = r\<lparr>ruleSetItem := Some i, allItems := allItems r @ [i]\<rparr>"

definition opt :: "bool \<Rightarrow> ('i \<Rightarrow> 'i abstractDefaultRule \<Rightarrow> 'i abstractDefaultRule) \<Rightarrow> 'i \<Rightarrow> 'i step" where
  "opt c add i r = Ok (if c then add i r else r)"

definition optR ::
  "bool \<Rightarrow> ('i \<Rightarrow> 'i abstractDefaultRule \<Rightarrow> 'i abstractDefaultRule) \<Rightarrow> (goerror, 'i) result \<Rightarrow> 'i step" where
  "optR c add mk r = (if c then bindR mk (\<lambda>i. Ok (add i r)) else Ok r)"

definition failIf :: "bool \<Rightarrow> goerror \<Rightarrow> 'i step" where
  "failIf c e r = (if c then Err e else Ok r)"

fun runSteps :: "'i step list \<Rightarrow> 'i step" where
  "runSteps [] r = Ok r"
| "runSteps (s # ss) r = bindR (s r) (runSteps ss)"

lemma runSteps_append: "runSteps (xs @ ys) r = bindR (runSteps xs r) (runSteps ys)"
  by (induction xs arbitrary: r) (auto simp: bindR_def split: sum.splits)

definition plainR :: "(goerror, plain_item) result \<Rightarrow> (goerror, rule_item) result" where
  "plainR r = bindR r (\<lambda>i. Ok (PlainItem i))"

definition newRuleSetItem :: "string list \<Rightarrow> bool \<Rightarrow> bool \<Rightarrow> rule_item" where
  "newRuleSetItem tags matchSource acceptEmpty = RuleSetItem \<lparr>tagList = tags, setList = [],
     ipCidrMatchSource = matchSource, ipCidrAcceptEmpty = acceptEmpty\<rparr>"

definition ipVersionItem :: "int \<Rightarrow> (goerror, rule_item) result" where
  "ipVersionItem v = (if v = 4 \<or> v = 6 then Ok (PlainItem (IPVersionItem (v = 6)))
     else Err (ENew ''invalid ip version''))"

abbreviation errGeosite :: goerror where
  "errGeosite \<equiv> ENew ''geosite database is deprecated in sing-box 1.8.0 and removed in sing-box 1.12.0''"

abbreviation errGeoIP :: goerror where
  "errGeoIP \<equiv> ENew ''geoip database is deprecated in sing-box 1.8.0 and removed in sing-box 1.12.0''"

section \<open>Default route rules\<close>

definition defaultRuleSteps1 :: "builders \<Rightarrow> RawDefaultRule \<Rightarrow> rule_item step list" where
  "defaultRuleSteps1 B o' = [
     opt (oInbound o' \<noteq> []) addItem (PlainItem (InboundItem (oInbound o'))),
     optR (oIPVersion o' > 0) addItem (ipVersionItem (oIPVersion o')),
     opt (oNetwork o' \<noteq> []) addItem (PlainItem (NetworkItem (oNetwork o'))),
     opt (oAuthUser o' \<noteq> []) addItem (PlainItem (AuthUserItem (oAuthUser o'))),
     opt (oProtocol o' \<noteq> []) addItem (PlainItem (ProtocolItem (oProtocol o'))),
     opt (oClient o' \<noteq> []) addItem (PlainItem (ClientItem (oClient o'))),
     optR (oDomain o' \<noteq> [] \<or> oDomainSuffix o' \<noteq> []) addDestinationAddress
       (plainR (NewDomainItem B (oDomain o') (oDomainSuffix o'))),
     opt (oDomainKeyword o' \<noteq> []) addDestinationAddress (PlainItem (DomainKeywordItem (oDomainKeyword o'))),
     optR (oDomainRegex o' \<noteq> []) addDestinationAddress (plainR (NewDomainRegexItem B (oDomainRegex o'))),
     failIf (oGeosite o' \<noteq> []) errGeosite,
     failIf (oSourceGeoIP o' \<noteq> []) errGeoIP,
     failIf (oGeoIP o' \<noteq> []) errGeoIP]"

definition defaultRuleSteps2 :: "builders \<Rightarrow> RawDefaultRule \<Rightarrow> rule_item step list" where
  "defaultRuleSteps2 B o' = [
     optR (oSourceIPCIDR o' \<noteq> []) addSourceAddress
       (withCause ''source_ip_cidr'' (plainR (NewIPCIDRItem B True (oSourceIPCIDR o')))),
     opt (oSourceIPIsPrivate o') addSourceAddress (PlainItem (IPIsPrivateItem True)),
     optR (oIPCIDR o' \<noteq> []) addDestinationIPCIDR
       (withCause ''ipcidr'' (plainR (NewIPCIDRItem B False (oIPCIDR o')))),
     opt (oIPIsPrivate o') addDestinationIPCIDR (PlainItem (IPIsPrivateItem False)),
     opt (oSourcePort o' \<noteq> []) addSourcePort (PlainItem (PortItem True (oSourcePort o'))),
     optR (oSourcePortRange o' \<noteq> []) addSourcePort
       (withCause ''source_port_range'' (plainR (NewPortRangeItem True (oSourcePortRange o')))),
     opt (oPort o' \<noteq> []) addDestinationPort (PlainItem (PortItem False (oPort o'))),
     optR (oPortRange o' \<noteq> []) addDestinationPort
       (withCause ''port_range'' (plainR (NewPortRangeItem False (oPortRange o')))),
     opt (oProcessName o' \<noteq> []) addItem (PlainItem (ProcessItem (oProcessName o'))),
     opt (oProcessPath o' \<noteq> []) addItem (PlainItem (ProcessPathItem (oProcessPath o'))),
     optR (oProcessPathRegex o' \<noteq> []) addItem
       (withCause ''process_path_regex'' (plainR (NewProcessPathRegexItem B (oProcessPathRegex o')))),
     opt (oUser o' \<noteq> []) addItem (PlainItem (UserItem (oUser o'))),
     opt (oUserID o' \<noteq> []) addItem (PlainItem (UserIdItem (oUserID o')))]"

definition defaultRuleSteps3 :: "RawDefaultRule \<Rightarrow> rule_item step list" where
  "defaultRuleSteps3 o' = [
     opt (oClashMode o' \<noteq> []) addItem (PlainItem (ClashModeItem (oClashMode o'))),
     opt (oNetworkType o' \<noteq> []) addItem (PlainItem (NetworkTypeItem (oNetworkType o'))),
     opt (oNetworkIsExpensive o') addItem (PlainItem NetworkIsExpensiveItem),
     opt (oNetworkIsConstrained o') addItem (PlainItem NetworkIsConstrainedItem),
     opt (oWIFISSID o' \<noteq> []) addItem (PlainItem (WIFISSIDItem (oWIFISSID o'))),
     opt (oWIFIBSSID o' \<noteq> []) addItem (PlainItem (NewWIFIBSSIDItem (oWIFIBSSID o'))),
     opt (oInterfaceAddress o' \<noteq> []) addItem (PlainItem (NewInterfaceAddressItem (oInterfaceAddress o'))),
     opt (oNetworkInterfaceAddress o' \<noteq> []) addItem
       (PlainItem (NewNetworkInterfaceAddressItem (oNetworkInterfaceAddress o'))),
     opt (oDefaultInterfaceAddress o' \<noteq> []) addItem
       (PlainItem (DefaultInterfaceAddressItem (oDefaultInterfaceAddress o'))),
     opt (oSourceMACAddress o' \<noteq> []) addItem (PlainItem (NewSourceMACAddressItem (oSourceMACAddress o'))),
     opt (oSourceHostname o' \<noteq> []) addItem (PlainItem (SourceHostnameItem (oSourceHostname o'))),
     opt (oPreferredBy o' \<noteq> []) addItem (PlainItem (PreferredByItem (oPreferredBy o') [])),
     failIf (oRuleSet o' \<noteq> [] \<and> oDeprecated_RulesetIPCIDRMatchSource o')
       (ENew ''rule_set_ipcidr_match_source is deprecated in sing-box 1.10.0 and removed in sing-box 1.11.0''),
     opt (oRuleSet o' \<noteq> []) setRuleSetItem
       (newRuleSetItem (oRuleSet o') (oRuleSetIPCIDRMatchSource o') False)]"

definition NewDefaultRule ::
  "actionEnv \<Rightarrow> builders \<Rightarrow> DefaultRuleOptions \<Rightarrow> (goerror, rule_item abstractDefaultRule) result" where
  "NewDefaultRule A B options =
     bindR (withCause ''action'' (NewRuleAction A (defAction options))) (\<lambda>act.
       runSteps (defaultRuleSteps1 B (defRaw options) @ defaultRuleSteps2 B (defRaw options) @
         defaultRuleSteps3 (defRaw options)) (noDefaultRule (oInvert (defRaw options)) act))"

section \<open>Default DNS rules\<close>

definition dnsRuleSteps1 :: "builders \<Rightarrow> RawDefaultDNSRule \<Rightarrow> rule_item step list" where
  "dnsRuleSteps1 B o' = [
     opt (oInbound o' \<noteq> []) addItem (PlainItem (InboundItem (oInbound o'))),
     optR (oIPVersion o' > 0) addItem (ipVersionItem (oIPVersion o')),
     opt (oQueryType o' \<noteq> []) addItem (PlainItem (QueryTypeItem (oQueryType o'))),
     opt (oNetwork o' \<noteq> []) addItem (PlainItem (NetworkItem (oNetwork o'))),
     opt (oAuthUser o' \<noteq> []) addItem (PlainItem (AuthUserItem (oAuthUser o'))),
     opt (oProtocol o' \<noteq> []) addItem (PlainItem (ProtocolItem (oProtocol o'))),
     optR (oDomain o' \<noteq> [] \<or> oDomainSuffix o' \<noteq> []) addDestinationAddress
       (plainR (NewDomainItem B (oDomain o') (oDomainSuffix o'))),
     opt (oDomainKeyword o' \<noteq> []) addDestinationAddress (PlainItem (DomainKeywordItem (oDomainKeyword o'))),
     optR (oDomainRegex o' \<noteq> []) addDestinationAddress
       (withCause ''domain_regex'' (plainR (NewDomainRegexItem B (oDomainRegex o')))),
     failIf (oGeosite o' \<noteq> []) errGeosite,
     failIf (oSourceGeoIP o' \<noteq> []) errGeoIP,
     failIf (oGeoIP o' \<noteq> []) errGeoIP]"

definition dnsRuleSteps2 :: "builders \<Rightarrow> RawDefaultDNSRule \<Rightarrow> rule_item step list" where
  "dnsRuleSteps2 B o' = [
     optR (oSourceIPCIDR o' \<noteq> []) addSourceAddress
       (withCause ''source_ip_cidr'' (plainR (NewIPCIDRItem B True (oSourceIPCIDR o')))),
     optR (oIPCIDR o' \<noteq> []) addDestinationIPCIDR
       (withCause ''ip_cidr'' (plainR (NewIPCIDRItem B False (oIPCIDR o')))),
     opt (oSourceIPIsPrivate o') addSourceAddress (PlainItem (IPIsPrivateItem True)),
     opt (oIPIsPrivate o') addDestinationIPCIDR (PlainItem (IPIsPrivateItem False)),
     opt (oIPAcceptAny o') addDestinationIPCIDR (PlainItem IPAcceptAnyItem),
     opt (oResponseRcode o' \<noteq> None) addItem
       (PlainItem (DNSResponseRCodeItem (case oResponseRcode o' of Some c \<Rightarrow> c | None \<Rightarrow> 0))),
     opt (oResponseAnswer o' \<noteq> []) addItem
       (PlainItem (DNSResponseRecordItem (oResponseAnswer o') dnsResponseAnswers)),
     opt (oResponseNs o' \<noteq> []) addItem
       (PlainItem (DNSResponseRecordItem (oResponseNs o') dnsResponseNS)),
     opt (oResponseExtra o' \<noteq> []) addItem
       (PlainItem (DNSResponseRecordItem (oResponseExtra o') dnsResponseExtra)),
     opt (oSourcePort o' \<noteq> []) addSourcePort (PlainItem (PortItem True (oSourcePort o'))),
     optR (oSourcePortRange o' \<noteq> []) addSourcePort
       (withCause ''source_port_range'' (plainR (NewPortRangeItem True (oSourcePortRange o')))),
     opt (oPort o' \<noteq> []) addDestinationPort (PlainItem (PortItem False (oPort o'))),
     optR (oPortRange o' \<noteq> []) addDestinationPort
       (withCause ''port_range'' (plainR (NewPortRangeItem False (oPortRange o')))),
     opt (oProcessName o' \<noteq> []) addItem (PlainItem (ProcessItem (oProcessName o'))),
     opt (oProcessPath o' \<noteq> []) addItem (PlainItem (ProcessPathItem (oProcessPath o'))),
     optR (oProcessPathRegex o' \<noteq> []) addItem
       (withCause ''process_path_regex'' (plainR (NewProcessPathRegexItem B (oProcessPathRegex o')))),
     opt (oUser o' \<noteq> []) addItem (PlainItem (UserItem (oUser o'))),
     opt (oUserID o' \<noteq> []) addItem (PlainItem (UserIdItem (oUserID o'))),
     opt (oOutbound o' \<noteq> []) addItem (PlainItem (NewOutboundRule (oOutbound o')))]"

definition dnsRuleSteps3 :: "bool \<Rightarrow> RawDefaultDNSRule \<Rightarrow> rule_item step list" where
  "dnsRuleSteps3 legacyDNSMode o' = [
     opt (oClashMode o' \<noteq> []) addItem (PlainItem (ClashModeItem (oClashMode o'))),
     opt (oNetworkType o' \<noteq> []) addItem (PlainItem (NetworkTypeItem (oNetworkType o'))),
     opt (oNetworkIsExpensive o') addItem (PlainItem NetworkIsExpensiveItem),
     opt (oNetworkIsConstrained o') addItem (PlainItem NetworkIsConstrainedItem),
     opt (oWIFISSID o' \<noteq> []) addItem (PlainItem (WIFISSIDItem (oWIFISSID o'))),
     opt (oWIFIBSSID o' \<noteq> []) addItem (PlainItem (NewWIFIBSSIDItem (oWIFIBSSID o'))),
     opt (oInterfaceAddress o' \<noteq> []) addItem (PlainItem (NewInterfaceAddressItem (oInterfaceAddress o'))),
     opt (oNetworkInterfaceAddress o' \<noteq> []) addItem
       (PlainItem (NewNetworkInterfaceAddressItem (oNetworkInterfaceAddress o'))),
     opt (oDefaultInterfaceAddress o' \<noteq> []) addItem
       (PlainItem (DefaultInterfaceAddressItem (oDefaultInterfaceAddress o'))),
     opt (oSourceMACAddress o' \<noteq> []) addItem (PlainItem (NewSourceMACAddressItem (oSourceMACAddress o'))),
     opt (oSourceHostname o' \<noteq> []) addItem (PlainItem (SourceHostnameItem (oSourceHostname o'))),
     opt (oPreferredBy o' \<noteq> []) addItem (PlainItem (PreferredByDNSItem (oPreferredBy o') [])),
     failIf (oRuleSetIPCIDRAcceptEmpty o' \<and> \<not> legacyDNSMode)
       (ENew ''rule_set_ip_cidr_accept_empty is deprecated''),
     failIf (oRuleSet o' \<noteq> [] \<and> oDeprecated_RulesetIPCIDRMatchSource o')
       (ENew ''rule_set_ipcidr_match_source is deprecated in sing-box 1.10.0 and removed in sing-box 1.11.0''),
     opt (oRuleSet o' \<noteq> []) setRuleSetItem
       (newRuleSetItem (oRuleSet o') (oRuleSetIPCIDRMatchSource o') (oRuleSetIPCIDRAcceptEmpty o'))]"

definition NewDefaultDNSRule ::
  "builders \<Rightarrow> DefaultDNSRuleOptions \<Rightarrow> bool \<Rightarrow> (goerror, dns_rule) result" where
  "NewDefaultDNSRule B options legacyDNSMode =
     bindR (NewDNSRuleAction (ddAction options)) (\<lambda>act.
     bindR (runSteps (dnsRuleSteps1 B (ddRaw options) @ dnsRuleSteps2 B (ddRaw options) @
         dnsRuleSteps3 legacyDNSMode (ddRaw options)) (noDefaultRule (oInvert (ddRaw options)) act))
       (\<lambda>r. Ok (DefaultDNSRule r (oMatchResponse (ddRaw options)))))"

section \<open>Default headless rules\<close>

definition headlessRuleSteps1 :: "builders \<Rightarrow> DefaultHeadlessRuleOptions \<Rightarrow> plain_item step list" where
  "headlessRuleSteps1 B o' = [
     opt (hQueryType o' \<noteq> []) addItem (QueryTypeItem (hQueryType o')),
     opt (hNetwork o' \<noteq> []) addItem (NetworkItem (hNetwork o')),
     optR (hDomain o' \<noteq> [] \<or> hDomainSuffix o' \<noteq> []) addDestinationAddress
       (NewDomainItem B (hDomain o') (hDomainSuffix o')),
     (case hDomainMatcher o' of None \<Rightarrow> Ok | Some matcher \<Rightarrow>
       opt (hDomain o' = [] \<and> hDomainSuffix o' = []) addDestinationAddress (DomainItem matcher)),
     opt (hDomainKeyword o' \<noteq> []) addDestinationAddress (DomainKeywordItem (hDomainKeyword o')),
     optR (hDomainRegex o' \<noteq> []) addDestinationAddress
       (withCause ''domain_regex'' (NewDomainRegexItem B (hDomainRegex o'))),
     optR (hSourceIPCIDR o' \<noteq> []) addSourceAddress
       (withCause ''source_ip_cidr'' (NewIPCIDRItem B True (hSourceIPCIDR o'))),
     (case hSourceIPSet o' of None \<Rightarrow> Ok | Some ipSet \<Rightarrow>
       opt (hSourceIPCIDR o' = []) addSourceAddress (IPCIDRItem True ipSet)),
     optR (hIPCIDR o' \<noteq> []) addDestinationIPCIDR
       (withCause ''ipcidr'' (NewIPCIDRItem B False (hIPCIDR o'))),
     (case hIPSet o' of None \<Rightarrow> Ok | Some ipSet \<Rightarrow>
       opt (hIPCIDR o' = []) addDestinationIPCIDR (IPCIDRItem False ipSet)),
     opt (hSourcePort o' \<noteq> []) addSourcePort (PortItem True (hSourcePort o')),
     optR (hSourcePortRange o' \<noteq> []) addSourcePort
       (withCause ''source_port_range'' (NewPortRangeItem True (hSourcePortRange o'))),
     opt (hPort o' \<noteq> []) addDestinationPort (PortItem False (hPort o')),
     optR (hPortRange o' \<noteq> []) addDestinationPort
       (withCause ''port_range'' (NewPortRangeItem False (hPortRange o')))]"

definition headlessRuleSteps2 :: "builders \<Rightarrow> bool \<Rightarrow> DefaultHeadlessRuleOptions \<Rightarrow> plain_item step list" where
  "headlessRuleSteps2 B networkManager o' = [
     opt (hProcessName o' \<noteq> []) addItem (ProcessItem (hProcessName o')),
     opt (hProcessPath o' \<noteq> []) addItem (ProcessPathItem (hProcessPath o')),
     optR (hProcessPathRegex o' \<noteq> []) addItem
       (withCause ''process_path_regex'' (NewProcessPathRegexItem B (hProcessPathRegex o'))),
     opt (networkManager \<and> hNetworkType o' \<noteq> []) addItem (NetworkTypeItem (hNetworkType o')),
     opt (networkManager \<and> hNetworkIsExpensive o') addItem NetworkIsExpensiveItem,
     opt (networkManager \<and> hNetworkIsConstrained o') addItem NetworkIsConstrainedItem,
     opt (networkManager \<and> hWIFISSID o' \<noteq> []) addItem (WIFISSIDItem (hWIFISSID o')),
     opt (networkManager \<and> hWIFIBSSID o' \<noteq> []) addItem (NewWIFIBSSIDItem (hWIFIBSSID o')),
     opt (networkManager \<and> hNetworkInterfaceAddress o' \<noteq> []) addItem
       (NewNetworkInterfaceAddressItem (hNetworkInterfaceAddress o')),
     opt (networkManager \<and> hDefaultInterfaceAddress o' \<noteq> []) addItem
       (DefaultInterfaceAddressItem (hDefaultInterfaceAddress o')),
     opt (hAdGuardDomain o' \<noteq> []) addDestinationAddress (NewAdGuardDomainItem B (hAdGuardDomain o')),
     (case hAdGuardDomainMatcher o' of None \<Rightarrow> Ok | Some matcher \<Rightarrow>
       opt (hAdGuardDomain o' = []) addDestinationAddress (AdGuardDomainItem matcher))]"

definition NewDefaultHeadlessRule ::
  "builders \<Rightarrow> bool \<Rightarrow> DefaultHeadlessRuleOptions \<Rightarrow> (goerror, plain_item abstractDefaultRule) result" where
  "NewDefaultHeadlessRule B networkManager options =
     runSteps (headlessRuleSteps1 B options @ headlessRuleSteps2 B networkManager options)
       (noDefaultRule (hInvert options) None)"

section \<open>Rules\<close>

definition checkMode :: "string \<Rightarrow> (goerror, unit) result" where
  "checkMode mode = (if mode = LogicalTypeAnd \<or> mode = LogicalTypeOr then Ok ()
     else Err (ENew (''unknown logical mode: '' @ mode)))"

fun NewHeadlessRule :: "builders \<Rightarrow> bool \<Rightarrow> headless_options \<Rightarrow> (goerror, headless_rule) result" where
  "NewHeadlessRule B nm (HeadlessOptions typ d md rs neg) =
     (if typ = [] \<or> typ = RuleTypeDefault then
        (if \<not> DefaultHeadlessRule_IsValid d then Err (ENew ''missing conditions'')
         else bindR (NewDefaultHeadlessRule B nm d) (\<lambda>r. Ok (DefaultHeadlessRule r)))
      else if typ = RuleTypeLogical then
        bindR (LogicalHeadlessRule_IsValid rs) (\<lambda>v.
          if \<not> v then Err (ENew ''missing conditions'')
          else bindR (checkMode md) (\<lambda>_.
            bindR (mapR (\<lambda>sub. withCause ''sub rule'' (NewHeadlessRule B nm sub)) rs)
              (\<lambda>rules. Ok (LogicalHeadlessRule rules md neg))))
      else Err (ENew (''unknown rule type: '' @ typ)))"

fun ruleHasConfiguredAction :: "rule_options \<Rightarrow> bool" where
  "ruleHasConfiguredAction (RuleOptions typ d md rs neg act) =
     (if typ = [] \<or> typ = RuleTypeDefault then defAction d \<noteq> noRuleAction
      else if typ = RuleTypeLogical then act \<noteq> noRuleAction
      else False)"

fun dnsRuleHasConfiguredAction :: "dns_rule_options \<Rightarrow> bool" where
  "dnsRuleHasConfiguredAction (DNSRuleOptions typ d md rs neg act) =
     (if typ = [] \<or> typ = RuleTypeDefault then ddAction d \<noteq> noDNSRuleAction
      else if typ = RuleTypeLogical then act \<noteq> noDNSRuleAction
      else False)"

fun validateNoNestedRuleActions :: "rule_options \<Rightarrow> bool \<Rightarrow> (goerror, unit) result" where
  "validateNoNestedRuleActions (RuleOptions typ d md rs neg act) nested =
     (if nested \<and> ruleHasConfiguredAction (RuleOptions typ d md rs neg act)
      then Err (ENew ''rule action is not supported in nested rules'')
      else if typ \<noteq> RuleTypeLogical then Ok ()
      else bindR (mapR (\<lambda>sub. withCause ''sub rule'' (validateNoNestedRuleActions sub True)) rs) (\<lambda>_. Ok ()))"

fun validateNoNestedDNSRuleActions :: "dns_rule_options \<Rightarrow> bool \<Rightarrow> (goerror, unit) result" where
  "validateNoNestedDNSRuleActions (DNSRuleOptions typ d md rs neg act) nested =
     (if nested \<and> dnsRuleHasConfiguredAction (DNSRuleOptions typ d md rs neg act)
      then Err (ENew ''DNS rule action is not supported in nested rules'')
      else if typ \<noteq> RuleTypeLogical then Ok ()
      else bindR (mapR (\<lambda>sub. withCause ''sub rule'' (validateNoNestedDNSRuleActions sub True)) rs) (\<lambda>_. Ok ()))"

definition missingOutbound :: "RuleActionOpt \<Rightarrow> bool" where
  "missingOutbound act \<longleftrightarrow> (oaAction act = [] \<or> oaAction act = RuleActionTypeRoute) \<and>
     opOutbound (oaRouteOptions act) = []"

fun NewRule :: "actionEnv \<Rightarrow> builders \<Rightarrow> rule_options \<Rightarrow> bool \<Rightarrow> (goerror, rule) result" where
  "NewRule A B (RuleOptions typ d md rs neg act) checkOutbound =
     (if typ = [] \<or> typ = RuleTypeDefault then
        (if \<not> DefaultRule_IsValid d then Err (ENew ''missing conditions'')
         else if missingOutbound (defAction d) \<and> checkOutbound then Err (ENew ''missing outbound field'')
         else bindR (NewDefaultRule A B d) (\<lambda>r. Ok (DefaultRule r)))
      else if typ = RuleTypeLogical then
        bindR (LogicalRule_IsValid rs) (\<lambda>v.
          if \<not> v then Err (ENew ''missing conditions'')
          else if missingOutbound act \<and> checkOutbound then Err (ENew ''missing outbound field'')
          else bindR (withCause ''action'' (NewRuleAction A act)) (\<lambda>a.
            bindR (checkMode md) (\<lambda>_.
            bindR (mapR (\<lambda>sub. withCause ''sub rule''
                    (bindR (validateNoNestedRuleActions sub True) (\<lambda>_. NewRule A B sub False))) rs)
              (\<lambda>rules. Ok (LogicalRule rules md neg a)))))
      else Err (ENew (''unknown rule type: '' @ typ)))"

definition validateDNSRuleAction :: "DNSRuleActionOpt \<Rightarrow> (goerror, unit) result" where
  "validateDNSRuleAction act =
     (if odAction act = RuleActionTypeReject \<and> odRejectMethod act = RuleActionRejectMethodReply
      then Err (ENew ''reject method `reply` is not supported for DNS rules'') else Ok ())"

definition missingServer :: "DNSRuleActionOpt \<Rightarrow> bool" where
  "missingServer act \<longleftrightarrow>
     (odAction act = [] \<or> odAction act = RuleActionTypeRoute \<or> odAction act = RuleActionTypeEvaluate) \<and>
     doServer (odRouteOptions act) = []"

definition checkDNSRule :: "DNSRuleActionOpt \<Rightarrow> bool \<Rightarrow> (goerror, unit) result" where
  "checkDNSRule act checkServer =
     (if \<not> checkServer \<and> odAction act = RuleActionTypeEvaluate
      then Err (ENew (odAction act @ '' is only allowed on top-level DNS rules''))
      else bindR (validateDNSRuleAction act) (\<lambda>_.
        if missingServer act \<and> checkServer then Err (ENew ''missing server field'') else Ok ()))"

fun NewDNSRule :: "builders \<Rightarrow> dns_rule_options \<Rightarrow> bool \<Rightarrow> bool \<Rightarrow> (goerror, dns_rule) result" where
  "NewDNSRule B (DNSRuleOptions typ d md rs neg act) checkServer legacyDNSMode =
     (if typ = [] \<or> typ = RuleTypeDefault then
        (if \<not> DefaultDNSRule_IsValid d then Err (ENew ''missing conditions'')
         else bindR (checkDNSRule (ddAction d) checkServer) (\<lambda>_. NewDefaultDNSRule B d legacyDNSMode))
      else if typ = RuleTypeLogical then
        bindR (LogicalDNSRule_IsValid rs) (\<lambda>v.
          if \<not> v then Err (ENew ''missing conditions'')
          else bindR (checkDNSRule act checkServer) (\<lambda>_.
            bindR (NewDNSRuleAction act) (\<lambda>a.
            bindR (checkMode md) (\<lambda>_.
            bindR (mapR (\<lambda>sub. withCause ''sub rule''
                    (bindR (validateNoNestedDNSRuleActions sub True)
                      (\<lambda>_. NewDNSRule B sub False legacyDNSMode))) rs)
              (\<lambda>rules. Ok (LogicalDNSRule rules md neg a))))))
      else Err (ENew (''unknown rule type: '' @ typ)))"

section \<open>Rule-set metadata\<close>

fun HasHeadlessRule :: "headless_options list \<Rightarrow> (DefaultHeadlessRuleOptions \<Rightarrow> bool) \<Rightarrow> bool" where
  "HasHeadlessRule [] cond = False"
| "HasHeadlessRule (HeadlessOptions typ d md rs neg # rest) cond =
     (if typ = RuleTypeDefault \<and> cond d then True
      else if typ = RuleTypeLogical \<and> HasHeadlessRule rs cond then True
      else HasHeadlessRule rest cond)"

definition isProcessHeadlessRule :: "DefaultHeadlessRuleOptions \<Rightarrow> bool" where
  "isProcessHeadlessRule r \<longleftrightarrow> hProcessName r \<noteq> [] \<or> hProcessPath r \<noteq> [] \<or> hProcessPathRegex r \<noteq> []"

definition isWIFIHeadlessRule :: "DefaultHeadlessRuleOptions \<Rightarrow> bool" where
  "isWIFIHeadlessRule r \<longleftrightarrow> hWIFISSID r \<noteq> [] \<or> hWIFIBSSID r \<noteq> []"

definition isIPCIDRHeadlessRule :: "DefaultHeadlessRuleOptions \<Rightarrow> bool" where
  "isIPCIDRHeadlessRule r \<longleftrightarrow> hIPCIDR r \<noteq> [] \<or> hIPSet r \<noteq> None"

definition isDNSQueryTypeHeadlessRule :: "DefaultHeadlessRuleOptions \<Rightarrow> bool" where
  "isDNSQueryTypeHeadlessRule r \<longleftrightarrow> hQueryType r \<noteq> []"

definition isNonIPCIDRHeadlessRule :: "DefaultHeadlessRuleOptions \<Rightarrow> bool" where
  "isNonIPCIDRHeadlessRule r \<longleftrightarrow>
     r \<noteq> noHeadlessRule\<lparr>hIPCIDR := hIPCIDR r, hIPSet := hIPSet r, hInvert := hInvert r\<rparr>"

definition buildRuleSetMetadata :: "headless_options list \<Rightarrow> RuleSetMetadata" where
  "buildRuleSetMetadata rules = \<lparr>
     ContainsProcessRule = HasHeadlessRule rules isProcessHeadlessRule,
     ContainsWIFIRule = HasHeadlessRule rules isWIFIHeadlessRule,
     ContainsIPCIDRRule = HasHeadlessRule rules isIPCIDRHeadlessRule,
     ContainsDNSQueryTypeRule = HasHeadlessRule rules isDNSQueryTypeHeadlessRule,
     ContainsNonIPCIDRRule = HasHeadlessRule rules isNonIPCIDRHeadlessRule\<rparr>"

fun extractIPSetFromRule :: "headless_rule \<Rightarrow> (addr \<Rightarrow> bool) list" where
  "extractIPSetFromRule (DefaultHeadlessRule r) =
     concat (map (\<lambda>i. case i of IPCIDRItem _ ipSet \<Rightarrow> [ipSet] | _ \<Rightarrow> []) (destinationIPCIDRItems r))"
| "extractIPSetFromRule (LogicalHeadlessRule rs md neg) = concat (map extractIPSetFromRule rs)"

section \<open>Invariants of the constructors\<close>

text \<open>
  Steps only ever use the seven operations that add an item; what those preserve, every constructor
  preserves.
\<close>

definition itemAdders :: "('i \<Rightarrow> 'i abstractDefaultRule \<Rightarrow> 'i abstractDefaultRule) set" where
  "itemAdders = {addItem, addSourceAddress, addSourcePort, addDestinationAddress, addDestinationIPCIDR,
     addDestinationPort}"

definition adders :: "('i \<Rightarrow> 'i abstractDefaultRule \<Rightarrow> 'i abstractDefaultRule) set" where
  "adders = insert setRuleSetItem itemAdders"

lemma itemAdders_members [simp]:
  "addItem \<in> itemAdders" "addSourceAddress \<in> itemAdders" "addSourcePort \<in> itemAdders"
  "addDestinationAddress \<in> itemAdders" "addDestinationIPCIDR \<in> itemAdders" "addDestinationPort \<in> itemAdders"
  unfolding itemAdders_def by blast+

lemma adders_members [simp]: "setRuleSetItem \<in> adders" "add \<in> itemAdders \<Longrightarrow> add \<in> adders"
  unfolding adders_def by blast+

locale rule_builder =
  fixes adds :: "('i \<Rightarrow> 'i abstractDefaultRule \<Rightarrow> 'i abstractDefaultRule) set"
    and keep :: "'i abstractDefaultRule \<Rightarrow> bool"
  assumes keep_add: "add \<in> adds \<Longrightarrow> keep r \<Longrightarrow> keep (add i r)"
begin

definition preserves :: "'i step \<Rightarrow> bool" where
  "preserves s \<longleftrightarrow> (\<forall>r r'. keep r \<longrightarrow> s r = Inr r' \<longrightarrow> keep r')"

lemma preserves_opt [simp]:
  "add \<in> adds \<Longrightarrow> preserves (opt c add i)"
  unfolding preserves_def opt_def by (simp add: keep_add[of add _ i])

lemma preserves_optR [simp]:
  "add \<in> adds \<Longrightarrow> preserves (optR c add mk)"
  unfolding preserves_def optR_def by (auto simp: keep_add[of add] split: if_splits)

lemma preserves_failIf [simp]: "preserves (failIf c e)"
  by (simp add: preserves_def failIf_def)

lemma preserves_Ok [simp]: "preserves Inr"
  by (simp add: preserves_def)

lemma runSteps_keep:
  "\<forall>s \<in> set ss. preserves s \<Longrightarrow> keep r \<Longrightarrow> runSteps ss r = Inr r' \<Longrightarrow> keep r'"
proof (induction ss arbitrary: r)
  case (Cons s ss)
  from Cons.prems(3) obtain r1 where r1: "s r = Inr r1" and rest: "runSteps ss r1 = Inr r'"
    by auto
  from Cons.prems(1,2) r1 have "keep r1" by (simp add: preserves_def)
  with Cons.IH Cons.prems(1) rest show ?case by simp
qed simp

end

lemmas add_defs = addItem_def addSourceAddress_def addSourcePort_def addDestinationAddress_def
  addDestinationIPCIDR_def addDestinationPort_def setRuleSetItem_def

text \<open>Every item of a group, and the rule-set item, is listed in \<open>allItems\<close>.\<close>

definition grown :: "'i abstractDefaultRule \<Rightarrow> bool" where
  "grown r \<longleftrightarrow> set (items r) \<union> set (sourceAddressItems r) \<union> set (sourcePortItems r) \<union>
     set (destinationAddressItems r) \<union> set (destinationIPCIDRItems r) \<union> set (destinationPortItems r) \<union>
     set_option (ruleSetItem r) \<subseteq> set (allItems r)"

text \<open>An empty \<open>allItems\<close> means that no group has an item.\<close>

definition emptyOnlyIfNone :: "'i abstractDefaultRule \<Rightarrow> bool" where
  "emptyOnlyIfNone r \<longleftrightarrow> (allItems r = [] \<longleftrightarrow> items r = [] \<and> sourceAddressItems r = [] \<and>
     sourcePortItems r = [] \<and> destinationAddressItems r = [] \<and> destinationIPCIDRItems r = [] \<and>
     destinationPortItems r = [] \<and> ruleSetItem r = None)"

interpretation grown: rule_builder adders grown
  by unfold_locales (auto simp: adders_def itemAdders_def grown_def add_defs)

interpretation nonempty: rule_builder adders emptyOnlyIfNone
  by unfold_locales (auto simp: adders_def itemAdders_def emptyOnlyIfNone_def add_defs)

interpretation fixed: rule_builder adders "\<lambda>r. invert r = v \<and> action r = a" for v a
  by unfold_locales (auto simp: adders_def itemAdders_def add_defs)

interpretation setfree: rule_builder itemAdders "\<lambda>r. ruleSetItem r = None"
  by unfold_locales (auto simp: itemAdders_def add_defs)

lemmas default_steps = defaultRuleSteps1_def defaultRuleSteps2_def defaultRuleSteps3_def
lemmas dns_steps = dnsRuleSteps1_def dnsRuleSteps2_def dnsRuleSteps3_def
lemmas headless_steps = headlessRuleSteps1_def headlessRuleSteps2_def

lemma noDefaultRule_fields [simp]:
  "grown (noDefaultRule v a)" "emptyOnlyIfNone (noDefaultRule v a)"
  "invert (noDefaultRule v a) = v" "action (noDefaultRule v a) = a" "ruleSetItem (noDefaultRule v a) = None"
  by (simp_all add: noDefaultRule_def grown_def emptyOnlyIfNone_def)

lemma NewDefaultHeadlessRule_wf:
  assumes "NewDefaultHeadlessRule B nm o' = Ok r"
  shows "grown r" "emptyOnlyIfNone r" "invert r = hInvert o'" "ruleSetItem r = None"
proof -
  let ?steps = "headlessRuleSteps1 B o' @ headlessRuleSteps2 B nm o'"
  from assms have run: "runSteps ?steps (noDefaultRule (hInvert o') None) = Ok r"
    by (simp add: NewDefaultHeadlessRule_def)
  have g: "\<forall>s \<in> set ?steps. grown.preserves s" by (simp add: headless_steps split: option.splits)
  have n: "\<forall>s \<in> set ?steps. nonempty.preserves s" by (simp add: headless_steps split: option.splits)
  have f: "\<forall>s \<in> set ?steps. fixed.preserves v a s" for v a by (simp add: headless_steps split: option.splits)
  have t: "\<forall>s \<in> set ?steps. setfree.preserves s" by (simp add: headless_steps split: option.splits)
  show "grown r" using grown.runSteps_keep[OF g _ run] by simp
  show "emptyOnlyIfNone r" using nonempty.runSteps_keep[OF n _ run] by simp
  show "invert r = hInvert o'" using fixed.runSteps_keep[OF f _ run] by simp
  show "ruleSetItem r = None" using setfree.runSteps_keep[OF t _ run] by simp
qed

text \<open>
  C9: A default rule built from its options is well-formed: the matcher's shortcut for a rule without
  items is taken exactly when no group has an item, every item of a group is started and closed with
  \<open>allItems\<close>, and the rule has the configured inversion and action.
\<close>

theorem NewDefaultRule_wf:
  assumes "NewDefaultRule A B o' = Ok r"
  shows "grown r \<and> emptyOnlyIfNone r \<and> invert r = oInvert (defRaw o') \<and>
    NewRuleAction A (defAction o') = Ok (action r)"
proof -
  let ?steps = "defaultRuleSteps1 B (defRaw o') @ defaultRuleSteps2 B (defRaw o') @ defaultRuleSteps3 (defRaw o')"
  from assms obtain act where act: "NewRuleAction A (defAction o') = Ok act"
    and run: "runSteps ?steps (noDefaultRule (oInvert (defRaw o')) act) = Ok r"
    by (auto simp: NewDefaultRule_def)
  have g: "\<forall>s \<in> set ?steps. grown.preserves s" by (simp add: default_steps)
  have n: "\<forall>s \<in> set ?steps. nonempty.preserves s" by (simp add: default_steps)
  have f: "\<forall>s \<in> set ?steps. fixed.preserves v a s" for v a by (simp add: default_steps)
  have "grown r" using grown.runSteps_keep[OF g _ run] by simp
  moreover have "emptyOnlyIfNone r" using nonempty.runSteps_keep[OF n _ run] by simp
  moreover have "invert r = oInvert (defRaw o') \<and> action r = act"
    using fixed.runSteps_keep[OF f _ run] by simp
  ultimately show ?thesis using act by simp
qed


text \<open>Third-party builders of the examples: no domain, address or expression is accepted.\<close>

definition exampleBuilders :: builders where
  "exampleBuilders = \<lparr>regexpCompile = (\<lambda>_. Err (EOther ''regexp'')), NewMatcher = (\<lambda>_ _ _. False),
     NewAdGuardMatcher = (\<lambda>_ _. False), builderIPSet = (\<lambda>_. Ok (\<lambda>_. False)),
     ParsePrefix = (\<lambda>_. Err (EOther ''netip'')), ParseAddr = (\<lambda>_. Err (EOther ''netip''))\<rparr>"

definition exampleActionEnv :: actionEnv where
  "exampleActionEnv = \<lparr>ParseSocksaddrHostPort = (\<lambda>s p. \<lparr>Addr = NoAddr, Port = p, Fqdn = s\<rparr>),
     PlatformSupported = True, dialerNew = (\<lambda>_. Ok ())\<rparr>"

definition exampleOptions :: DefaultRuleOptions where
  "exampleOptions = \<lparr>defRaw = noRawDefaultRule\<lparr>oPort := [443], oRuleSet := [''set'']\<rparr>,
     defAction = noRuleAction\<lparr>oaAction := RuleActionTypeHijackDNS\<rparr>\<rparr>"

lemmas options_simps = exampleOptions_def exampleBuilders_def exampleActionEnv_def noRawDefaultRule_def
  noRawRule_def RawRule.defs noRuleAction_def

theorem NewDefaultRule_wf_witness:
  "\<exists>r. NewDefaultRule exampleActionEnv exampleBuilders exampleOptions = Ok r \<and> length (allItems r) = 2 \<and>
     grown r \<and> emptyOnlyIfNone r \<and> action r = Some RuleActionHijackDNS"
proof -
  obtain r where r: "NewDefaultRule exampleActionEnv exampleBuilders exampleOptions = Ok r"
    and len: "length (allItems r) = 2"
    by (simp add: NewDefaultRule_def options_simps NewRuleAction_def action_consts default_steps opt_def
        optR_def failIf_def noDefaultRule_def add_defs)
  have "NewRuleAction exampleActionEnv (defAction exampleOptions) = Ok (Some RuleActionHijackDNS)"
    by (simp add: NewRuleAction_def options_simps action_consts)
  with NewDefaultRule_wf[OF r] r len show ?thesis by simp
qed

section \<open>Nested rules\<close>

text \<open>No rule below carries an action.\<close>

fun actionFree :: "rule \<Rightarrow> bool" where
  "actionFree (DefaultRule r) \<longleftrightarrow> action r = None"
| "actionFree (LogicalRule rs md neg act) \<longleftrightarrow> act = None \<and> (\<forall>r \<in> set rs. actionFree r)"

lemma NewDefaultRule_action:
  "NewDefaultRule A B opts = Ok r \<Longrightarrow> NewRuleAction A (defAction opts) = Ok (action r)"
proof -
  assume "NewDefaultRule A B opts = Ok r"
  then obtain act where act: "NewRuleAction A (defAction opts) = Ok act"
    and run: "runSteps (defaultRuleSteps1 B (defRaw opts) @ defaultRuleSteps2 B (defRaw opts) @
      defaultRuleSteps3 (defRaw opts)) (noDefaultRule (oInvert (defRaw opts)) act) = Ok r"
    by (auto simp: NewDefaultRule_def)
  have "\<forall>s \<in> set (defaultRuleSteps1 B (defRaw opts) @ defaultRuleSteps2 B (defRaw opts) @
      defaultRuleSteps3 (defRaw opts)). fixed.preserves v a s" for v a
    by (simp add: default_steps)
  from fixed.runSteps_keep[OF this _ run] act show ?thesis by simp
qed

lemma NewRuleAction_none [simp]: "NewRuleAction A noRuleAction = Ok None"
  by (simp add: NewRuleAction_def noRuleAction_def)

lemma nested_actionFree:
  "validateNoNestedRuleActions opts True = Ok () \<Longrightarrow> NewRule A B opts False = Ok r \<Longrightarrow> actionFree r"
proof (induction opts arbitrary: r)
  case (RuleOptions ty d md rs neg act)
  consider (plain) "ty = [] \<or> ty = RuleTypeDefault" | (logical) "ty = RuleTypeLogical"
    "\<not> (ty = [] \<or> ty = RuleTypeDefault)"
    using RuleOptions.prems(2) by (auto split: if_splits)
  then show ?case
  proof cases
    case plain
    with RuleOptions.prems have noact: "defAction d = noRuleAction" by (auto split: if_splits)
    from plain RuleOptions.prems(2) obtain r' where "NewDefaultRule A B d = Ok r'" "r = DefaultRule r'"
      by (auto split: if_splits)
    with NewDefaultRule_action[of A B d r'] noact show ?thesis by simp
  next
    case logical
    with RuleOptions.prems(1) obtain us where noact: "act = noRuleAction"
      and valid: "mapR (\<lambda>sub. withCause ''sub rule'' (validateNoNestedRuleActions sub True)) rs = Ok us"
      by (auto split: if_splits)
    from logical RuleOptions.prems(2) noact obtain rules where r: "r = LogicalRule rules md neg None"
      and subs: "mapR (\<lambda>sub. withCause ''sub rule''
          (bindR (validateNoNestedRuleActions sub True) (\<lambda>_. NewRule A B sub False))) rs = Ok rules"
      by (auto split: if_splits)
    have "actionFree x" if "x \<in> set rules" for x
    proof -
      from mapR_Ok_set[OF subs that] obtain sub where sub: "sub \<in> set rs"
        and new: "NewRule A B sub False = Ok x" by auto
      from mapR_Ok_all[OF valid sub] have "validateNoNestedRuleActions sub True = Ok ()" by auto
      from RuleOptions.IH[OF sub this new] show ?thesis .
    qed
    with r show ?thesis by simp
  qed
qed

text \<open>
  C7: Only top-level rules have an action: whatever the configuration, every rule nested in a logical
  rule that \<^verbatim>\<open>NewRule\<close> builds, at any depth, carries none, so matching a sub-rule can never select one.
\<close>

theorem nested_rules_have_no_action:
  assumes "NewRule A B opts c = Ok (LogicalRule rs md neg act)"
  shows "\<forall>r \<in> set rs. actionFree r"
proof
  fix r
  assume r: "r \<in> set rs"
  obtain ty d md' subs neg' act' where opts: "opts = RuleOptions ty d md' subs neg' act'" by (cases opts)
  from assms have "mapR (\<lambda>sub. withCause ''sub rule''
      (bindR (validateNoNestedRuleActions sub True) (\<lambda>_. NewRule A B sub False))) subs = Ok rs"
    by (auto simp: opts split: if_splits)
  from mapR_Ok_set[OF this r] show "actionFree r"
    using nested_actionFree by fastforce
qed

definition exampleLogicalOptions :: rule_options where
  "exampleLogicalOptions = RuleOptions RuleTypeLogical exampleOptions LogicalTypeAnd
     [RuleOptions RuleTypeDefault \<lparr>defRaw = noRawDefaultRule\<lparr>oNetwork := [''udp'']\<rparr>, defAction = noRuleAction\<rparr>
        [] [] False noRuleAction]
     False (noRuleAction\<lparr>oaAction := RuleActionTypeHijackDNS\<rparr>)"

theorem nested_rules_have_no_action_witness:
  "\<exists>rs. NewRule exampleActionEnv exampleBuilders exampleLogicalOptions True =
      Ok (LogicalRule rs LogicalTypeAnd False (Some RuleActionHijackDNS)) \<and> rs \<noteq> [] \<and>
    (\<forall>r \<in> set rs. actionFree r)"
proof -
  obtain rs where rs: "NewRule exampleActionEnv exampleBuilders exampleLogicalOptions True =
      Ok (LogicalRule rs LogicalTypeAnd False (Some RuleActionHijackDNS))" "rs \<noteq> []"
    by (simp add: exampleLogicalOptions_def LogicalRule_IsValid_def DefaultRule_IsValid_def
        missingOutbound_def checkMode_def NewRuleAction_def type_consts action_consts NewDefaultRule_def
        default_steps opt_def optR_def failIf_def noDefaultRule_def add_defs options_simps
        withCause_def noRouteActionOptions_def)
  from nested_rules_have_no_action[OF rs(1)] rs show ?thesis by blast
qed

section \<open>Rule-set metadata and the rules it describes\<close>

definition addersNoIP :: "('i \<Rightarrow> 'i abstractDefaultRule \<Rightarrow> 'i abstractDefaultRule) set" where
  "addersNoIP = {addItem, addSourceAddress, addSourcePort, addDestinationAddress, addDestinationPort}"

lemma addersNoIP_members [simp]:
  "addItem \<in> addersNoIP" "addSourceAddress \<in> addersNoIP" "addSourcePort \<in> addersNoIP"
  "addDestinationAddress \<in> addersNoIP" "addDestinationPort \<in> addersNoIP"
  unfolding addersNoIP_def by blast+

interpretation noip: rule_builder addersNoIP "\<lambda>r. destinationIPCIDRItems r = X" for X
  by unfold_locales (auto simp: addersNoIP_def add_defs)

text \<open>The two steps that add destination addresses, and the steps before and after them.\<close>

definition ipSteps :: "builders \<Rightarrow> DefaultHeadlessRuleOptions \<Rightarrow> plain_item step list" where
  "ipSteps B opts = take 2 (drop 8 (headlessRuleSteps1 B opts))"

lemma headless_split:
  "headlessRuleSteps1 B opts @ headlessRuleSteps2 B nm opts =
     take 8 (headlessRuleSteps1 B opts) @ ipSteps B opts @
     (drop 10 (headlessRuleSteps1 B opts) @ headlessRuleSteps2 B nm opts)"
  by (simp add: ipSteps_def headlessRuleSteps1_def)

lemma ipSteps_items:
  assumes "runSteps (ipSteps B opts) r = Ok r'" "destinationIPCIDRItems r = []"
  shows "destinationIPCIDRItems r' \<noteq> [] \<longleftrightarrow> isIPCIDRHeadlessRule opts"
  using assms
  by (auto simp: ipSteps_def headlessRuleSteps1_def optR_def opt_def addDestinationIPCIDR_def
      isIPCIDRHeadlessRule_def split: if_splits option.splits)

lemma NewDefaultHeadlessRule_ip:
  assumes "NewDefaultHeadlessRule B nm opts = Ok r"
  shows "destinationIPCIDRItems r \<noteq> [] \<longleftrightarrow> isIPCIDRHeadlessRule opts"
proof -
  let ?pre = "take 8 (headlessRuleSteps1 B opts)"
    and ?post = "drop 10 (headlessRuleSteps1 B opts) @ headlessRuleSteps2 B nm opts"
    and ?r0 = "noDefaultRule (hInvert opts) None"
  from assms obtain r1 r2 where r1: "runSteps ?pre ?r0 = Ok r1" and r2: "runSteps (ipSteps B opts) r1 = Ok r2"
    and r: "runSteps ?post r2 = Ok r"
    unfolding NewDefaultHeadlessRule_def headless_split runSteps_append by auto
  have pre: "\<forall>s \<in> set ?pre. noip.preserves X s" and post: "\<forall>s \<in> set ?post. noip.preserves X s" for X
    by (simp_all add: headless_steps split: option.splits)
  have "destinationIPCIDRItems r1 = []"
    using noip.runSteps_keep[OF pre _ r1] by (simp add: noDefaultRule_def)
  moreover have "destinationIPCIDRItems r = destinationIPCIDRItems r2"
    using noip.runSteps_keep[OF post refl r] .
  ultimately show ?thesis using ipSteps_items[OF r2] by simp
qed

fun hasDestinationIP :: "headless_rule \<Rightarrow> bool" where
  "hasDestinationIP (DefaultHeadlessRule r) \<longleftrightarrow> destinationIPCIDRItems r \<noteq> []"
| "hasDestinationIP (LogicalHeadlessRule rs md neg) \<longleftrightarrow> (\<exists>r \<in> set rs. hasDestinationIP r)"

text \<open>Decoded rules name their type: \<^verbatim>\<open>HeadlessRule.UnmarshalJSON\<close> and the binary reader set it.\<close>

fun explicitType :: "headless_options \<Rightarrow> bool" where
  "explicitType (HeadlessOptions ty d md rs neg) \<longleftrightarrow>
     (ty = RuleTypeDefault \<or> ty = RuleTypeLogical) \<and> (\<forall>r \<in> set rs. explicitType r)"

lemma HasHeadlessRule_append: "HasHeadlessRule (xs @ ys) cond \<longleftrightarrow> HasHeadlessRule xs cond \<or> HasHeadlessRule ys cond"
  by (induction xs cond rule: HasHeadlessRule.induct) auto

lemma HasHeadlessRule_iff: "HasHeadlessRule xs cond \<longleftrightarrow> (\<exists>x \<in> set xs. HasHeadlessRule [x] cond)"
proof (induction xs)
  case (Cons x xs)
  then show ?case using HasHeadlessRule_append[of "[x]" xs cond] by simp
qed simp

lemma NewHeadlessRule_ip:
  "explicitType opts \<Longrightarrow> NewHeadlessRule B nm opts = Ok r \<Longrightarrow>
   hasDestinationIP r \<longleftrightarrow> HasHeadlessRule [opts] isIPCIDRHeadlessRule"
proof (induction opts arbitrary: r)
  case (HeadlessOptions ty d md rs neg)
  have distinct: "RuleTypeDefault \<noteq> []" "RuleTypeLogical \<noteq> []" "RuleTypeLogical \<noteq> RuleTypeDefault"
    by (simp_all add: type_consts)
  consider (plain) "ty = RuleTypeDefault" | (logical) "ty = RuleTypeLogical"
    using HeadlessOptions.prems(1) by auto
  then show ?case
  proof cases
    case plain
    with HeadlessOptions.prems(2) obtain r' where "NewDefaultHeadlessRule B nm d = Ok r'"
      "r = DefaultHeadlessRule r'" by (auto split: if_splits)
    with plain distinct show ?thesis using NewDefaultHeadlessRule_ip[of B nm d r'] by simp
  next
    case logical
    with HeadlessOptions.prems(2) distinct obtain rules where r: "r = LogicalHeadlessRule rules md neg"
      and subs: "mapR (\<lambda>sub. withCause ''sub rule'' (NewHeadlessRule B nm sub)) rs = Ok rules"
      by (auto split: if_splits)
    have sub: "hasDestinationIP y \<longleftrightarrow> HasHeadlessRule [x] isIPCIDRHeadlessRule"
      if "x \<in> set rs" "NewHeadlessRule B nm x = Ok y" for x y
      using HeadlessOptions.IH[OF that(1) _ that(2)] HeadlessOptions.prems(1) that(1) by simp
    have "hasDestinationIP r \<longleftrightarrow> (\<exists>y \<in> set rules. hasDestinationIP y)" by (simp add: r)
    also have "\<dots> \<longleftrightarrow> (\<exists>x \<in> set rs. HasHeadlessRule [x] isIPCIDRHeadlessRule)"
    proof
      assume "\<exists>y \<in> set rules. hasDestinationIP y"
      then obtain y where "y \<in> set rules" "hasDestinationIP y" ..
      with mapR_Ok_set[OF subs] sub show "\<exists>x \<in> set rs. HasHeadlessRule [x] isIPCIDRHeadlessRule"
        by fastforce
    next
      assume "\<exists>x \<in> set rs. HasHeadlessRule [x] isIPCIDRHeadlessRule"
      then obtain x where "x \<in> set rs" "HasHeadlessRule [x] isIPCIDRHeadlessRule" ..
      with mapR_Ok_all[OF subs] sub show "\<exists>y \<in> set rules. hasDestinationIP y"
        by fastforce
    qed
    also have "\<dots> \<longleftrightarrow> HasHeadlessRule rs isIPCIDRHeadlessRule"
      by (rule HasHeadlessRule_iff[symmetric])
    finally show ?thesis using logical distinct by simp
  qed
qed

text \<open>
  C8: The metadata of a rule-set describes its rules: for decoded options, \<^verbatim>\<open>ContainsIPCIDRRule\<close> is set
  exactly when one of the rules built from the same options, at any depth, has a destination address
  condition.  The DNS router relies on it to decide whether a response must be inspected.
\<close>

theorem metadata_ip_correct:
  assumes "mapR (NewHeadlessRule B nm) opts = Ok rules" "\<forall>x \<in> set opts. explicitType x"
  shows "ContainsIPCIDRRule (buildRuleSetMetadata opts) \<longleftrightarrow> (\<exists>r \<in> set rules. hasDestinationIP r)"
proof -
  have "ContainsIPCIDRRule (buildRuleSetMetadata opts) \<longleftrightarrow>
      (\<exists>x \<in> set opts. HasHeadlessRule [x] isIPCIDRHeadlessRule)"
    by (simp add: buildRuleSetMetadata_def) (rule HasHeadlessRule_iff)
  then show ?thesis
    using mapR_Ok_set[OF assms(1)] mapR_Ok_all[OF assms(1)] NewHeadlessRule_ip[of _ B nm] assms(2)
    by meson
qed

theorem metadata_ip_correct_witness:
  "\<exists>rules. mapR (NewHeadlessRule exampleBuilders True)
      [HeadlessOptions RuleTypeDefault (noHeadlessRule\<lparr>hIPSet := Some (\<lambda>a. a = IP4 1)\<rparr>) [] [] False] = Ok rules \<and>
    ContainsIPCIDRRule (buildRuleSetMetadata
      [HeadlessOptions RuleTypeDefault (noHeadlessRule\<lparr>hIPSet := Some (\<lambda>a. a = IP4 1)\<rparr>) [] [] False]) \<and>
    (\<exists>r \<in> set rules. hasDestinationIP r)"
proof -
  let ?opts = "[HeadlessOptions RuleTypeDefault (noHeadlessRule\<lparr>hIPSet := Some (\<lambda>a. a = IP4 1)\<rparr>) [] [] False]"
  obtain rules where "mapR (NewHeadlessRule exampleBuilders True) ?opts = Ok rules"
    by (simp add: DefaultHeadlessRule_IsValid_def noHeadlessRule_def NewDefaultHeadlessRule_def
        headless_steps opt_def optR_def noDefaultRule_def)
  moreover have "\<forall>x \<in> set ?opts. explicitType x" by simp
  moreover have "ContainsIPCIDRRule (buildRuleSetMetadata ?opts)"
    by (simp add: buildRuleSetMetadata_def isIPCIDRHeadlessRule_def)
  ultimately show ?thesis using metadata_ip_correct[of exampleBuilders True ?opts rules] by blast
qed

end
