(* ===== verification/Route.thy ===== *)
theory Route
  imports RuleSemantics
begin

text \<open>
  The connection router (\<^verbatim>\<open>route/route.go\<close>, \<^verbatim>\<open>route/process_cache.go\<close>, \<^verbatim>\<open>route/router.go\<close>): completion of the
  context, the rule loop with its sniff, resolve and option actions, and the dispatch of stream and
  packet connections.  What the router asks of other services (DNS, fake addresses, outbounds,
  inbounds, trackers, sniffers, the connection itself) is the parameter record \<open>routeEnv\<close>.
\<close>

section \<open>Environment\<close>

definition NetworkTCP :: string where "NetworkTCP = ''tcp''"
definition NetworkUDP :: string where "NetworkUDP = ''udp''"
definition NetworkICMP :: string where "NetworkICMP = ''icmp''"
definition TypeTun :: string where "TypeTun = ''tun''"
definition ProtocolDNS :: string where "ProtocolDNS = ''dns''"

record neighborResolver =
  LookupMAC :: "addr \<Rightarrow> bytes option"
  LookupHostname :: "addr \<Rightarrow> string option"

record fakeipStore =
  storeContains :: "addr \<Rightarrow> bool"
  storeLookup :: "addr \<Rightarrow> string option"

record outbound =
  obTag :: string
  obNetwork :: "string list"
  obConnectionHandler :: bool
  obPacketConnectionHandler :: bool
  obDirectRoute :: bool

type_synonym packetBuffer = "bytes \<times> Socksaddr"

text \<open>What reading from a stream may give: some bytes, a failing or timed out read, or a connection
  that refuses the deadline.\<close>

datatype streamRead = ChunkRead bytes | ChunkError | DeadlineError

text \<open>What reading a packet may give: a packet, a timeout, another error, or nothing before the
  connection's context is cancelled.\<close>

datatype readResult = ReadOk bytes Socksaddr | ReadTimeout | ReadError goerror | ReadCancelled

record routeEnv =
  ruleEnv :: env
  saIsIPv4 :: "Socksaddr \<Rightarrow> bool"
  saIsDomain :: "Socksaddr \<Rightarrow> bool"
  saIsValid :: "Socksaddr \<Rightarrow> bool"
  IsDomainName :: "string \<Rightarrow> bool"
  processSearcher :: "(string \<Rightarrow> Socksaddr \<Rightarrow> Socksaddr option \<Rightarrow> (goerror, ConnectionOwner) result) option"
  MyInterfaceAddress :: "addr list option"
  neighbors :: "neighborResolver option"
  fakeIP :: "fakeipStore option"
  LookupReverseMapping :: "addr \<Rightarrow> string option"
  Transport :: "string \<Rightarrow> bool"
  dnsLookup :: "InboundContext \<Rightarrow> string \<Rightarrow> ResolveOptions \<Rightarrow> (goerror, addr list) result"
  inbounds :: "string \<Rightarrow> (bool \<times> bool) option"
  outbounds :: "string \<Rightarrow> outbound option"
  defaultOutbound :: outbound
  runStreamSniffer :: "streamSniffer \<Rightarrow> InboundContext \<Rightarrow> bytes \<Rightarrow> sniffError option \<times> InboundContext"
  runPacketSniffer :: "packetSniffer \<Rightarrow> InboundContext \<Rightarrow> bytes \<Rightarrow> sniffError option \<times> InboundContext"
  NewDirectRouteConnection :: "string \<Rightarrow> InboundContext \<Rightarrow> goerror option"
  trackers :: "(InboundContext \<Rightarrow> nat option \<Rightarrow> outbound option \<Rightarrow> bool) list"
  muxFqdn :: string
  vmessMuxFqdn :: string
  uotMagicAddress :: string
  uotLegacyMagicAddress :: string

section \<open>Completing the context\<close>

definition isLocalSource :: "routeEnv \<Rightarrow> addr \<Rightarrow> bool" where
  "isLocalSource R source =
     (if IsLoopback source then True
      else if (case MyInterfaceAddress R of None \<Rightarrow> False | Some as \<Rightarrow> source \<in> set as) then True
      else list_ex (\<lambda>i. list_ex (\<lambda>p. pfxAddr p = source) (ifAddresses i)) (finderInterfaces (ruleEnv R)))"

definition searchProcessInfo :: "routeEnv \<Rightarrow> InboundContext \<Rightarrow> InboundContext" where
  "searchProcessInfo R m = (case processSearcher R of
     None \<Rightarrow> m
   | Some search \<Rightarrow>
       if ProcessInfo m \<noteq> None \<or> \<not> isLocalSource R (Addr (Source m)) then m
       else
         let originDestination =
               (if saIsValid R (OriginDestination m) then Some (OriginDestination m)
                else if IsIP (ruleEnv R) (Destination m) then Some (Destination m)
                else None)
         in case search (Network m) (Source m) originDestination of
              Inl err \<Rightarrow> m
            | Inr info \<Rightarrow> m\<lparr>ProcessInfo := Some info\<rparr>)"

definition searchNeighbor :: "routeEnv \<Rightarrow> InboundContext \<Rightarrow> InboundContext" where
  "searchNeighbor R m = (case neighbors R of
     None \<Rightarrow> m
   | Some nr \<Rightarrow>
       if SourceMACAddress m = None \<and> addrIsValid (Addr (Source m)) then
         let m1 = (case LookupMAC nr (Addr (Source m)) of None \<Rightarrow> m | Some mac \<Rightarrow> m\<lparr>SourceMACAddress := Some mac\<rparr>)
         in case LookupHostname nr (Addr (Source m)) of
              None \<Rightarrow> m1
            | Some hostname \<Rightarrow> m1\<lparr>SourceHostname := hostname\<rparr>
       else m)"

definition inFakeRange :: "routeEnv \<Rightarrow> InboundContext \<Rightarrow> bool" where
  "inFakeRange R m \<longleftrightarrow> addrIsValid (Addr (Destination m)) \<and>
     (case fakeIP R of None \<Rightarrow> False | Some store \<Rightarrow> storeContains store (Addr (Destination m)))"

definition resolveFakeIP :: "routeEnv \<Rightarrow> InboundContext \<Rightarrow> (goerror, InboundContext) result" where
  "resolveFakeIP R m =
     (if inFakeRange R m then
        (case storeLookup (the (fakeIP R)) (Addr (Destination m)) of
           None \<Rightarrow> Err (ENew ''missing fakeip record, try enable `experimental.cache_file`'')
         | Some domain \<Rightarrow>
             if domain \<noteq> [] then
               Ok (m\<lparr>OriginDestination := Destination m,
                     Destination := \<lparr>Addr = NoAddr, Port = Port (Destination m), Fqdn = domain\<rparr>,
                     mdFakeIP := True\<rparr>)
             else Ok m)
      else if Domain m = [] then
        (case LookupReverseMapping R (Addr (Destination m)) of
           Some domain \<Rightarrow> Ok (m\<lparr>Domain := domain\<rparr>)
         | None \<Rightarrow> Ok m)
      else Ok m)"

definition setIPVersion :: "routeEnv \<Rightarrow> InboundContext \<Rightarrow> InboundContext" where
  "setIPVersion R m =
     (if saIsIPv4 R (Destination m) then m\<lparr>IPVersion := 4\<rparr>
      else if IsIPv6 (ruleEnv R) (Destination m) then m\<lparr>IPVersion := 6\<rparr>
      else m)"

section \<open>Actions of the rule loop\<close>

definition applyRouteOptions :: "routeEnv \<Rightarrow> RouteOptions \<Rightarrow> InboundContext \<Rightarrow> InboundContext" where
  "applyRouteOptions R ro m0 =
     (let overrideAddress = saIsValid R (roOverrideAddress ro);
          overridePort = roOverridePort ro > 0;
          m = (if (overrideAddress \<or> overridePort) \<and> \<not> saIsValid R (RouteOriginalDestination m0)
               then m0\<lparr>RouteOriginalDestination := Destination m0\<rparr> else m0);
          m = (if overrideAddress
               then m\<lparr>Destination := \<lparr>Addr = Addr (roOverrideAddress ro), Port = Port (Destination m),
                        Fqdn = Fqdn (roOverrideAddress ro)\<rparr>, DestinationAddresses := []\<rparr> else m);
          m = (if overridePort
               then m\<lparr>Destination := \<lparr>Addr = Addr (Destination m), Port = roOverridePort ro,
                        Fqdn = Fqdn (Destination m)\<rparr>\<rparr> else m);
          m = (if roNetworkStrategy ro \<noteq> None then m\<lparr>mdNetworkStrategy := roNetworkStrategy ro\<rparr> else m);
          m = (if roNetworkType ro \<noteq> [] then m\<lparr>NetworkType := roNetworkType ro\<rparr> else m);
          m = (if roFallbackNetworkType ro \<noteq> [] then m\<lparr>FallbackNetworkType := roFallbackNetworkType ro\<rparr> else m);
          m = (if roFallbackDelay ro \<noteq> 0 then m\<lparr>FallbackDelay := roFallbackDelay ro\<rparr> else m);
          m = (if roUDPDisableDomainUnmapping ro then m\<lparr>UDPDisableDomainUnmapping := True\<rparr> else m);
          m = (if roUDPConnect ro then m\<lparr>UDPConnect := True\<rparr> else m);
          m = (if roUDPTimeout ro > 0 then m\<lparr>UDPTimeout := roUDPTimeout ro\<rparr> else m);
          m = (if roTLSFragment ro
               then m\<lparr>TLSFragment := True, TLSFragmentFallbackDelay := roTLSFragmentFallbackDelay ro\<rparr> else m);
          m = (if roTLSRecordFragment ro then m\<lparr>TLSRecordFragment := True\<rparr> else m)
      in if roTLSSpoof ro \<noteq> []
         then m\<lparr>TLSSpoof := roTLSSpoof ro, TLSSpoofMethod := roTLSSpoofMethod ro\<rparr> else m)"

definition actionResolve :: "routeEnv \<Rightarrow> InboundContext \<Rightarrow> ResolveOptions \<Rightarrow> (goerror, InboundContext) result" where
  "actionResolve R m rs =
     (if saIsDomain R (Destination m) then
        (if rsServer rs \<noteq> [] \<and> \<not> Transport R (rsServer rs)
         then Err (ENew (''DNS server not found: '' @ rsServer rs))
         else bindR (dnsLookup R m (Fqdn (Destination m)) rs)
                (\<lambda>addresses. Ok (m\<lparr>DestinationAddresses := addresses\<rparr>)))
      else Ok m)"

subsection \<open>Sniffing\<close>

definition sniffSkip :: "InboundContext \<Rightarrow> bool" where
  "sniffSkip m \<longleftrightarrow> Port (Destination m) \<in> {25, 465, 587, 143, 993, 110, 995}"

definition sniffOverride :: "routeEnv \<Rightarrow> SniffOptions \<Rightarrow> InboundContext \<Rightarrow> InboundContext" where
  "sniffOverride R sn m =
     (if snOverrideDestination sn \<and> IsDomainName R (Domain m)
      then m\<lparr>Destination := \<lparr>Addr = NoAddr, Port = Port (Destination m), Fqdn = Domain m\<rparr>\<rparr> else m)"

definition previousError :: "SniffOptions \<Rightarrow> InboundContext \<Rightarrow> bool" where
  "previousError sn m \<longleftrightarrow> SnifferNames m = snSnifferNames sn \<and> SniffError m \<noteq> None \<and> SniffError m \<noteq> Some ErrNeedMoreData"

definition quicMoreData :: "SniffOptions \<Rightarrow> InboundContext \<Rightarrow> bool" where
  "quicMoreData sn m \<longleftrightarrow> SnifferNames m = snSnifferNames sn \<and> SniffError m = Some ErrNeedMoreData"

text \<open>\<^verbatim>\<open>E.Errors\<close> joins errors; \<^verbatim>\<open>errors.Is\<close> finds \<^verbatim>\<open>ErrNeedMoreData\<close> in the joined error when one part is it.\<close>

definition joinErrors :: "sniffError option \<Rightarrow> sniffError \<Rightarrow> sniffError option" where
  "joinErrors acc e = Some (if acc = Some ErrNeedMoreData then ErrNeedMoreData else e)"

fun runSniffers ::
  "('s \<Rightarrow> InboundContext \<Rightarrow> sniffError option \<times> InboundContext) \<Rightarrow> sniffError option \<Rightarrow> 's list \<Rightarrow> InboundContext \<Rightarrow>
   sniffError option \<times> InboundContext" where
  "runSniffers run acc [] m = (acc, m)"
| "runSniffers run acc (s # ss) m = (case run s m of
     (None, m1) \<Rightarrow> (None, m1)
   | (Some e, m1) \<Rightarrow> runSniffers run (joinErrors acc e) ss m1)"

text \<open>The loop of \<^verbatim>\<open>sniff.PeekStream\<close>: \<open>again\<close> tells whether it is past its first round, \<open>buffer\<close> what it has
  read so far.  A list of reads that ends is a read that fails.\<close>

fun PeekStream ::
  "routeEnv \<Rightarrow> streamSniffer list \<Rightarrow> bytes list \<Rightarrow> bool \<Rightarrow> sniffError option \<Rightarrow> bytes \<Rightarrow> streamRead list \<Rightarrow> InboundContext \<Rightarrow>
   sniffError option \<times> InboundContext \<times> bytes \<times> streamRead list" where
  "PeekStream R sniffers buffers again sniffErr buffer [] m =
     (if again then sniffErr else Some OtherSniffError, m, buffer, [])"
| "PeekStream R sniffers buffers again sniffErr buffer (ChunkError # rds) m =
     (if again then sniffErr else Some OtherSniffError, m, buffer, rds)"
| "PeekStream R sniffers buffers again sniffErr buffer (DeadlineError # rds) m =
     (Some OtherSniffError, m, buffer, rds)"
| "PeekStream R sniffers buffers again sniffErr buffer (ChunkRead chunk # rds) m =
     (let buffer1 = buffer @ chunk;
          (err, m1) = runSniffers (\<lambda>s md. runStreamSniffer R s md (concat (buffers @ [buffer1]))) None sniffers m
      in if err = Some ErrNeedMoreData then PeekStream R sniffers buffers True err buffer1 rds m1
         else (err, m1, buffer1, rds))"

definition PeekPacket :: "routeEnv \<Rightarrow> InboundContext \<Rightarrow> bytes \<Rightarrow> packetSniffer list \<Rightarrow> sniffError option \<times> InboundContext" where
  "PeekPacket R m packet sniffers = runSniffers (\<lambda>s md. runPacketSniffer R s md packet) None sniffers m"

definition sniffStream ::
  "routeEnv \<Rightarrow> SniffOptions \<Rightarrow> bytes list \<Rightarrow> streamRead list \<Rightarrow> InboundContext \<Rightarrow>
   InboundContext \<times> bytes option \<times> streamRead list" where
  "sniffStream R sn inputBuffers reads m =
     (if snStreamSniffers sn = [] \<and> snPacketSniffers sn \<noteq> [] then (m, None, reads)
      else if previousError sn m then (m, None, reads)
      else
        let streamSniffers = (if snStreamSniffers sn \<noteq> [] then snStreamSniffers sn
              else [TLSClientHello, HTTPHost, StreamDomainNameQuery, BitTorrent, SSH, RDP]);
            (err, m1, sniffBuffer, reads1) = PeekStream R streamSniffers inputBuffers False None [] reads m;
            m2 = m1\<lparr>SnifferNames := snSnifferNames sn, SniffError := err\<rparr>;
            m3 = (if err = None then sniffOverride R sn m2 else m2)
        in (m3, if sniffBuffer \<noteq> [] then Some sniffBuffer else None, reads1))"

definition peekOne ::
  "routeEnv \<Rightarrow> SniffOptions \<Rightarrow> packetSniffer list \<Rightarrow> InboundContext \<Rightarrow> bytes \<Rightarrow> sniffError option \<times> InboundContext" where
  "peekOne R sn packetSniffers m payload =
     (let (err, m1) = PeekPacket R m payload (if quicMoreData sn m then [QUICClientHello] else packetSniffers)
      in (err, m1\<lparr>SnifferNames := snSnifferNames sn, SniffError := err\<rparr>))"

text \<open>The loop over the packets an earlier sniff action has read: the first component tells whether a
  packet settled the result, with its error.\<close>

fun peekBuffered ::
  "routeEnv \<Rightarrow> SniffOptions \<Rightarrow> packetSniffer list \<Rightarrow> packetBuffer list \<Rightarrow> InboundContext \<Rightarrow>
   sniffError option option \<times> InboundContext" where
  "peekBuffered R sn ps [] m = (None, m)"
| "peekBuffered R sn ps (pb # pbs) m =
     (let (err, m1) = peekOne R sn ps m (fst pb)
      in if err = Some ErrNeedMoreData then peekBuffered R sn ps pbs m1 else (Some err, m1))"

text \<open>The reading loop: the context, the packets so far, the remaining read results and the fatal
  error.  A read that never completes before the context is cancelled is the end of the list.\<close>

fun readLoop ::
  "routeEnv \<Rightarrow> SniffOptions \<Rightarrow> packetSniffer list \<Rightarrow> readResult list \<Rightarrow> packetBuffer list \<Rightarrow> InboundContext \<Rightarrow>
   InboundContext \<times> packetBuffer list \<times> readResult list \<times> goerror option" where
  "readLoop R sn ps [] pbs m = (m, pbs, [], Some (EOther ''context canceled''))"
| "readLoop R sn ps (ReadCancelled # rds) pbs m = (m, pbs, rds, Some (EOther ''context canceled''))"
| "readLoop R sn ps (ReadError e # rds) pbs m = (m, pbs, rds, Some e)"
| "readLoop R sn ps (ReadTimeout # rds) pbs m = (m, pbs, rds, None)"
| "readLoop R sn ps (ReadOk payload dst # rds) pbs m =
     (let (err, m1) = peekOne R sn ps m payload; pbs1 = pbs @ [(payload, dst)]
      in if err = Some ErrNeedMoreData then readLoop R sn ps rds pbs1 m1
         else ((if err = None then sniffOverride R sn m1 else m1), pbs1, rds, None))"

definition sniffPackets ::
  "routeEnv \<Rightarrow> SniffOptions \<Rightarrow> packetBuffer list \<Rightarrow> readResult list \<Rightarrow> InboundContext \<Rightarrow>
   InboundContext \<times> packetBuffer list \<times> readResult list \<times> goerror option" where
  "sniffPackets R sn inputPacketBuffers reads m =
     (if snPacketSniffers sn = [] \<and> snStreamSniffers sn \<noteq> [] then (m, [], reads, None)
      else if previousError sn m then (m, [], reads, None)
      else
        let ps = (if snPacketSniffers sn \<noteq> [] then snPacketSniffers sn
              else [DomainNameQuery, QUICClientHello, STUNMessage, UTP, UDPTracker, DTLSRecord, NTP])
        in case peekBuffered R sn ps inputPacketBuffers m of
             (Some err, m1) \<Rightarrow> ((if err = None then sniffOverride R sn m1 else m1), [], reads, None)
           | (None, m1) \<Rightarrow> readLoop R sn ps reads inputPacketBuffers m1)"

text \<open>The input of a call to the rule loop: a stream, a packet connection, or neither (pre-match).\<close>

datatype input = StreamInput | PacketInput | NoInput

text \<open>The working state of the rule loop.\<close>

record loopState =
  lsMeta :: InboundContext
  lsBuffers :: "bytes list"
  lsPackets :: "packetBuffer list"
  lsStream :: "streamRead list"
  lsReads :: "readResult list"

definition actionSniff ::
  "routeEnv \<Rightarrow> input \<Rightarrow> SniffOptions \<Rightarrow> loopState \<Rightarrow>
   InboundContext \<times> bytes option \<times> packetBuffer list \<times> streamRead list \<times> readResult list \<times> goerror option" where
  "actionSniff R inp sn s =
     (if sniffSkip (lsMeta s) \<or> Protocol (lsMeta s) \<noteq> [] then (lsMeta s, None, [], lsStream s, lsReads s, None)
      else case inp of
        StreamInput \<Rightarrow>
          (let (m, buffer, sr) = sniffStream R sn (lsBuffers s) (lsStream s) (lsMeta s)
           in (m, buffer, [], sr, lsReads s, None))
      | PacketInput \<Rightarrow>
          (let (m, pbs, rds, err) = sniffPackets R sn (lsPackets s) (lsReads s) (lsMeta s)
           in (m, None, pbs, lsStream s, rds, err))
      | NoInput \<Rightarrow> (lsMeta s, None, [], lsStream s, lsReads s, None))"

text \<open>How \<^verbatim>\<open>matchRule\<close> stores what \<^verbatim>\<open>actionSniff\<close> returns.\<close>

definition storeSniffed ::
  "InboundContext \<times> bytes option \<times> packetBuffer list \<times> streamRead list \<times> readResult list \<times> goerror option \<Rightarrow>
   loopState \<Rightarrow> loopState" where
  "storeSniffed r s =
     (let (m, newBuffer, newPacketBuffers, sr, rds, newErr) = r;
          s1 = s\<lparr>lsMeta := m, lsStream := sr, lsReads := rds\<rparr>
      in case newBuffer of
           Some b \<Rightarrow> s1\<lparr>lsBuffers := lsBuffers s @ [b]\<rparr>
         | None \<Rightarrow> if newPacketBuffers \<noteq> [] then s1\<lparr>lsPackets := lsPackets s @ newPacketBuffers\<rparr> else s1)"

section \<open>The rule loop\<close>

datatype stepResult =
    Continue loopState
  | Select loopState
  | Fatal goerror loopState

definition ruleOptionsOf :: "rule_action \<Rightarrow> RouteOptions option" where
  "ruleOptionsOf act = (case act of
     RuleActionRoute _ ro \<Rightarrow> Some ro
   | RuleActionRouteOptions ro \<Rightarrow> Some ro
   | RuleActionBypass ob ro \<Rightarrow> if ob \<noteq> [] then Some ro else None
   | _ \<Rightarrow> None)"

definition withOptions :: "routeEnv \<Rightarrow> rule_action \<Rightarrow> InboundContext \<Rightarrow> InboundContext" where
  "withOptions R act m = (case ruleOptionsOf act of None \<Rightarrow> m | Some ro \<Rightarrow> applyRouteOptions R ro m)"

text \<open>The end of an iteration, on the type of the action.\<close>

definition selectByType :: "bool \<Rightarrow> rule_action \<Rightarrow> loopState \<Rightarrow> stepResult" where
  "selectByType supportBypass act s =
     (let actionTy = actionType act in
      if actionTy = RuleActionTypeRoute \<or> actionTy = RuleActionTypeReject \<or> actionTy = RuleActionTypeHijackDNS
      then Select s
      else case act of
        RuleActionBypass ob _ \<Rightarrow> if \<not> supportBypass \<and> ob = [] then Continue s else Select s
      | _ \<Rightarrow> Continue s)"

definition runAction :: "routeEnv \<Rightarrow> bool \<Rightarrow> bool \<Rightarrow> input \<Rightarrow> rule_action \<Rightarrow> loopState \<Rightarrow> stepResult" where
  "runAction R preMatch supportBypass inp act s0 =
     (let s = s0\<lparr>lsMeta := withOptions R act (lsMeta s0)\<rparr>
      in case act of
           RuleActionSniff sn \<Rightarrow>
             if \<not> preMatch then
               (let r = actionSniff R inp sn s; s1 = storeSniffed r s
                in case r of (_, _, _, _, _, Some e) \<Rightarrow> Fatal e s1 | _ \<Rightarrow> selectByType supportBypass act s1)
             else if Network (lsMeta s) \<noteq> NetworkICMP then Select s
             else selectByType supportBypass act s
         | RuleActionResolve rs \<Rightarrow>
             (case actionResolve R (lsMeta s) rs of
                Inl e \<Rightarrow> Fatal e s
              | Inr m \<Rightarrow> selectByType supportBypass act (s\<lparr>lsMeta := m\<rparr>))
         | _ \<Rightarrow> selectByType supportBypass act s)"

definition ruleStep :: "routeEnv \<Rightarrow> bool \<Rightarrow> bool \<Rightarrow> input \<Rightarrow> rule \<Rightarrow> loopState \<Rightarrow> stepResult" where
  "ruleStep R preMatch supportBypass inp r s =
     (let (matched, m) = rule_Match (ruleEnv R) r (ResetRuleCache (lsMeta s)); s1 = s\<lparr>lsMeta := m\<rparr>
      in if \<not> matched then Continue s1
         else case rule_Action r of
           None \<Rightarrow> Fatal (EPanic ''nil rule action'') s1
         | Some act \<Rightarrow> runAction R preMatch supportBypass inp act s1)"

fun matchLoop ::
  "routeEnv \<Rightarrow> bool \<Rightarrow> bool \<Rightarrow> input \<Rightarrow> nat \<Rightarrow> rule list \<Rightarrow> loopState \<Rightarrow>
   (goerror, (nat \<times> rule) option) result \<times> loopState" where
  "matchLoop R preMatch supportBypass inp i [] s = (Ok None, s)"
| "matchLoop R preMatch supportBypass inp i (r # rs) s =
     (case ruleStep R preMatch supportBypass inp r s of
        Continue s1 \<Rightarrow> matchLoop R preMatch supportBypass inp (Suc i) rs s1
      | Select s1 \<Rightarrow> (Ok (Some (i, r)), s1)
      | Fatal e s1 \<Rightarrow> (Err e, s1))"

definition startState :: "InboundContext \<Rightarrow> streamRead list \<Rightarrow> readResult list \<Rightarrow> loopState" where
  "startState m sr rds = \<lparr>lsMeta = m, lsBuffers = [], lsPackets = [], lsStream = sr, lsReads = rds\<rparr>"

text \<open>The result of \<^verbatim>\<open>matchRule\<close>: with a fatal error its deferred function releases every buffer and packet;
  a panic leaves the function without setting the error.\<close>

definition releasedOn :: "goerror \<Rightarrow> 'b list \<Rightarrow> 'b list" where
  "releasedOn e bs = (case e of EPanic _ \<Rightarrow> [] | _ \<Rightarrow> bs)"

record matchResult =
  mrSelected :: "(nat \<times> rule) option"
  mrError :: "goerror option"
  mrState :: loopState
  mrReleased :: "bytes list"
  mrReleasedPackets :: "packetBuffer list"

definition matchRule ::
  "routeEnv \<Rightarrow> rule list \<Rightarrow> bool \<Rightarrow> bool \<Rightarrow> input \<Rightarrow> streamRead list \<Rightarrow> readResult list \<Rightarrow> InboundContext \<Rightarrow> matchResult" where
  "matchRule R rules preMatch supportBypass inp sr rds m0 =
     (case resolveFakeIP R (searchNeighbor R (searchProcessInfo R m0)) of
        Inl e \<Rightarrow> \<lparr>mrSelected = None, mrError = Some e,
                  mrState = startState (searchNeighbor R (searchProcessInfo R m0)) sr rds,
                  mrReleased = [], mrReleasedPackets = []\<rparr>
      | Inr m \<Rightarrow>
          (case matchLoop R preMatch supportBypass inp 0 rules (startState (setIPVersion R m) sr rds) of
             (Inl e, s) \<Rightarrow> \<lparr>mrSelected = None, mrError = Some e, mrState = s\<lparr>lsBuffers := [], lsPackets := []\<rparr>,
                              mrReleased = releasedOn e (lsBuffers s), mrReleasedPackets = releasedOn e (lsPackets s)\<rparr>
           | (Inr sel, s) \<Rightarrow> \<lparr>mrSelected = sel, mrError = None, mrState = s, mrReleased = [], mrReleasedPackets = []\<rparr>))"

section \<open>Dispatch\<close>

text \<open>A connection as the router builds it: what came in, wrapped by \<^verbatim>\<open>bufio.NewCachedConn\<close> (or
  \<^verbatim>\<open>NewCachedPacketConn\<close>) around each buffer in turn, and by \<^verbatim>\<open>bufio.NewNATPacketConn\<close>.\<close>

datatype 'b conn = InputConn | CachedConn "'b conn" 'b | NATPacketConn "'b conn" Socksaddr Socksaddr

definition cachedConn :: "'b list \<Rightarrow> 'b conn" where
  "cachedConn buffers = fold (\<lambda>b c. CachedConn c b) buffers InputConn"

datatype routeError = RouteErr goerror | RejectedError rejectError | BypassedError

datatype 'b outcome =
    Failed routeError
  | NoError
  | ToInbound string InboundContext
  | ToHijackDNS InboundContext "'b conn"
  | ToHijackDNSPacket InboundContext "'b list"
  | ToOutbound outbound bool InboundContext "'b conn"

text \<open>The outcome of routing a connection, the buffers released on the way and the drop counters of the
  reject actions, by rule index.\<close>

record 'b routeResult =
  rrOutcome :: "'b outcome"
  rrReleased :: "'b list"
  rrCounters :: "nat \<Rightarrow> int list"

definition failed :: "goerror \<Rightarrow> 'b list \<Rightarrow> (nat \<Rightarrow> int list) \<Rightarrow> 'b routeResult" where
  "failed e released dc = \<lparr>rrOutcome = Failed (RouteErr e), rrReleased = released, rrCounters = dc\<rparr>"

definition completed :: "'b outcome \<Rightarrow> (nat \<Rightarrow> int list) \<Rightarrow> 'b routeResult" where
  "completed oc dc = \<lparr>rrOutcome = oc, rrReleased = [], rrCounters = dc\<rparr>"

definition findOutbound :: "routeEnv \<Rightarrow> string \<Rightarrow> string \<Rightarrow> string \<Rightarrow> (goerror, outbound) result" where
  "findOutbound R network label tag = (case outbounds R tag of
     None \<Rightarrow> Err (ENew (''outbound not found: '' @ tag))
   | Some ob \<Rightarrow> if network \<notin> set (obNetwork ob) then Err (ENew (label @ '' is not supported by outbound: '' @ obTag ob))
               else Ok ob)"

definition rejectOutcome ::
  "string \<Rightarrow> string \<Rightarrow> bool \<Rightarrow> nat \<Rightarrow> int \<Rightarrow> (nat \<Rightarrow> int list) \<Rightarrow> 'b list \<Rightarrow> 'b routeResult" where
  "rejectOutcome label method noDrop i now dc buffers =
     (if method = RuleActionRejectMethodReply
      then failed (ENew (''reject method `reply` is not supported for '' @ label @ '' connections'')) buffers dc
      else let (r, c) = RuleActionReject_Error method noDrop (dc i) now
           in \<lparr>rrOutcome = (case r of
                  Inl e \<Rightarrow> Failed (RouteErr e)
                | Inr None \<Rightarrow> NoError
                | Inr (Some e) \<Rightarrow> Failed (RejectedError e)),
               rrReleased = buffers, rrCounters = dc(i := c)\<rparr>)"

text \<open>The trackers, in order; one that returns no connection ends the routing.  A nil outbound is a nil
  dereference in the connection manager.\<close>

definition dispatch ::
  "routeEnv \<Rightarrow> (outbound \<Rightarrow> bool) \<Rightarrow> nat option \<Rightarrow> outbound option \<Rightarrow> InboundContext \<Rightarrow> 'b conn \<Rightarrow>
   (nat \<Rightarrow> int list) \<Rightarrow> 'b routeResult" where
  "dispatch R isHandler sel ob m conn dc =
     (if \<not> list_all (\<lambda>tracker. tracker m sel ob) (trackers R)
      then completed (Failed (RejectedError ErrDrop)) dc
      else case ob of
        None \<Rightarrow> failed (EPanic ''nil outbound'') [] dc
      | Some x \<Rightarrow> completed (ToOutbound x (isHandler x) m conn) dc)"

definition detourOutcome :: "routeEnv \<Rightarrow> (bool \<times> bool \<Rightarrow> bool) \<Rightarrow> string \<Rightarrow> InboundContext \<Rightarrow> 'b outcome" where
  "detourOutcome R injectable label m =
     (if LastInbound m = InboundDetour m
      then Failed (RouteErr (ENew (''routing loop on detour: '' @ InboundDetour m)))
      else case inbounds R (InboundDetour m) of
        None \<Rightarrow> Failed (RouteErr (ENew (''inbound detour not found: '' @ InboundDetour m)))
      | Some i \<Rightarrow>
          if \<not> injectable i
          then Failed (RouteErr (ENew (''inbound detour is not '' @ label @ '' injectable: '' @ InboundDetour m)))
          else ToInbound (InboundDetour m)
                 (m\<lparr>LastInbound := Inbound m, Inbound := InboundDetour m, InboundDetour := []\<rparr>))"

definition deprecatedDestination :: "routeEnv \<Rightarrow> string \<Rightarrow> goerror option" where
  "deprecatedDestination R fqdn =
     (if fqdn = muxFqdn R
      then Some (ENew ''global multiplex is deprecated since sing-box v1.7.0, enable multiplex in Inbound fields instead.'')
      else if fqdn = vmessMuxFqdn R
      then Some (ENew ''global multiplex (v2ray legacy) not supported since sing-box v1.7.0.'')
      else if fqdn = uotMagicAddress R
      then Some (ENew ''global UoT not supported since sing-box v1.7.0.'')
      else if fqdn = uotLegacyMagicAddress R
      then Some (ENew ''global UoT (legacy) not supported since sing-box v1.7.0.'')
      else None)"

definition streamOutbound :: "routeEnv \<Rightarrow> nat option \<Rightarrow> outbound option \<Rightarrow> loopState \<Rightarrow> (nat \<Rightarrow> int list) \<Rightarrow> bytes routeResult" where
  "streamOutbound R sel ob s dc =
     dispatch R obConnectionHandler sel ob (lsMeta s) (cachedConn (lsBuffers s)) dc"

definition streamVia :: "routeEnv \<Rightarrow> nat \<Rightarrow> string \<Rightarrow> loopState \<Rightarrow> (nat \<Rightarrow> int list) \<Rightarrow> bytes routeResult" where
  "streamVia R i tag s dc = (case findOutbound R NetworkTCP ''TCP'' tag of
     Inl e \<Rightarrow> failed e (lsBuffers s) dc
   | Inr ob \<Rightarrow> streamOutbound R (Some i) (Some ob) s dc)"

definition routeStream ::
  "routeEnv \<Rightarrow> int \<Rightarrow> (nat \<Rightarrow> int list) \<Rightarrow> (nat \<times> rule) option \<Rightarrow> loopState \<Rightarrow> bytes routeResult" where
  "routeStream R now dc sel s = (case sel of
     None \<Rightarrow>
       (if NetworkTCP \<notin> set (obNetwork (defaultOutbound R))
        then failed (ENew (''TCP is not supported by default outbound: '' @ obTag (defaultOutbound R))) (lsBuffers s) dc
        else streamOutbound R None (Some (defaultOutbound R)) s dc)
   | Some (i, r) \<Rightarrow>
       (case rule_Action r of
          Some (RuleActionRoute tag _) \<Rightarrow> streamVia R i tag s dc
        | Some (RuleActionBypass tag _) \<Rightarrow>
            if tag = [] then streamOutbound R (Some i) None s dc else streamVia R i tag s dc
        | Some (RuleActionReject method noDrop) \<Rightarrow> rejectOutcome ''TCP'' method noDrop i now dc (lsBuffers s)
        | Some RuleActionHijackDNS \<Rightarrow> completed (ToHijackDNS (lsMeta s) (cachedConn (lsBuffers s))) dc
        | _ \<Rightarrow> streamOutbound R (Some i) None s dc))"

definition routeConnection ::
  "routeEnv \<Rightarrow> rule list \<Rightarrow> streamRead list \<Rightarrow> int \<Rightarrow> (nat \<Rightarrow> int list) \<Rightarrow> InboundContext \<Rightarrow> bytes routeResult" where
  "routeConnection R rules sr now dc m0 =
     (if InboundDetour m0 \<noteq> [] then completed (detourOutcome R fst ''TCP'' m0) dc
      else
        let m = m0\<lparr>Network := NetworkTCP\<rparr>
        in case deprecatedDestination R (Fqdn (Destination m)) of
             Some e \<Rightarrow> failed e [] dc
           | None \<Rightarrow>
               if InboundType m = TypeTun \<and> Protocol m = ProtocolDNS
               then completed (ToHijackDNS m InputConn) dc
               else
                 let mr = matchRule R rules False False StreamInput sr [] m
                 in case mrError mr of
                      Some e \<Rightarrow> failed e (mrReleased mr) dc
                    | None \<Rightarrow> routeStream R now dc (mrSelected mr) (mrState mr))"

definition packetOutbound ::
  "routeEnv \<Rightarrow> nat option \<Rightarrow> outbound option \<Rightarrow> loopState \<Rightarrow> (nat \<Rightarrow> int list) \<Rightarrow> packetBuffer routeResult" where
  "packetOutbound R sel ob s dc =
     dispatch R obPacketConnectionHandler sel ob (lsMeta s)
       (if mdFakeIP (lsMeta s)
        then NATPacketConn (cachedConn (lsPackets s)) (OriginDestination (lsMeta s)) (Destination (lsMeta s))
        else cachedConn (lsPackets s)) dc"

definition packetVia :: "routeEnv \<Rightarrow> nat \<Rightarrow> string \<Rightarrow> loopState \<Rightarrow> (nat \<Rightarrow> int list) \<Rightarrow> packetBuffer routeResult" where
  "packetVia R i tag s dc = (case findOutbound R NetworkUDP ''UDP'' tag of
     Inl e \<Rightarrow> failed e (lsPackets s) dc
   | Inr ob \<Rightarrow> packetOutbound R (Some i) (Some ob) s dc)"

definition routePackets ::
  "routeEnv \<Rightarrow> int \<Rightarrow> (nat \<Rightarrow> int list) \<Rightarrow> (nat \<times> rule) option \<Rightarrow> loopState \<Rightarrow> packetBuffer routeResult" where
  "routePackets R now dc sel s = (case sel of
     None \<Rightarrow>
       (if NetworkUDP \<notin> set (obNetwork (defaultOutbound R))
        then failed (ENew (''UDP is not supported by outbound: '' @ obTag (defaultOutbound R))) (lsPackets s) dc
        else packetOutbound R None (Some (defaultOutbound R)) s dc)
   | Some (i, r) \<Rightarrow>
       (case rule_Action r of
          Some (RuleActionRoute tag _) \<Rightarrow> packetVia R i tag s dc
        | Some (RuleActionBypass tag _) \<Rightarrow>
            if tag = [] then packetOutbound R (Some i) None s dc else packetVia R i tag s dc
        | Some (RuleActionReject method noDrop) \<Rightarrow> rejectOutcome ''UDP'' method noDrop i now dc (lsPackets s)
        | Some RuleActionHijackDNS \<Rightarrow> completed (ToHijackDNSPacket (lsMeta s) (lsPackets s)) dc
        | _ \<Rightarrow> packetOutbound R (Some i) None s dc))"

definition routePacketConnection ::
  "routeEnv \<Rightarrow> rule list \<Rightarrow> readResult list \<Rightarrow> int \<Rightarrow> (nat \<Rightarrow> int list) \<Rightarrow> InboundContext \<Rightarrow> packetBuffer routeResult" where
  "routePacketConnection R rules rds now dc m0 =
     (if InboundDetour m0 \<noteq> [] then completed (detourOutcome R snd ''UDP'' m0) dc
      else
        let m = m0\<lparr>Network := NetworkUDP\<rparr>
        in if InboundType m = TypeTun \<and> Protocol m = ProtocolDNS
           then completed (ToHijackDNSPacket m []) dc
           else
             let mr = matchRule R rules False False PacketInput [] rds m
             in case mrError mr of
                  Some e \<Rightarrow> failed e (mrReleasedPackets mr) dc
                | None \<Rightarrow> routePackets R now dc (mrSelected mr) (mrState mr))"

section \<open>Pre-match\<close>

definition DomainStrategyIPv4Only :: uint8 where "DomainStrategyIPv4Only = 3"
definition DomainStrategyIPv6Only :: uint8 where "DomainStrategyIPv6Only = 4"

text \<open>The result of \<^verbatim>\<open>PreMatch\<close>: an error, no decision (\<^verbatim>\<open>nil, nil\<close>), or a direct route through an outbound with,
  for a domain, the address that replaced it.\<close>

datatype preOutcome = PreError routeError | PreNone | PreDirect outbound InboundContext "addr option"

definition directOutbound :: "routeEnv \<Rightarrow> string \<Rightarrow> string \<Rightarrow> (goerror, outbound) result" where
  "directOutbound R network tag = (case outbounds R tag of
     None \<Rightarrow> Err (ENew (''outbound not found: '' @ tag))
   | Some ob \<Rightarrow>
       if network \<notin> set (obNetwork ob) then Err (ENew (network @ '' is not supported by outbound: '' @ tag))
       else if \<not> obDirectRoute ob then Err (EPanic ''interface conversion'')
       else Ok ob)"

definition preResolve :: "routeEnv \<Rightarrow> InboundContext \<Rightarrow> (goerror, InboundContext) result" where
  "preResolve R m =
     (if DestinationAddresses m = [] then
        actionResolve R m
          \<lparr>rsServer = [], rsTimeout = 0,
           rsStrategy = (if saIsIPv4 R (Source m) then DomainStrategyIPv4Only else DomainStrategyIPv6Only),
           rsDisableCache = False, rsDisableOptimisticCache = False, rsRewriteTTL = None,
           rsClientSubnet = \<lparr>pfxAddr = NoAddr, pfxBits = None\<rparr>\<rparr>
      else Ok m)"

definition directConnect :: "routeEnv \<Rightarrow> outbound \<Rightarrow> InboundContext \<Rightarrow> addr option \<Rightarrow> preOutcome" where
  "directConnect R ob m a = (case NewDirectRouteConnection R (obTag ob) m of
     Some e \<Rightarrow> PreError (RouteErr e)
   | None \<Rightarrow> PreDirect ob m a)"

definition preDirect :: "routeEnv \<Rightarrow> outbound \<Rightarrow> InboundContext \<Rightarrow> preOutcome" where
  "preDirect R ob m =
     (if saIsDomain R (Destination m) then
        (case preResolve R m of
           Inl e \<Rightarrow> PreError (RouteErr e)
         | Inr m1 \<Rightarrow>
             (case find (if saIsIPv4 R (Source m1) then Is4 else Is6) (DestinationAddresses m1) of
                None \<Rightarrow>
                  PreError (RouteErr (ENew
                    ((if saIsIPv4 R (Source m1) then ''no IPv4 address found for domain: ''
                      else ''no IPv6 address found for domain: '') @ Fqdn (Destination m1))))
              | Some a \<Rightarrow>
                  directConnect R ob (m1\<lparr>Destination := \<lparr>Addr = a, Port = 0, Fqdn = []\<rparr>\<rparr>) (Some a)))
      else directConnect R ob m None)"

definition preVia :: "routeEnv \<Rightarrow> bool \<Rightarrow> string \<Rightarrow> InboundContext \<Rightarrow> preOutcome" where
  "preVia R hasContext tag m =
     (if \<not> hasContext then PreNone
      else case directOutbound R (Network m) tag of
        Inl e \<Rightarrow> PreError (RouteErr e)
      | Inr ob \<Rightarrow> preDirect R ob m)"

definition preReject ::
  "string \<Rightarrow> bool \<Rightarrow> nat \<Rightarrow> int \<Rightarrow> (nat \<Rightarrow> int list) \<Rightarrow> InboundContext \<Rightarrow> preOutcome \<times> (nat \<Rightarrow> int list)" where
  "preReject method noDrop i now dc m =
     (if Network m = NetworkTCP \<and> method = RuleActionRejectMethodReply
      then (PreError (RouteErr (ENew ''reject method `reply` is not supported for TCP connections'')), dc)
      else if Network m = NetworkUDP \<and> method = RuleActionRejectMethodReply
      then (PreError (RouteErr (ENew ''reject method `reply` is not supported for UDP connections'')), dc)
      else let (r, c) = RuleActionReject_Error method noDrop (dc i) now
           in ((case r of
                  Inl e \<Rightarrow> PreError (RouteErr e)
                | Inr None \<Rightarrow> PreNone
                | Inr (Some e) \<Rightarrow> PreError (RejectedError e)), dc(i := c)))"

definition PreMatch ::
  "routeEnv \<Rightarrow> rule list \<Rightarrow> bool \<Rightarrow> bool \<Rightarrow> int \<Rightarrow> (nat \<Rightarrow> int list) \<Rightarrow> InboundContext \<Rightarrow>
   preOutcome \<times> (nat \<Rightarrow> int list)" where
  "PreMatch R rules supportBypass hasContext now dc m0 =
     (let mr = matchRule R rules True supportBypass NoInput [] [] m0; m = lsMeta (mrState mr)
      in case mrError mr of
           Some e \<Rightarrow> (PreError (RouteErr e), dc)
         | None \<Rightarrow>
             (case mrSelected mr of
                None \<Rightarrow>
                  (if Network m \<noteq> NetworkICMP then PreNone
                   else if Network m \<notin> set (obNetwork (defaultOutbound R))
                   then PreError (RouteErr (ENew (Network m @ '' is not supported by default outbound: '' @
                          obTag (defaultOutbound R))))
                   else if \<not> obDirectRoute (defaultOutbound R) then PreError (RouteErr (EPanic ''interface conversion''))
                   else preDirect R (defaultOutbound R) m, dc)
              | Some (i, r) \<Rightarrow>
                  (case rule_Action r of
                     Some (RuleActionReject method noDrop) \<Rightarrow> preReject method noDrop i now dc m
                   | Some (RuleActionBypass tag _) \<Rightarrow>
                       (if supportBypass then PreError BypassedError else preVia R hasContext tag m, dc)
                   | Some (RuleActionRoute tag _) \<Rightarrow> (preVia R hasContext tag m, dc)
                   | _ \<Rightarrow> (PreNone, dc))))"

end
