(* ===== verification/RouteCorrect.thy ===== *)
theory RouteCorrect
  imports Route "HOL-Library.Multiset"
begin

text \<open>
  Properties of the router: which rule is selected, where a connection can go, what happens to the
  bytes and packets read while sniffing, and that pre-matching agrees with routing.
\<close>

lemmas network_consts = NetworkTCP_def NetworkUDP_def NetworkICMP_def TypeTun_def ProtocolDNS_def

section \<open>Matching leaves the context alone\<close>

lemma evalGroup_frame [simp]: "(snd (evalGroup p q f s))\<lparr>DidMatch := d\<rparr> = (snd s)\<lparr>DidMatch := d\<rparr>"
  by (cases s) (simp add: evalGroup_def Let_def)

lemma evalIPCIDR_frame [simp]: "(snd (evalIPCIDR p q f s))\<lparr>DidMatch := d\<rparr> = (snd s)\<lparr>DidMatch := d\<rparr>"
  by (cases s) (simp add: evalIPCIDR_def Let_def)

lemma baseStateOf_frame [simp]: "(snd (baseStateOf itemM r b m))\<lparr>DidMatch := d\<rparr> = m\<lparr>DidMatch := d\<rparr>"
  by (simp add: baseStateOf_def Let_def)

lemma matchStates_frame [simp]:
  "(snd (abstractDefaultRule_matchStatesWithBase itemM itemStates r m b))\<lparr>DidMatch := d\<rparr> = m\<lparr>DidMatch := d\<rparr>"
proof -
  obtain bs m1 where bs: "baseStateOf itemM r (if invert r then 0 else b) m = (bs, m1)"
    by (cases "baseStateOf itemM r (if invert r then 0 else b) m")
  have m1: "m1\<lparr>DidMatch := d\<rparr> = m\<lparr>DidMatch := d\<rparr>" for d
    using baseStateOf_frame[of d itemM r "if invert r then 0 else b" m] bs by simp
  show ?thesis by (simp add: abstractDefaultRule_matchStatesWithBase_def bs Let_def m1)
qed

lemma rule_Match_frame: "(snd (rule_Match E r m))\<lparr>DidMatch := d\<rparr> = m\<lparr>DidMatch := d\<rparr>"
  by (cases r) (simp_all add: rule_Match.simps defaultRule_matchStatesWithBase_def split_beta Let_def)

lemma ResetRuleCache_did: "ResetRuleCache (m\<lparr>DidMatch := d\<rparr>) = ResetRuleCache m"
  by (simp add: ResetRuleCache_def ResetRuleMatchCache_def)

lemma ResetRuleCache_idem [simp]: "ResetRuleCache (ResetRuleCache m) = ResetRuleCache m"
  by (simp add: ResetRuleCache_def ResetRuleMatchCache_def)

lemma ResetRuleCache_sel [simp]:
  "Network (ResetRuleCache m) = Network m" "Protocol (ResetRuleCache m) = Protocol m"
  "Destination (ResetRuleCache m) = Destination m" "Domain (ResetRuleCache m) = Domain m"
  "SnifferNames (ResetRuleCache m) = SnifferNames m" "SniffError (ResetRuleCache m) = SniffError m"
  "mdFakeIP (ResetRuleCache m) = mdFakeIP m" "Source (ResetRuleCache m) = Source m"
  "DestinationAddresses (ResetRuleCache m) = DestinationAddresses m"
  by (simp_all add: ResetRuleCache_def ResetRuleMatchCache_def)

lemma ResetRuleCache_Match [simp]: "ResetRuleCache (snd (rule_Match E r m)) = ResetRuleCache m"
  using ResetRuleCache_did[where m = "snd (rule_Match E r m)" and d = False]
    ResetRuleCache_did[where m = m and d = False]
  by (simp add: rule_Match_frame)

section \<open>Selection\<close>

text \<open>The actions that end the rule loop.\<close>

definition terminal :: "rule \<Rightarrow> bool" where
  "terminal r \<longleftrightarrow> (case rule_Action r of
     Some (RuleActionRoute _ _) \<Rightarrow> True
   | Some (RuleActionReject _ _) \<Rightarrow> True
   | Some RuleActionHijackDNS \<Rightarrow> True
   | _ \<Rightarrow> False)"

lemma ruleStep_terminal:
  assumes "terminal r"
  shows "\<exists>m. ruleStep R pre sb inp r s =
    (if fst (rule_Match (ruleEnv R) r (ResetRuleCache (lsMeta s))) then Select (s\<lparr>lsMeta := m\<rparr>)
     else Continue (s\<lparr>lsMeta := snd (rule_Match (ruleEnv R) r (ResetRuleCache (lsMeta s)))\<rparr>))"
  using assms
  by (auto simp: ruleStep_def runAction_def selectByType_def terminal_def Let_def action_consts
      split: option.splits rule_action.splits prod.splits)

lemma matchLoop_find:
  assumes "\<forall>r \<in> set rules. terminal r"
  shows "fst (matchLoop R pre sb inp i rules s) =
    Ok (find (\<lambda>(j, r). fst (rule_Match (ruleEnv R) r (ResetRuleCache (lsMeta s)))) (enumerate i rules))"
  using assms
proof (induction rules arbitrary: i s)
  case (Cons r rules)
  obtain m where "ruleStep R pre sb inp r s =
    (if fst (rule_Match (ruleEnv R) r (ResetRuleCache (lsMeta s))) then Select (s\<lparr>lsMeta := m\<rparr>)
     else Continue (s\<lparr>lsMeta := snd (rule_Match (ruleEnv R) r (ResetRuleCache (lsMeta s)))\<rparr>))"
    using ruleStep_terminal[of r R pre sb inp s] Cons.prems by auto
  then show ?case using Cons by simp
qed simp

text \<open>The actions a rule may have when the loop selects it.\<close>

definition selectable :: "bool \<Rightarrow> bool \<Rightarrow> rule_action \<Rightarrow> bool" where
  "selectable pre sb act \<longleftrightarrow> (case act of
     RuleActionBypass ob _ \<Rightarrow> sb \<or> ob \<noteq> []
   | RuleActionSniff _ \<Rightarrow> pre
   | _ \<Rightarrow> actionType act \<in> {RuleActionTypeRoute, RuleActionTypeReject, RuleActionTypeHijackDNS})"

lemma selectByType_cases:
  "selectByType sb act s = Select s \<and> selectable pre sb act \<or> selectByType sb act s = Continue s"
  by (auto simp: selectByType_def selectable_def Let_def action_consts split: rule_action.splits)


lemma selectByType_not_Fatal [simp]: "selectByType sb act s \<noteq> Fatal e s'"
  using selectByType_cases[of sb act s] by auto




section \<open>Bytes and packets read while sniffing\<close>

definition streamData :: "streamRead list \<Rightarrow> bytes" where
  "streamData rds = concat (map (\<lambda>r. case r of ChunkRead b \<Rightarrow> b | _ \<Rightarrow> []) rds)"

definition packetData :: "readResult list \<Rightarrow> packetBuffer list" where
  "packetData rds = concat (map (\<lambda>r. case r of ReadOk b d \<Rightarrow> [(b, d)] | _ \<Rightarrow> []) rds)"

definition sniffRule :: "rule \<Rightarrow> bool" where
  "sniffRule r \<longleftrightarrow> (case rule_Action r of Some (RuleActionSniff _) \<Rightarrow> True | _ \<Rightarrow> False)"

lemma streamData_simps [simp]:
  "streamData [] = []"
  "streamData (ChunkRead b # rds) = b @ streamData rds"
  "streamData (ChunkError # rds) = streamData rds"
  "streamData (DeadlineError # rds) = streamData rds"
  by (simp_all add: streamData_def)

lemma packetData_simps [simp]:
  "packetData [] = []"
  "packetData (ReadOk b d # rds) = (b, d) # packetData rds"
  "packetData (ReadTimeout # rds) = packetData rds"
  "packetData (ReadError e # rds) = packetData rds"
  "packetData (ReadCancelled # rds) = packetData rds"
  by (simp_all add: packetData_def)

lemma PeekStream_conserves:
  "PeekStream R ss bs again err buffer rds m = (err', m', buffer', rds') \<Longrightarrow>
   buffer' @ streamData rds' = buffer @ streamData rds"
proof (induction rds arbitrary: again err buffer m)
  case (Cons r rds)
  show ?case
  proof (cases r)
    case (ChunkRead c)
    obtain e1 m1 where "runSniffers (\<lambda>s md. runStreamSniffer R s md (concat (bs @ [buffer @ c]))) None ss m = (e1, m1)"
      by (cases "runSniffers (\<lambda>s md. runStreamSniffer R s md (concat (bs @ [buffer @ c]))) None ss m")
    then show ?thesis using Cons.prems Cons.IH[of True e1 "buffer @ c" m1] ChunkRead
      by (cases "e1 = Some ErrNeedMoreData") simp_all
  qed (use Cons.prems in simp_all)
qed simp

lemma sniffStream_conserves:
  "sniffStream R sn bs rds m = (m', b, rds') \<Longrightarrow>
   (case b of None \<Rightarrow> [] | Some x \<Rightarrow> x) @ streamData rds' = streamData rds"
  by (auto simp: sniffStream_def Let_def split: prod.splits if_splits dest: PeekStream_conserves)

lemma readLoop_conserves:
  "readLoop R sn ps rds pbs m = (m', pbs', rds', e) \<Longrightarrow> pbs' @ packetData rds' = pbs @ packetData rds"
proof (induction rds arbitrary: pbs m)
  case (Cons r rds)
  show ?case
  proof (cases r)
    case (ReadOk b d)
    obtain e1 m1 where "peekOne R sn ps m b = (e1, m1)"
      by (cases "peekOne R sn ps m b")
    then show ?thesis using Cons.prems Cons.IH[of "pbs @ [(b, d)]" m1] ReadOk
      by (cases "e1 = Some ErrNeedMoreData") simp_all
  qed (use Cons.prems in simp_all)
qed simp

lemma sniffPackets_conserves:
  "sniffPackets R sn [] rds m = (m', pbs', rds', e) \<Longrightarrow> pbs' @ packetData rds' = packetData rds"
  by (auto simp: sniffPackets_def Let_def split: if_splits dest: readLoop_conserves)

lemma storeSniffed_simps [simp]:
  "lsStream (storeSniffed r s) = fst (snd (snd (snd r)))"
  "lsReads (storeSniffed r s) = fst (snd (snd (snd (snd r))))"
  by (cases r; simp add: storeSniffed_def Let_def split: option.splits)+

lemma actionSniff_stream:
  "concat (lsBuffers (storeSniffed (actionSniff R inp sn s) s)) @ streamData (lsStream (storeSniffed (actionSniff R inp sn s) s)) =
   concat (lsBuffers s) @ streamData (lsStream s)"
proof -
  obtain m b rds where sniff: "sniffStream R sn (lsBuffers s) (lsStream s) (lsMeta s) = (m, b, rds)"
    by (cases "sniffStream R sn (lsBuffers s) (lsStream s) (lsMeta s)")
  show ?thesis using sniffStream_conserves[OF sniff]
    by (auto simp: actionSniff_def storeSniffed_def sniff Let_def split: input.splits option.splits prod.splits)
qed

lemma actionSniff_buffers:
  "length (lsBuffers (storeSniffed (actionSniff R inp sn s) s)) \<le> Suc (length (lsBuffers s))"
  by (auto simp: actionSniff_def storeSniffed_def Let_def split: input.splits option.splits prod.splits)

lemma actionSniff_packets:
  assumes "lsPackets s = []"
  shows "lsPackets (storeSniffed (actionSniff R inp sn s) s) @
      packetData (lsReads (storeSniffed (actionSniff R inp sn s) s)) = packetData (lsReads s)"
proof -
  obtain m pbs rds e where sniff: "sniffPackets R sn [] (lsReads s) (lsMeta s) = (m, pbs, rds, e)"
    by (cases "sniffPackets R sn [] (lsReads s) (lsMeta s)")
  show ?thesis using sniffPackets_conserves[OF sniff] assms
    by (auto simp: actionSniff_def storeSniffed_def sniff Let_def split: input.splits option.splits prod.splits)
qed

primrec stepState :: "stepResult \<Rightarrow> loopState" where
  "stepState (Continue s) = s"
| "stepState (Select s) = s"
| "stepState (Fatal e s) = s"

lemma stepState_selectByType [simp]: "stepState (selectByType sb act s) = s"
  using selectByType_cases[of sb act s False] by auto

lemma ruleStep_state:
  obtains (same) m where "stepState (ruleStep R pre sb inp r s) = s\<lparr>lsMeta := m\<rparr>"
  | (sniffed) sn m where "sniffRule r"
      and "stepState (ruleStep R pre sb inp r s) = storeSniffed (actionSniff R inp sn (s\<lparr>lsMeta := m\<rparr>)) (s\<lparr>lsMeta := m\<rparr>)"
proof (cases "fst (rule_Match (ruleEnv R) r (ResetRuleCache (lsMeta s)))")
  case False
  then show ?thesis using same by (simp add: ruleStep_def split_beta Let_def)
next
  case True
  define m0 where "m0 = snd (rule_Match (ruleEnv R) r (ResetRuleCache (lsMeta s)))"
  show ?thesis
  proof (cases "rule_Action r")
    case None
    then show ?thesis using True same by (simp add: ruleStep_def split_beta Let_def)
  next
    case (Some act)
    let ?m = "withOptions R act m0"
    have step: "ruleStep R pre sb inp r s = runAction R pre sb inp act (s\<lparr>lsMeta := m0\<rparr>)"
      using True Some by (simp add: ruleStep_def split_beta Let_def m0_def)
    show ?thesis
    proof (cases act)
      case (RuleActionSniff sn)
      have "stepState (ruleStep R pre sb inp r s) =
        (if pre then s\<lparr>lsMeta := ?m\<rparr>
         else storeSniffed (actionSniff R inp sn (s\<lparr>lsMeta := ?m\<rparr>)) (s\<lparr>lsMeta := ?m\<rparr>))"
        by (simp add: step runAction_def RuleActionSniff Let_def split_beta split: option.split)
      then show ?thesis using same sniffed Some RuleActionSniff by (auto simp: sniffRule_def split: if_splits)
    next
      case (RuleActionResolve rs)
      have "stepState (ruleStep R pre sb inp r s) =
        s\<lparr>lsMeta := (case actionResolve R ?m rs of Inl e \<Rightarrow> ?m | Inr m \<Rightarrow> m)\<rparr>"
        by (simp add: step runAction_def RuleActionResolve Let_def split: sum.split)
      then show ?thesis by (rule same)
    qed (use same[of ?m] step in \<open>simp_all add: runAction_def\<close>)
  qed
qed

lemma matchLoop_invariant:
  assumes "\<And>r s. r \<in> set rules \<Longrightarrow> I s \<Longrightarrow> I (stepState (ruleStep R pre sb inp r s))" and "I s"
  shows "I (snd (matchLoop R pre sb inp i rules s))"
  using assms
proof (induction rules arbitrary: i s)
  case (Cons r rules)
  have "I (stepState (ruleStep R pre sb inp r s))" using Cons.prems by simp
  then show ?case using Cons.IH Cons.prems(1) by (cases "ruleStep R pre sb inp r s") auto
qed simp

lemma matchLoop_stream:
  assumes "s' = snd (matchLoop R pre sb inp i rules s)"
  shows "concat (lsBuffers s') @ streamData (lsStream s') = concat (lsBuffers s) @ streamData (lsStream s)"
proof -
  let ?I = "\<lambda>t. concat (lsBuffers t) @ streamData (lsStream t) = concat (lsBuffers s) @ streamData (lsStream s)"
  have step: "?I (stepState (ruleStep R pre sb inp r t))" if "?I t" for r t
    by (cases rule: ruleStep_state[of R pre sb inp r t])
      (use that actionSniff_stream in \<open>simp_all del: storeSniffed_simps\<close>)
  show ?thesis unfolding assms using matchLoop_invariant[where I = ?I, OF step refl] .
qed

lemma ruleStep_buffers:
  "length (lsBuffers (stepState (ruleStep R pre sb inp r s))) \<le> length (lsBuffers s) + (if sniffRule r then 1 else 0)"
proof (cases rule: ruleStep_state[of R pre sb inp r s])
  case (sniffed sn m)
  then show ?thesis using actionSniff_buffers[of R inp sn "s\<lparr>lsMeta := m\<rparr>"] by simp
qed simp

lemma matchLoop_buffers:
  "length (lsBuffers (snd (matchLoop R pre sb inp i rules s))) \<le> length (lsBuffers s) + length (filter sniffRule rules)"
proof (induction rules arbitrary: i s)
  case (Cons r rules)
  have "length (lsBuffers (snd (matchLoop R pre sb inp i (r # rules) s))) \<le>
      length (lsBuffers (stepState (ruleStep R pre sb inp r s))) + length (filter sniffRule rules)"
    using Cons.IH by (cases "ruleStep R pre sb inp r s") auto
  then show ?case using ruleStep_buffers[of R pre sb inp r s] by (auto split: if_splits)
qed simp

lemma ruleStep_packets:
  assumes "\<not> sniffRule r \<or> lsPackets s = []"
  shows "lsPackets (stepState (ruleStep R pre sb inp r s)) @ packetData (lsReads (stepState (ruleStep R pre sb inp r s))) =
    lsPackets s @ packetData (lsReads s)"
proof (cases rule: ruleStep_state[of R pre sb inp r s])
  case (sniffed sn m)
  then show ?thesis using actionSniff_packets[of "s\<lparr>lsMeta := m\<rparr>" R inp sn] assms
    by (simp del: storeSniffed_simps)
qed simp

lemma ruleStep_no_sniff: "\<not> sniffRule r \<Longrightarrow> lsPackets (stepState (ruleStep R pre sb inp r s)) = lsPackets s"
  by (cases rule: ruleStep_state[of R pre sb inp r s]) simp_all

lemma matchLoop_packets:
  assumes "lsPackets s = [] \<and> length (filter sniffRule rules) \<le> 1 \<or> filter sniffRule rules = []"
  shows "lsPackets (snd (matchLoop R pre sb inp i rules s)) @
      packetData (lsReads (snd (matchLoop R pre sb inp i rules s))) = lsPackets s @ packetData (lsReads s)"
  using assms
proof (induction rules arbitrary: i s)
  case (Cons r rules)
  let ?t = "stepState (ruleStep R pre sb inp r s)"
  have step: "lsPackets ?t @ packetData (lsReads ?t) = lsPackets s @ packetData (lsReads s)"
    using Cons.prems by (intro ruleStep_packets) (auto split: if_splits)
  have "lsPackets ?t = [] \<and> length (filter sniffRule rules) \<le> 1 \<or> filter sniffRule rules = []"
    using Cons.prems ruleStep_no_sniff[of r R pre sb inp s] by (auto split: if_splits)
  from Cons.IH[OF this] step show ?case by (cases "ruleStep R pre sb inp r s") auto
qed simp

lemma matchRule_Ok:
  assumes "mrError (matchRule R rules pre sb inp sr rds m) = None"
  obtains m1 where "resolveFakeIP R (searchNeighbor R (searchProcessInfo R m)) = Ok m1"
    and "matchLoop R pre sb inp 0 rules (startState (setIPVersion R m1) sr rds) =
      (Ok (mrSelected (matchRule R rules pre sb inp sr rds m)), mrState (matchRule R rules pre sb inp sr rds m))"
  using assms by (auto simp: matchRule_def split: sum.splits prod.splits)

lemma matchRule_stream:
  assumes "mrError (matchRule R rules pre sb inp sr rds m) = None"
  shows "concat (lsBuffers (mrState (matchRule R rules pre sb inp sr rds m))) @
      streamData (lsStream (mrState (matchRule R rules pre sb inp sr rds m))) = streamData sr"
    and "length (lsBuffers (mrState (matchRule R rules pre sb inp sr rds m))) \<le> length (filter sniffRule rules)"
proof -
  obtain m1 where loop: "matchLoop R pre sb inp 0 rules (startState (setIPVersion R m1) sr rds) =
      (Ok (mrSelected (matchRule R rules pre sb inp sr rds m)), mrState (matchRule R rules pre sb inp sr rds m))"
    using matchRule_Ok[OF assms] by metis
  show "concat (lsBuffers (mrState (matchRule R rules pre sb inp sr rds m))) @
      streamData (lsStream (mrState (matchRule R rules pre sb inp sr rds m))) = streamData sr"
    using matchLoop_stream[of _ R pre sb inp 0 rules "startState (setIPVersion R m1) sr rds", OF refl] loop
    by (simp add: startState_def)
  show "length (lsBuffers (mrState (matchRule R rules pre sb inp sr rds m))) \<le> length (filter sniffRule rules)"
    using matchLoop_buffers[of R pre sb inp 0 rules "startState (setIPVersion R m1) sr rds"] loop
    by (simp add: startState_def)
qed

lemma matchRule_packets:
  assumes "mrError (matchRule R rules pre sb inp sr rds m) = None" and "length (filter sniffRule rules) \<le> 1"
  shows "lsPackets (mrState (matchRule R rules pre sb inp sr rds m)) @
      packetData (lsReads (mrState (matchRule R rules pre sb inp sr rds m))) = packetData rds"
proof -
  obtain m1 where loop: "matchLoop R pre sb inp 0 rules (startState (setIPVersion R m1) sr rds) =
      (Ok (mrSelected (matchRule R rules pre sb inp sr rds m)), mrState (matchRule R rules pre sb inp sr rds m))"
    using matchRule_Ok[OF assms(1)] by metis
  then show ?thesis
    using matchLoop_packets[of "startState (setIPVersion R m1) sr rds" rules R pre sb inp 0] assms(2)
    by (simp add: startState_def)
qed

section \<open>Dispatch\<close>

text \<open>The outbound a selection stands for: the default outbound without a rule, otherwise the one the
  rule's action names.\<close>

definition chosenOutbound :: "routeEnv \<Rightarrow> (nat \<times> rule) option \<Rightarrow> outbound \<Rightarrow> bool" where
  "chosenOutbound R sel x \<longleftrightarrow> (case sel of
     None \<Rightarrow> x = defaultOutbound R
   | Some (i, r) \<Rightarrow> (case rule_Action r of
        Some (RuleActionRoute tag _) \<Rightarrow> outbounds R tag = Some x
      | Some (RuleActionBypass tag _) \<Rightarrow> tag \<noteq> [] \<and> outbounds R tag = Some x
      | _ \<Rightarrow> False))"

definition accepted :: "routeEnv \<Rightarrow> InboundContext \<Rightarrow> (nat \<times> rule) option \<Rightarrow> outbound \<Rightarrow> bool" where
  "accepted R m sel x \<longleftrightarrow> (\<forall>t \<in> set (trackers R). t m (map_option fst sel) (Some x))"

lemma dispatch_ToOutbound [simp]:
  "rrOutcome (dispatch R h sel ob m c dc) = ToOutbound x b m' c' \<longleftrightarrow>
   (\<forall>t \<in> set (trackers R). t m sel ob) \<and> ob = Some x \<and> b = h x \<and> m' = m \<and> c' = c"
  by (auto simp: dispatch_def completed_def failed_def list_all_iff split: option.splits)

lemma findOutbound_Ok: "findOutbound R n l tag = Inr x \<Longrightarrow> outbounds R tag = Some x \<and> n \<in> set (obNetwork x)"
  by (auto simp: findOutbound_def split: option.splits if_splits)

lemma rejectOutcome_not_dispatched [simp]:
  "rrOutcome (rejectOutcome l me nd i now dc bs) \<noteq> ToOutbound x h m c"
  "rrOutcome (rejectOutcome l me nd i now dc bs) \<noteq> ToHijackDNS m c"
  "rrOutcome (rejectOutcome l me nd i now dc bs) \<noteq> ToInbound t m"
  by (auto simp: rejectOutcome_def failed_def Let_def split: prod.splits sum.splits option.splits)

lemma streamVia_ToOutbound:
  "rrOutcome (streamVia R i tag s dc) = ToOutbound x h m c \<Longrightarrow>
   m = lsMeta s \<and> c = cachedConn (lsBuffers s) \<and> NetworkTCP \<in> set (obNetwork x) \<and> outbounds R tag = Some x \<and>
   (\<forall>t \<in> set (trackers R). t m (Some i) (Some x))"
  by (auto simp: streamVia_def streamOutbound_def failed_def split: sum.splits dest: findOutbound_Ok)

lemma packetVia_ToOutbound:
  "rrOutcome (packetVia R i tag s dc) = ToOutbound x h m c \<Longrightarrow>
   m = lsMeta s \<and> (c = cachedConn (lsPackets s) \<or> (\<exists>o1 d. c = NATPacketConn (cachedConn (lsPackets s)) o1 d)) \<and>
   NetworkUDP \<in> set (obNetwork x) \<and> outbounds R tag = Some x \<and>
   (\<forall>t \<in> set (trackers R). t m (Some i) (Some x))"
  by (auto simp: packetVia_def packetOutbound_def failed_def split: sum.splits dest: findOutbound_Ok)

lemma routeStream_ToOutbound:
  assumes "rrOutcome (routeStream R now dc sel s) = ToOutbound x h m c"
  shows "m = lsMeta s \<and> c = cachedConn (lsBuffers s) \<and> NetworkTCP \<in> set (obNetwork x) \<and>
    chosenOutbound R sel x \<and> accepted R m sel x"
  using assms
  by (auto simp: routeStream_def chosenOutbound_def accepted_def streamOutbound_def failed_def completed_def
      dest!: streamVia_ToOutbound split: option.splits rule_action.splits if_splits)

lemma routePackets_ToOutbound:
  assumes "rrOutcome (routePackets R now dc sel s) = ToOutbound x h m c"
  shows "m = lsMeta s \<and> (c = cachedConn (lsPackets s) \<or> (\<exists>o1 d. c = NATPacketConn (cachedConn (lsPackets s)) o1 d)) \<and>
    NetworkUDP \<in> set (obNetwork x) \<and> chosenOutbound R sel x \<and> accepted R m sel x"
  using assms
  by (auto simp: routePackets_def chosenOutbound_def accepted_def packetOutbound_def failed_def completed_def
      dest!: packetVia_ToOutbound split: option.splits rule_action.splits if_splits)

lemma detour_not_dispatched [simp]: "detourOutcome R f l m \<noteq> ToOutbound x h m' c"
  "detourOutcome R f l m \<noteq> ToHijackDNS m' c"
  by (auto simp: detourOutcome_def split: option.splits)

lemma routeConnection_ToOutbound:
  assumes "rrOutcome (routeConnection R rules sr now dc m) = ToOutbound x h m' c"
  shows "mrError (matchRule R rules False False StreamInput sr [] (m\<lparr>Network := NetworkTCP\<rparr>)) = None"
    and "rrOutcome (routeStream R now dc
      (mrSelected (matchRule R rules False False StreamInput sr [] (m\<lparr>Network := NetworkTCP\<rparr>)))
      (mrState (matchRule R rules False False StreamInput sr [] (m\<lparr>Network := NetworkTCP\<rparr>)))) = ToOutbound x h m' c"
  using assms
  by (auto simp: routeConnection_def Let_def failed_def completed_def split: if_splits option.splits)

lemma routePacketConnection_ToOutbound:
  assumes "rrOutcome (routePacketConnection R rules rds now dc m) = ToOutbound x h m' c"
  shows "mrError (matchRule R rules False False PacketInput [] rds (m\<lparr>Network := NetworkUDP\<rparr>)) = None"
    and "rrOutcome (routePackets R now dc
      (mrSelected (matchRule R rules False False PacketInput [] rds (m\<lparr>Network := NetworkUDP\<rparr>)))
      (mrState (matchRule R rules False False PacketInput [] rds (m\<lparr>Network := NetworkUDP\<rparr>)))) = ToOutbound x h m' c"
  using assms
  by (auto simp: routePacketConnection_def Let_def failed_def completed_def split: if_splits option.splits)

section \<open>Panics\<close>

definition panicFree :: "goerror \<Rightarrow> bool" where
  "panicFree e \<longleftrightarrow> (case e of EPanic _ \<Rightarrow> False | _ \<Rightarrow> True)"














lemma dispatch_panicFree [simp]: "rrOutcome (dispatch R h sel (Some x) m c dc) \<noteq> Failed (RouteErr e)"
  by (simp add: dispatch_def completed_def)




lemma detour_panicFree [simp]: "detourOutcome R f l m \<noteq> Failed (RouteErr (EPanic msg))"
  by (simp add: detourOutcome_def split: option.split)


lemma panicFree_EPanic [simp]: "\<not> panicFree (EPanic msg)"
  by (simp add: panicFree_def)

section \<open>Pre-matching agrees with routing\<close>

lemma searchProcessInfo_Network [simp]: "Network (searchProcessInfo R m) = Network m"
  by (simp add: searchProcessInfo_def Let_def split: option.split sum.split)

lemma searchNeighbor_Network [simp]: "Network (searchNeighbor R m) = Network m"
  by (simp add: searchNeighbor_def Let_def split: option.split)

lemma resolveFakeIP_Network: "resolveFakeIP R m = Ok m1 \<Longrightarrow> Network m1 = Network m"
  by (auto simp: resolveFakeIP_def split: if_splits option.splits)

lemma setIPVersion_Network [simp]: "Network (setIPVersion R m) = Network m"
  by (simp add: setIPVersion_def)

lemma applyRouteOptions_Network [simp]: "Network (applyRouteOptions R ro m) = Network m"
  by (simp add: applyRouteOptions_def Let_def)

lemma withOptions_Network [simp]: "Network (withOptions R act m) = Network m"
  by (simp add: withOptions_def split: option.split)

lemma actionResolve_Network: "actionResolve R m rs = Inr m' \<Longrightarrow> Network m' = Network m"
  by (auto simp: actionResolve_def split: if_splits)

lemma rule_Match_Network [simp]: "Network (snd (rule_Match E r m)) = Network m"
proof -
  have "Network ((snd (rule_Match E r m))\<lparr>DidMatch := False\<rparr>) = Network (m\<lparr>DidMatch := False\<rparr>)"
    by (simp only: rule_Match_frame)
  then show ?thesis by simp
qed

text \<open>A step of the pre-match loop on a connection that is not ICMP: sniffing would have ended it, so the
  same step of the routing loop has the same result.\<close>

lemma preStep:
  assumes "ruleStep R True sb NoInput r s = res" and "Network (lsMeta s) \<noteq> NetworkICMP"
    and "lsMeta t = lsMeta s"
  shows "res = Continue s1 \<Longrightarrow> Network (lsMeta s1) = Network (lsMeta s) \<and>
      (\<exists>t1. ruleStep R False False inp r t = Continue t1 \<and> lsMeta t1 = lsMeta s1)"
    and "res = Select s1 \<Longrightarrow> rule_Action r = Some (RuleActionReject me nd) \<Longrightarrow>
      (\<exists>t1. ruleStep R False False inp r t = Select t1 \<and> lsMeta t1 = lsMeta s1)"
  using assms
  by (auto simp: ruleStep_def runAction_def selectByType_def Let_def split_beta action_consts
      split: if_splits option.splits rule_action.splits sum.splits dest: actionResolve_Network)

lemma preLoop:
  assumes "matchLoop R True sb NoInput i rules s = (Ok (Some (j, r)), s1)"
    and "rule_Action r = Some (RuleActionReject me nd)"
    and "Network (lsMeta s) \<noteq> NetworkICMP" and "lsMeta t = lsMeta s"
  shows "\<exists>t1. matchLoop R False False inp i rules t = (Ok (Some (j, r)), t1) \<and> lsMeta t1 = lsMeta s1"
  using assms
proof (induction rules arbitrary: i s t)
  case (Cons q rules)
  note pre = preStep[OF refl Cons.prems(3,4), where R = R and sb = sb and r = q and inp = inp]
  show ?case
  proof (cases "ruleStep R True sb NoInput q s")
    case (Continue s2)
    with pre(1) obtain t2 where t2: "ruleStep R False False inp q t = Continue t2" "lsMeta t2 = lsMeta s2"
        "Network (lsMeta s2) = Network (lsMeta s)"
      by blast
    then show ?thesis using Cons.IH[of "Suc i" s2 t2] Cons.prems Continue by simp
  next
    case (Select s2)
    then show ?thesis using pre(2)[OF Select] Cons.prems by auto
  qed (use Cons.prems in simp)
qed simp

lemma preMatchRule:
  fixes rules :: "rule list"
  assumes "mrError (matchRule R rules True sb NoInput [] [] m) = None"
    and "mrSelected (matchRule R rules True sb NoInput [] [] m) = Some (i, r)"
    and "rule_Action r = Some (RuleActionReject me nd)" and "Network m \<in> {NetworkTCP, NetworkUDP}"
  shows "mrError (matchRule R rules False False inp sr rds m) = None \<and>
    mrSelected (matchRule R rules False False inp sr rds m) = Some (i, r)"
proof -
  obtain m1 where m1: "resolveFakeIP R (searchNeighbor R (searchProcessInfo R m)) = Ok m1"
    and loop0: "matchLoop R True sb NoInput 0 rules (startState (setIPVersion R m1) [] []) =
      (Ok (mrSelected (matchRule R rules True sb NoInput [] [] m)), mrState (matchRule R rules True sb NoInput [] [] m))"
    using assms(1) by (rule matchRule_Ok)
  note loop = loop0[unfolded assms(2)]
  have "Network (setIPVersion R m1) = Network m" using resolveFakeIP_Network[OF m1] by simp
  then have "Network (lsMeta (startState (setIPVersion R m1) [] [])) \<noteq> NetworkICMP"
    using assms(4) by (auto simp: startState_def network_consts)
  moreover have "lsMeta (startState (setIPVersion R m1) sr rds) = lsMeta (startState (setIPVersion R m1) [] [])"
    by (simp add: startState_def)
  ultimately obtain t1 where
    "matchLoop R False False inp 0 rules (startState (setIPVersion R m1) sr rds) = (Ok (Some (i, r)), t1)"
    using preLoop[OF loop assms(3)] by blast
  then show ?thesis using m1 by (simp add: matchRule_def)
qed

lemma PreMatch_rejected:
  assumes "PreMatch R rules sb hc now dc m = (PreError (RejectedError e), dc')"
  obtains i r me nd where "mrError (matchRule R rules True sb NoInput [] [] m) = None"
    and "mrSelected (matchRule R rules True sb NoInput [] [] m) = Some (i, r)"
    and "rule_Action r = Some (RuleActionReject me nd)"
    and "preReject me nd i now dc (lsMeta (mrState (matchRule R rules True sb NoInput [] [] m))) =
      (PreError (RejectedError e), dc')"
  using assms
  by (auto simp: PreMatch_def preVia_def preDirect_def directConnect_def Let_def
      split: option.splits if_splits rule_action.splits sum.splits prod.splits)

lemma preReject_rejected:
  "preReject me nd i now dc m = (PreError (RejectedError e), dc') \<Longrightarrow>
   RuleActionReject_Error me nd (dc i) now = (Ok (Some e), dc' i) \<and> dc' = dc(i := dc' i) \<and>
   me \<noteq> RuleActionRejectMethodReply"
  by (auto simp: preReject_def Let_def RuleActionReject_Error_def reject_consts
      split: if_splits prod.splits sum.splits option.splits)

lemma rejectOutcome_error:
  "RuleActionReject_Error me nd (dc i) now = (Ok (Some e), c) \<Longrightarrow> me \<noteq> RuleActionRejectMethodReply \<Longrightarrow>
   rejectOutcome l me nd i now dc bs = \<lparr>rrOutcome = Failed (RejectedError e), rrReleased = bs, rrCounters = dc(i := c)\<rparr>"
  by (simp add: rejectOutcome_def)

section \<open>Properties\<close>

text \<open>A router with two outbounds and no further services, for the examples: every stream sniffer asks for
  nothing and fails, every packet sniffer asks for more data.\<close>

definition directOut :: outbound where
  "directOut = \<lparr>obTag = ''direct'', obNetwork = [''tcp'', ''udp'', ''icmp''], obConnectionHandler = False,
     obPacketConnectionHandler = False, obDirectRoute = True\<rparr>"

definition proxyOut :: outbound where
  "proxyOut = \<lparr>obTag = ''proxy'', obNetwork = [''tcp'', ''udp''], obConnectionHandler = True,
     obPacketConnectionHandler = True, obDirectRoute = False\<rparr>"

definition exampleRouter :: routeEnv where
  "exampleRouter = \<lparr>ruleEnv = exampleEnv, saIsIPv4 = (\<lambda>a. Is4 (Addr a)), saIsDomain = (\<lambda>a. Fqdn a \<noteq> []),
     saIsValid = (\<lambda>a. addrIsValid (Addr a) \<or> Fqdn a \<noteq> []), IsDomainName = (\<lambda>d. d \<noteq> []),
     processSearcher = None, MyInterfaceAddress = None, neighbors = None, fakeIP = None,
     LookupReverseMapping = (\<lambda>_. None), Transport = (\<lambda>_. False), dnsLookup = (\<lambda>_ _ _. Ok [IP4 1]),
     inbounds = (\<lambda>_. None), outbounds = (\<lambda>t. if t = ''proxy'' then Some proxyOut else None),
     defaultOutbound = directOut,
     runStreamSniffer = (\<lambda>_ m _. (Some OtherSniffError, m)), runPacketSniffer = (\<lambda>_ m _. (Some ErrNeedMoreData, m)),
     NewDirectRouteConnection = (\<lambda>_ _. None), trackers = [],
     muxFqdn = ''sp.mux.sing-box.arpa'', vmessMuxFqdn = ''v1.mux.cool'',
     uotMagicAddress = ''sp.v2.udp-over-tcp.arpa'', uotLegacyMagicAddress = ''sp.udp-over-tcp.arpa''\<rparr>"

definition noRouteOptions :: RouteOptions where
  "noRouteOptions = \<lparr>roOverrideAddress = \<lparr>Addr = NoAddr, Port = 0, Fqdn = []\<rparr>, roOverridePort = 0,
     roNetworkStrategy = None, roNetworkType = [], roFallbackNetworkType = [], roFallbackDelay = 0,
     roUDPDisableDomainUnmapping = False, roUDPConnect = False, roUDPTimeout = 0, roTLSFragment = False,
     roTLSFragmentFallbackDelay = 0, roTLSRecordFragment = False, roTLSSpoof = [], roTLSSpoofMethod = 0\<rparr>"

definition sniffOnly :: "string \<Rightarrow> SniffOptions" where
  "sniffOnly name = \<lparr>snSnifferNames = [name], snStreamSniffers = [HTTPHost], snPacketSniffers = [QUICClientHello],
     snTimeout = 0, snOverrideDestination = False\<rparr>"

text \<open>Rules that always and never match: an empty conjunction and an empty disjunction.\<close>

definition allRule :: "rule_action \<Rightarrow> rule" where
  "allRule act = LogicalRule [] LogicalTypeAnd False (Some act)"

definition noRule :: "rule_action \<Rightarrow> rule" where
  "noRule act = LogicalRule [] LogicalTypeOr False (Some act)"

lemma rule_Match_allRule [simp]: "rule_Match E (allRule act) m = (True, m)"
  using rrule.logical_matches[of E "[]" LogicalTypeAnd False m] by (simp add: allRule_def rule_Match.simps)

lemma rule_Match_noRule [simp]: "rule_Match E (noRule act) m = (False, m)"
  using rrule.logical_matches[of E "[]" LogicalTypeOr False m] by (simp add: noRule_def rule_Match.simps type_consts)

lemma rule_Action_example [simp]: "rule_Action (allRule act) = Some act" "rule_Action (noRule act) = Some act"
  by (simp_all add: allRule_def noRule_def)

lemma exampleRouter_sel [simp]:
  "ruleEnv exampleRouter = exampleEnv" "saIsIPv4 exampleRouter a \<longleftrightarrow> Is4 (Addr a)"
  "saIsDomain exampleRouter a \<longleftrightarrow> Fqdn a \<noteq> []" "saIsValid exampleRouter a \<longleftrightarrow> addrIsValid (Addr a) \<or> Fqdn a \<noteq> []"
  "processSearcher exampleRouter = None" "neighbors exampleRouter = None" "fakeIP exampleRouter = None"
  "LookupReverseMapping exampleRouter x = None" "inbounds exampleRouter t = None"
  "outbounds exampleRouter t = (if t = ''proxy'' then Some proxyOut else None)"
  "defaultOutbound exampleRouter = directOut" "runStreamSniffer exampleRouter ss m b = (Some OtherSniffError, m)"
  "runPacketSniffer exampleRouter ps m b = (Some ErrNeedMoreData, m)" "NewDirectRouteConnection exampleRouter t m = None"
  "trackers exampleRouter = []" "dnsLookup exampleRouter m d rs = Ok [IP4 1]"
  by (simp_all add: exampleRouter_def)

lemma exampleContext_sel [simp]:
  "Network exampleContext = ''tcp''" "Protocol exampleContext = []" "InboundDetour exampleContext = []"
  "InboundType exampleContext = []" "Destination exampleContext = \<lparr>Addr = NoAddr, Port = 443, Fqdn = ''example.org''\<rparr>"
  "Domain exampleContext = []" "SnifferNames exampleContext = []" "SniffError exampleContext = None"
  "mdFakeIP exampleContext = False" "exampleContext\<lparr>Network := ''tcp''\<rparr> = exampleContext"
  "ResetRuleCache exampleContext = exampleContext"
  by (simp_all add: exampleContext_def noInboundContext_def ResetRuleCache_def ResetRuleMatchCache_def)

lemma deprecated_example [simp]: "deprecatedDestination exampleRouter ''example.org'' = None"
  by (simp add: deprecatedDestination_def exampleRouter_def)

lemma noRouteOptions_apply [simp]: "applyRouteOptions exampleRouter noRouteOptions m = m"
  by (simp add: applyRouteOptions_def noRouteOptions_def addrIsValid_def)

lemma matchRule_example:
  "matchRule exampleRouter rules pre sb inp sr rds (exampleContext\<lparr>Network := n\<rparr>) =
   (case matchLoop exampleRouter pre sb inp 0 rules (startState (exampleContext\<lparr>Network := n\<rparr>) sr rds) of
      (Inl e, s) \<Rightarrow> \<lparr>mrSelected = None, mrError = Some e, mrState = s\<lparr>lsBuffers := [], lsPackets := []\<rparr>,
                       mrReleased = releasedOn e (lsBuffers s), mrReleasedPackets = releasedOn e (lsPackets s)\<rparr>
    | (Inr sel, s) \<Rightarrow> \<lparr>mrSelected = sel, mrError = None, mrState = s, mrReleased = [], mrReleasedPackets = []\<rparr>)"
  by (simp add: matchRule_def resolveFakeIP_def inFakeRange_def searchNeighbor_def searchProcessInfo_def
      setIPVersion_def exampleEnv_def addrIsValid_def)

lemmas loop_simps = startState_def ruleStep_def runAction_def withOptions_def ruleOptionsOf_def selectByType_def
  network_consts action_consts actionSniff_def sniffSkip_def sniffStream_def sniffPackets_def sniffOnly_def
  previousError_def joinErrors_def storeSniffed_def peekOne_def quicMoreData_def PeekPacket_def

lemmas dispatch_simps = routeConnection_def routeStream_def streamVia_def streamOutbound_def findOutbound_def
  routePacketConnection_def routePackets_def packetVia_def packetOutbound_def
  dispatch_def completed_def cachedConn_def proxyOut_def directOut_def

text \<open>
  C12: First match.  When every rule's action ends the loop (\<^verbatim>\<open>route\<close>, \<^verbatim>\<open>reject\<close>, \<^verbatim>\<open>hijack-dns\<close>), \<^verbatim>\<open>matchRule\<close>
  raises no error and selects exactly the first rule of the configured list that matches the completed context.
\<close>

theorem first_matching_rule:
  assumes "\<forall>r \<in> set rules. terminal r"
    and "resolveFakeIP R (searchNeighbor R (searchProcessInfo R m)) = Ok m1"
  shows "mrError (matchRule R rules pre sb inp sr rds m) = None \<and>
    mrSelected (matchRule R rules pre sb inp sr rds m) =
      find (\<lambda>(i, r). fst (rule_Match (ruleEnv R) r (ResetRuleCache (setIPVersion R m1)))) (enumerate 0 rules)"
  using matchLoop_find[OF assms(1), of R pre sb inp 0 "startState (setIPVersion R m1) sr rds"] assms(2)
  by (auto simp: matchRule_def startState_def split: prod.splits sum.splits)

theorem first_matching_rule_witness:
  "mrSelected (matchRule exampleRouter
     [noRule RuleActionHijackDNS, allRule (RuleActionRoute ''proxy'' noRouteOptions), allRule RuleActionHijackDNS]
     False False StreamInput [] [] exampleContext) =
   Some (1, allRule (RuleActionRoute ''proxy'' noRouteOptions))"
proof -
  let ?rules = "[noRule RuleActionHijackDNS, allRule (RuleActionRoute ''proxy'' noRouteOptions), allRule RuleActionHijackDNS]"
  have "\<forall>r \<in> set ?rules. terminal r" by (simp add: terminal_def)
  moreover have "resolveFakeIP exampleRouter (searchNeighbor exampleRouter (searchProcessInfo exampleRouter exampleContext)) =
      Ok exampleContext"
    by (simp add: resolveFakeIP_def inFakeRange_def searchNeighbor_def searchProcessInfo_def)
  ultimately show ?thesis
    using first_matching_rule[of ?rules exampleRouter exampleContext exampleContext False False StreamInput "[]" "[]"]
    by simp
qed

text \<open>
  C13: A connection reaches an outbound only with a reason: no error occurred, the outbound is the one the
  selected rule names (or the default outbound, exactly when no rule was selected), it supports the network
  of the connection, and every tracker accepted the connection.  In particular a \<^verbatim>\<open>reject\<close> or \<^verbatim>\<open>hijack-dns\<close>
  rule never leads to an outbound.
\<close>

theorem outbound_has_reason:
  "(rrOutcome (routeConnection R rules sr now dc m) = ToOutbound x h m' c \<longrightarrow>
     (let mr = matchRule R rules False False StreamInput sr [] (m\<lparr>Network := NetworkTCP\<rparr>) in
      mrError mr = None \<and> chosenOutbound R (mrSelected mr) x \<and> NetworkTCP \<in> set (obNetwork x) \<and>
      m' = lsMeta (mrState mr) \<and> accepted R m' (mrSelected mr) x)) \<and>
   (rrOutcome (routePacketConnection R rules rds now dc m) = ToOutbound x h m' c' \<longrightarrow>
     (let mr = matchRule R rules False False PacketInput [] rds (m\<lparr>Network := NetworkUDP\<rparr>) in
      mrError mr = None \<and> chosenOutbound R (mrSelected mr) x \<and> NetworkUDP \<in> set (obNetwork x) \<and>
      m' = lsMeta (mrState mr) \<and> accepted R m' (mrSelected mr) x))"
  unfolding Let_def
  using routeConnection_ToOutbound[of R rules sr now dc m x h m' c]
    routePacketConnection_ToOutbound[of R rules rds now dc m x h m' c']
    routeStream_ToOutbound[of R now dc _ _ x h m' c] routePackets_ToOutbound[of R now dc _ _ x h m' c']
  by blast

theorem outbound_has_reason_witness:
  "(\<exists>c. rrOutcome (routeConnection exampleRouter [allRule (RuleActionRoute ''proxy'' noRouteOptions)] [] 0 (\<lambda>_. [])
      exampleContext) = ToOutbound proxyOut True exampleContext c) \<and>
   chosenOutbound exampleRouter (Some (0, allRule (RuleActionRoute ''proxy'' noRouteOptions))) proxyOut"
proof -
  let ?rules = "[allRule (RuleActionRoute ''proxy'' noRouteOptions)]"
  let ?mr = "matchRule exampleRouter ?rules False False StreamInput [] [] exampleContext"
  have net: "exampleContext\<lparr>Network := NetworkTCP\<rparr> = exampleContext" by (simp add: NetworkTCP_def)
  have sel: "mrSelected ?mr = Some (0, allRule (RuleActionRoute ''proxy'' noRouteOptions))"
    using matchRule_example[where n = "''tcp''"] by (simp add: loop_simps)
  have out: "rrOutcome (routeConnection exampleRouter ?rules [] 0 (\<lambda>_. []) exampleContext) =
      ToOutbound proxyOut True exampleContext InputConn"
    using matchRule_example[where n = "''tcp''"] by (simp add: loop_simps dispatch_simps)
  then have "chosenOutbound exampleRouter (mrSelected ?mr) proxyOut"
    using outbound_has_reason[of exampleRouter ?rules "[]" 0 "\<lambda>_. []" exampleContext proxyOut True exampleContext InputConn]
    unfolding Let_def net by blast
  then show ?thesis using out sel by auto
qed

text \<open>
  C15: Sniffing loses no bytes.  With at most one \<^verbatim>\<open>sniff\<close> rule, what the outbound reads from the connection it
  is given is exactly the stream that came in: the bytes consumed by the sniffers come first, then the
  unread rest.  The hypotheses on \<open>readAll\<close> state how a cached connection is read: its buffer, then
  the connection it wraps.
\<close>

theorem sniffed_stream_intact:
  assumes "length (filter sniffRule rules) \<le> 1"
    and "rrOutcome (routeConnection R rules sr now dc m) = ToOutbound x h m' c"
    and cached: "\<And>c b. readAll (CachedConn c b) = b @ readAll c"
    and rest: "readAll InputConn =
      streamData (lsStream (mrState (matchRule R rules False False StreamInput sr [] (m\<lparr>Network := NetworkTCP\<rparr>))))"
  shows "readAll c = streamData sr"
proof -
  let ?mr = "matchRule R rules False False StreamInput sr [] (m\<lparr>Network := NetworkTCP\<rparr>)"
  note out = routeConnection_ToOutbound[OF assms(2)]
  have c: "c = cachedConn (lsBuffers (mrState ?mr))" using routeStream_ToOutbound[OF out(2)] by simp
  have "length (lsBuffers (mrState ?mr)) \<le> 1" using matchRule_stream(2)[OF out(1)] assms(1) by linarith
  then consider "lsBuffers (mrState ?mr) = []" | b where "lsBuffers (mrState ?mr) = [b]"
    by (cases "lsBuffers (mrState ?mr)") auto
  then show ?thesis
    using matchRule_stream(1)[OF out(1)] by cases (auto simp: c cachedConn_def cached rest)
qed

text \<open>Reading a connection as the documentation of the cached connections says.\<close>

primrec replayStream :: "bytes \<Rightarrow> bytes conn \<Rightarrow> bytes" where
  "replayStream rest InputConn = rest"
| "replayStream rest (CachedConn c b) = b @ replayStream rest c"
| "replayStream rest (NATPacketConn c o1 d) = replayStream rest c"

theorem sniffed_stream_intact_witness:
  "\<exists>m c. rrOutcome (routeConnection exampleRouter [allRule (RuleActionSniff (sniffOnly ''http''))]
      [ChunkRead [1, 2], ChunkRead [3]] 0 (\<lambda>_. []) exampleContext) = ToOutbound directOut False m c \<and>
    c = CachedConn InputConn [1, 2] \<and> replayStream [3] c = [1, 2, 3]"
proof -
  let ?rules = "[allRule (RuleActionSniff (sniffOnly ''http''))]" and ?sr = "[ChunkRead [1, 2], ChunkRead [3]]"
  have rest: "streamData (lsStream (mrState (matchRule exampleRouter ?rules False False StreamInput ?sr []
      (exampleContext\<lparr>Network := NetworkTCP\<rparr>)))) = [3]"
    using matchRule_example[where n = "''tcp''"] by (simp add: loop_simps)
  obtain m where out: "rrOutcome (routeConnection exampleRouter ?rules ?sr 0 (\<lambda>_. []) exampleContext) =
      ToOutbound directOut False m (CachedConn InputConn [1, 2])"
    using matchRule_example[where n = "''tcp''"] by (simp add: loop_simps dispatch_simps)
  have "replayStream [3] (CachedConn InputConn [1, 2]) = streamData ?sr"
    using sniffed_stream_intact[OF _ out, of "replayStream [3]"] rest by (simp add: sniffRule_def)
  then show ?thesis using out by auto
qed

text \<open>With two \<^verbatim>\<open>sniff\<close> rules the wrapping order matters: the buffer of the second one is wrapped outermost
  and is read before the bytes that came in first.\<close>

lemma cachedConn_reversed:
  assumes "\<And>c b. readAll (CachedConn c b) = b @ readAll c"
  shows "readAll (cachedConn bs) = concat (rev bs) @ readAll InputConn"
proof -
  have "readAll (fold (\<lambda>b c. CachedConn c b) bs c) = concat (rev bs) @ readAll c" for c
    by (induction bs arbitrary: c) (simp_all add: assms)
  then show ?thesis by (simp add: cachedConn_def)
qed


text \<open>
  C16: Sniffing loses and repeats no packets.  With at most one \<^verbatim>\<open>sniff\<close> rule, the payloads an outbound reads
  from the packet connection it is given are those that came in, each as often as it came.
\<close>

theorem sniffed_packets_delivered:
  assumes "length (filter sniffRule rules) \<le> 1"
    and "rrOutcome (routePacketConnection R rules rds now dc m) = ToOutbound x h m' c"
    and cached: "\<And>c b d. payloads (CachedConn c (b, d)) = b # payloads c"
    and nat: "\<And>c a d. payloads (NATPacketConn c a d) = payloads c"
    and rest: "payloads InputConn = map fst
      (packetData (lsReads (mrState (matchRule R rules False False PacketInput [] rds (m\<lparr>Network := NetworkUDP\<rparr>)))))"
  shows "mset (payloads c) = mset (map fst (packetData rds))"
proof -
  let ?mr = "matchRule R rules False False PacketInput [] rds (m\<lparr>Network := NetworkUDP\<rparr>)"
  note out = routePacketConnection_ToOutbound[OF assms(2)]
  have fold: "mset (payloads (fold (\<lambda>b c. CachedConn c b) bs c)) = mset (map fst bs) + mset (payloads c)" for bs c
    by (induction bs arbitrary: c) (auto simp: cached)
  have "mset (payloads c) = mset (map fst (lsPackets (mrState ?mr))) + mset (payloads InputConn)"
    using routePackets_ToOutbound[OF out(2)] fold[of "lsPackets (mrState ?mr)" InputConn]
    by (auto simp: nat cachedConn_def)
  also have "\<dots> = mset (map fst (lsPackets (mrState ?mr) @ packetData (lsReads (mrState ?mr))))"
    by (simp add: rest)
  finally show ?thesis by (simp only: matchRule_packets[OF out(1) assms(1)])
qed

primrec replayPackets :: "bytes list \<Rightarrow> packetBuffer conn \<Rightarrow> bytes list" where
  "replayPackets rest InputConn = rest"
| "replayPackets rest (CachedConn c p) = fst p # replayPackets rest c"
| "replayPackets rest (NATPacketConn c o1 d) = replayPackets rest c"

theorem sniffed_packets_delivered_witness:
  "\<exists>m c. rrOutcome (routePacketConnection exampleRouter [allRule (RuleActionSniff (sniffOnly ''quic''))]
      [ReadOk [1] noSocksaddr, ReadOk [2] noSocksaddr, ReadTimeout, ReadOk [3] noSocksaddr] 0 (\<lambda>_. []) exampleContext) =
        ToOutbound directOut False m c \<and>
    mset (replayPackets [[3]] c) = {#[1], [2], [3]#}"
proof -
  let ?rules = "[allRule (RuleActionSniff (sniffOnly ''quic''))]"
  let ?rds = "[ReadOk [1] noSocksaddr, ReadOk [2] noSocksaddr, ReadTimeout, ReadOk [3] noSocksaddr]"
  have rest: "packetData (lsReads (mrState (matchRule exampleRouter ?rules False False PacketInput [] ?rds
      (exampleContext\<lparr>Network := NetworkUDP\<rparr>)))) = [([3], noSocksaddr)]"
    by (simp add: matchRule_example loop_simps)
  obtain m c where out: "rrOutcome (routePacketConnection exampleRouter ?rules ?rds 0 (\<lambda>_. []) exampleContext) =
      ToOutbound directOut False m c"
    by (simp add: matchRule_example loop_simps dispatch_simps)
  have "mset (replayPackets [[3]] c) = mset (map fst (packetData ?rds))"
    using sniffed_packets_delivered[OF _ out, of "replayPackets [[3]]"] rest by (simp add: sniffRule_def)
  then show ?thesis using out by auto
qed





text \<open>
  C14: Pre-matching is consistent with routing.  When \<^verbatim>\<open>PreMatch\<close> rejects a TCP or UDP connection before it is
  accepted, routing the same connection at that time would have rejected it with the same error and the same effect on the
  drop counters, whatever the connection's data.
\<close>

theorem prematch_reject_consistent:
  assumes "PreMatch R rules sb hc now dc m = (PreError (RejectedError e), dc')"
    and "InboundDetour m = []" and "\<not> (InboundType m = TypeTun \<and> Protocol m = ProtocolDNS)"
  shows "(Network m = NetworkTCP \<and> deprecatedDestination R (Fqdn (Destination m)) = None \<longrightarrow>
      rrOutcome (routeConnection R rules sr now dc m) = Failed (RejectedError e) \<and>
      rrCounters (routeConnection R rules sr now dc m) = dc') \<and>
    (Network m = NetworkUDP \<longrightarrow>
      rrOutcome (routePacketConnection R rules rds now dc m) = Failed (RejectedError e) \<and>
      rrCounters (routePacketConnection R rules rds now dc m) = dc')"
proof -
  obtain i r me nd where pre: "mrError (matchRule R rules True sb NoInput [] [] m) = None"
      "mrSelected (matchRule R rules True sb NoInput [] [] m) = Some (i, r)"
      "rule_Action r = Some (RuleActionReject me nd)"
    and rej: "preReject me nd i now dc (lsMeta (mrState (matchRule R rules True sb NoInput [] [] m))) =
      (PreError (RejectedError e), dc')"
    using PreMatch_rejected[OF assms(1)] by blast
  have m: "m\<lparr>Network := n\<rparr> = m" if "Network m = n" for n using that by auto
  note rej = preReject_rejected[OF rej]
  have out: "rejectOutcome l me nd i now dc bs = \<lparr>rrOutcome = Failed (RejectedError e), rrReleased = bs, rrCounters = dc'\<rparr>"
    for l and bs :: "'b list"
    using rejectOutcome_error[of me nd dc i now e "dc' i"] rej by metis
  show ?thesis
    using assms(2,3) preMatchRule[OF pre, where inp = StreamInput and sr = sr and rds = "[]"]
      preMatchRule[OF pre, where inp = PacketInput and sr = "[]" and rds = rds]
    by (auto simp: routeConnection_def routePacketConnection_def Let_def m routeStream_def routePackets_def pre(3) out)
qed

theorem prematch_reject_consistent_witness:
  "PreMatch exampleRouter [allRule (RuleActionReject ''drop'' False)] False False 0 (\<lambda>_. []) exampleContext =
     (PreError (RejectedError ErrDrop), \<lambda>_. []) \<and>
   rrOutcome (routeConnection exampleRouter [allRule (RuleActionReject ''drop'' False)] [] 0 (\<lambda>_. []) exampleContext) =
     Failed (RejectedError ErrDrop)"
proof -
  have pre: "PreMatch exampleRouter [allRule (RuleActionReject ''drop'' False)] False False 0 (\<lambda>_. []) exampleContext =
     (PreError (RejectedError ErrDrop), \<lambda>_. [])"
    using matchRule_example[where n = "''tcp''"]
    by (simp add: PreMatch_def loop_simps preReject_def RuleActionReject_Error_def reject_consts fun_upd_idem)
  then show ?thesis
    using prematch_reject_consistent[OF pre, of "[]"] by (simp add: network_consts)
qed

end
