(* ===== verification/RuleLife.thy ===== *)
theory RuleLife
  imports RuleBuild "HOL-Library.Multiset"
begin

text \<open>
  Starting and closing rules (\<^verbatim>\<open>rule_abstract.go\<close>, \<^verbatim>\<open>rule_item_rule_set.go\<close>, the \<^verbatim>\<open>Start\<close> methods of the
  items, the reference counts of \<^verbatim>\<open>rule_set_local.go\<close> and \<^verbatim>\<open>rule_set_remote.go\<close>).  A started rule-set
  item holds one reference to each rule-set it resolved; the lemmas account for every reference.
  Methods return the error, if any, the object after the call and the reference counts after it.
\<close>

section \<open>References\<close>

text \<open>The counter of each rule-set, by its name.  The code keeps it in an \<^verbatim>\<open>int32\<close>; it counts rule items
  of the configuration, so the width is not observable.\<close>

type_synonym refcounts = "string \<Rightarrow> int"

definition IncRef :: "rule_set \<Rightarrow> refcounts \<Rightarrow> refcounts" where
  "IncRef s refs = refs(setName s := refs (setName s) + 1)"

definition DecRef :: "rule_set \<Rightarrow> refcounts \<Rightarrow> goerror option \<times> refcounts" where
  "DecRef s refs =
     (let n = refs (setName s) - 1; refs' = refs(setName s := n)
      in (if n < 0 then Some (EPanic ''rule-set: negative refs'') else None, refs'))"

section \<open>Items\<close>

text \<open>What the services registered in the context answer: the rule-set of a tag, and the type and the
  preferred routes or domains of an outbound or a DNS transport.\<close>

record services =
  svcRuleSet :: "string \<Rightarrow> rule_set option"
  svcOutbound :: "string \<Rightarrow> (string \<times> preferredRoutes option) option"
  svcTransport :: "string \<Rightarrow> (string \<times> (string \<Rightarrow> bool) option) option"

fun decRefs :: "rule_set list \<Rightarrow> refcounts \<Rightarrow> goerror option \<times> refcounts" where
  "decRefs [] refs = (None, refs)"
| "decRefs (s # ss) refs = (case DecRef s refs of
     (Some e, refs') \<Rightarrow> (Some e, refs')
   | (None, refs') \<Rightarrow> decRefs ss refs')"

definition RuleSetItem_Close ::
  "ruleSetItem \<Rightarrow> refcounts \<Rightarrow> goerror option \<times> ruleSetItem \<times> refcounts" where
  "RuleSetItem_Close r refs = (case decRefs (setList r) refs of
     (Some e, refs') \<Rightarrow> (Some e, r, refs')
   | (None, refs') \<Rightarrow> (None, r\<lparr>setList := []\<rparr>, refs'))"

fun startSets ::
  "services \<Rightarrow> string list \<Rightarrow> ruleSetItem \<Rightarrow> refcounts \<Rightarrow> goerror option \<times> ruleSetItem \<times> refcounts" where
  "startSets S [] r refs = (None, r, refs)"
| "startSets S (tag # tags) r refs = (case svcRuleSet S tag of
     None \<Rightarrow> (case RuleSetItem_Close r refs of
         (Some e, r', refs') \<Rightarrow> (Some e, r', refs')
       | (None, r', refs') \<Rightarrow> (Some (ENew (''rule-set not found: '' @ tag)), r', refs'))
   | Some s \<Rightarrow> startSets S tags (r\<lparr>setList := setList r @ [s]\<rparr>) (IncRef s refs))"

definition RuleSetItem_Start ::
  "services \<Rightarrow> ruleSetItem \<Rightarrow> refcounts \<Rightarrow> goerror option \<times> ruleSetItem \<times> refcounts" where
  "RuleSetItem_Start S r refs = (case RuleSetItem_Close r refs of
     (Some e, r', refs') \<Rightarrow> (Some e, r', refs')
   | (None, r', refs') \<Rightarrow> startSets S (tagList r') r' refs')"

text \<open>The \<^verbatim>\<open>Start\<close> method of the items that have one.  Starting a \<^verbatim>\<open>clash_mode\<close> item only fetches the
  server, which is part of the parameter \<open>env\<close> of matching.\<close>

fun item_Start :: "services \<Rightarrow> rule_item \<Rightarrow> refcounts \<Rightarrow> goerror option \<times> rule_item \<times> refcounts" where
  "item_Start S (RuleSetItem r) refs =
     (let (e, r', refs') = RuleSetItem_Start S r refs in (e, RuleSetItem r', refs'))"
| "item_Start S (PlainItem (PreferredByItem tags outbounds)) refs =
     (case PreferredByItem_Start (svcOutbound S) tags of
        Inl e \<Rightarrow> (Some e, PlainItem (PreferredByItem tags outbounds), refs)
      | Inr found \<Rightarrow> (None, PlainItem (PreferredByItem tags (outbounds @ found)), refs))"
| "item_Start S (PlainItem (PreferredByDNSItem tags transports)) refs =
     (case PreferredByDNSItem_Start (svcTransport S) tags of
        Inl e \<Rightarrow> (Some e, PlainItem (PreferredByDNSItem tags transports), refs)
      | Inr found \<Rightarrow> (None, PlainItem (PreferredByDNSItem tags (transports @ found)), refs))"
| "item_Start S (PlainItem i) refs = (None, PlainItem i, refs)"

fun item_Close :: "rule_item \<Rightarrow> refcounts \<Rightarrow> goerror option \<times> rule_item \<times> refcounts" where
  "item_Close (RuleSetItem r) refs =
     (let (e, r', refs') = RuleSetItem_Close r refs in (e, RuleSetItem r', refs'))"
| "item_Close (PlainItem i) refs = (None, PlainItem i, refs)"

section \<open>Rules\<close>

text \<open>The loop of the \<^verbatim>\<open>Start\<close> and \<^verbatim>\<open>Close\<close> methods: call the method of each object in turn, stop at the
  first error.\<close>

fun eachUntilError ::
  "('a \<Rightarrow> 's \<Rightarrow> goerror option \<times> 'a \<times> 's) \<Rightarrow> 'a list \<Rightarrow> 's \<Rightarrow> goerror option \<times> 'a list \<times> 's" where
  "eachUntilError f [] s = (None, [], s)"
| "eachUntilError f (x # xs) s = (case f x s of
     (Some e, x', s') \<Rightarrow> (Some e, x' # xs, s')
   | (None, x', s') \<Rightarrow> (let (e, xs', s'') = eachUntilError f xs s' in (e, x' # xs', s'')))"

lemma eachUntilError_cong [fundef_cong]:
  "xs = ys \<Longrightarrow> s = t \<Longrightarrow> (\<And>x s. x \<in> set ys \<Longrightarrow> f x s = g x s) \<Longrightarrow>
   eachUntilError f xs s = eachUntilError g ys t"
proof (induction ys arbitrary: xs s t)
  case (Cons y ys)
  then have "eachUntilError f ys s' = eachUntilError g ys s'" for s' by simp
  with Cons.prems show ?case by (auto split: prod.splits option.splits)
qed simp

text \<open>
  The groups of a rule and \<open>allItems\<close> point to the same objects: an object a method has changed is
  changed in its group too.
\<close>

definition changedItems ::
  "(rule_item \<Rightarrow> rule_item) \<Rightarrow> rule_item abstractDefaultRule \<Rightarrow> rule_item list \<Rightarrow>
   rule_item abstractDefaultRule" where
  "changedItems f r changed = r\<lparr>items := map f (items r), sourceAddressItems := map f (sourceAddressItems r),
     sourcePortItems := map f (sourcePortItems r),
     destinationAddressItems := map f (destinationAddressItems r),
     destinationIPCIDRItems := map f (destinationIPCIDRItems r),
     destinationPortItems := map f (destinationPortItems r),
     ruleSetItem := map_option f (ruleSetItem r), allItems := changed\<rparr>"

text \<open>What an item becomes when its \<^verbatim>\<open>Start\<close> succeeds, and when it is closed.\<close>

definition startedItem :: "services \<Rightarrow> rule_item \<Rightarrow> rule_item" where
  "startedItem S i = (case i of
     RuleSetItem r \<Rightarrow> RuleSetItem (r\<lparr>setList := map (\<lambda>tag. the (svcRuleSet S tag)) (tagList r)\<rparr>)
   | PlainItem p \<Rightarrow> fst (snd (item_Start S (PlainItem p) (\<lambda>_. 0))))"

definition closedItem :: "rule_item \<Rightarrow> rule_item" where
  "closedItem i = (case i of RuleSetItem r \<Rightarrow> RuleSetItem (r\<lparr>setList := []\<rparr>) | PlainItem p \<Rightarrow> PlainItem p)"

text \<open>After a failed start the rule is only ever closed, which reads \<open>allItems\<close>.\<close>

definition abstractDefaultRule_Start ::
  "services \<Rightarrow> rule_item abstractDefaultRule \<Rightarrow> refcounts \<Rightarrow>
   goerror option \<times> rule_item abstractDefaultRule \<times> refcounts" where
  "abstractDefaultRule_Start S r refs = (case eachUntilError (item_Start S) (allItems r) refs of
     (Some e, changed, refs') \<Rightarrow> (Some e, r\<lparr>allItems := changed\<rparr>, refs')
   | (None, changed, refs') \<Rightarrow> (None, changedItems (startedItem S) r changed, refs'))"

definition abstractDefaultRule_Close ::
  "rule_item abstractDefaultRule \<Rightarrow> refcounts \<Rightarrow>
   goerror option \<times> rule_item abstractDefaultRule \<times> refcounts" where
  "abstractDefaultRule_Close r refs = (case eachUntilError item_Close (allItems r) refs of
     (Some e, changed, refs') \<Rightarrow> (Some e, r\<lparr>allItems := changed\<rparr>, refs')
   | (None, changed, refs') \<Rightarrow> (None, changedItems closedItem r changed, refs'))"

fun rule_Start :: "services \<Rightarrow> rule \<Rightarrow> refcounts \<Rightarrow> goerror option \<times> rule \<times> refcounts" where
  "rule_Start S (DefaultRule r) refs =
     (let (e, r', refs') = abstractDefaultRule_Start S r refs in (e, DefaultRule r', refs'))"
| "rule_Start S (LogicalRule rs md neg act) refs =
     (let (e, rs', refs') = eachUntilError (rule_Start S) rs refs in (e, LogicalRule rs' md neg act, refs'))"

fun rule_Close :: "rule \<Rightarrow> refcounts \<Rightarrow> goerror option \<times> rule \<times> refcounts" where
  "rule_Close (DefaultRule r) refs =
     (let (e, r', refs') = abstractDefaultRule_Close r refs in (e, DefaultRule r', refs'))"
| "rule_Close (LogicalRule rs md neg act) refs =
     (let (e, rs', refs') = eachUntilError rule_Close rs refs in (e, LogicalRule rs' md neg act, refs'))"

fun dnsRule_Start :: "services \<Rightarrow> dns_rule \<Rightarrow> refcounts \<Rightarrow> goerror option \<times> dns_rule \<times> refcounts" where
  "dnsRule_Start S (DefaultDNSRule r mr) refs =
     (let (e, r', refs') = abstractDefaultRule_Start S r refs in (e, DefaultDNSRule r' mr, refs'))"
| "dnsRule_Start S (LogicalDNSRule rs md neg act) refs =
     (let (e, rs', refs') = eachUntilError (dnsRule_Start S) rs refs
      in (e, LogicalDNSRule rs' md neg act, refs'))"

fun dnsRule_Close :: "dns_rule \<Rightarrow> refcounts \<Rightarrow> goerror option \<times> dns_rule \<times> refcounts" where
  "dnsRule_Close (DefaultDNSRule r mr) refs =
     (let (e, r', refs') = abstractDefaultRule_Close r refs in (e, DefaultDNSRule r' mr, refs'))"
| "dnsRule_Close (LogicalDNSRule rs md neg act) refs =
     (let (e, rs', refs') = eachUntilError dnsRule_Close rs refs
      in (e, LogicalDNSRule rs' md neg act, refs'))"

section \<open>The references of an object\<close>

text \<open>The rule-sets an object holds a reference to, with multiplicity.\<close>

fun heldItem :: "rule_item \<Rightarrow> string multiset" where
  "heldItem (RuleSetItem r) = mset (map setName (setList r))"
| "heldItem (PlainItem i) = {#}"

definition heldAll :: "('a \<Rightarrow> string multiset) \<Rightarrow> 'a list \<Rightarrow> string multiset" where
  "heldAll held xs = (\<Sum>x\<leftarrow>xs. held x)"

lemma heldAll_simps [simp]:
  "heldAll held [] = {#}" "heldAll held (x # xs) = held x + heldAll held xs"
  "heldAll held (xs @ ys) = heldAll held xs + heldAll held ys"
  by (simp_all add: heldAll_def)

lemma heldAll_cong [fundef_cong]:
  "xs = ys \<Longrightarrow> (\<And>x. x \<in> set ys \<Longrightarrow> f x = g x) \<Longrightarrow> heldAll f xs = heldAll g ys"
  by (auto simp: heldAll_def intro: arg_cong[where f = sum_list])

fun heldRule :: "rule \<Rightarrow> string multiset" where
  "heldRule (DefaultRule r) = heldAll heldItem (allItems r)"
| "heldRule (LogicalRule rs md neg act) = heldAll heldRule rs"

fun heldDNSRule :: "dns_rule \<Rightarrow> string multiset" where
  "heldDNSRule (DefaultDNSRule r mr) = heldAll heldItem (allItems r)"
| "heldDNSRule (LogicalDNSRule rs md neg act) = heldAll heldDNSRule rs"

text \<open>
  The counters are the references of others, \<open>base\<close>, and those of the objects at hand.
\<close>

definition balanced :: "refcounts \<Rightarrow> string multiset \<Rightarrow> refcounts \<Rightarrow> bool" where
  "balanced base held refs \<longleftrightarrow> (\<forall>n. 0 \<le> base n \<and> refs n = base n + int (count held n))"

lemma balanced_shift:
  "balanced base (a + b) refs \<longleftrightarrow> (\<forall>n. 0 \<le> base n) \<and> balanced (\<lambda>n. base n + int (count a n)) b refs"
  by (auto simp: balanced_def add.assoc)

text \<open>
  A method of an object keeps the account: whatever others hold, it does not panic, and afterwards
  the counters are those of the others and what the object holds then.
\<close>

definition accounts ::
  "('a \<Rightarrow> string multiset) \<Rightarrow> ('a \<Rightarrow> refcounts \<Rightarrow> goerror option \<times> 'a \<times> refcounts) \<Rightarrow> 'a \<Rightarrow> bool" where
  "accounts held f x \<longleftrightarrow> (\<forall>base refs e x' refs'. balanced base (held x) refs \<longrightarrow> f x refs = (e, x', refs') \<longrightarrow>
     balanced base (held x') refs' \<and> (\<forall>p. e \<noteq> Some (EPanic p)))"

definition releases ::
  "('a \<Rightarrow> string multiset) \<Rightarrow> ('a \<Rightarrow> refcounts \<Rightarrow> goerror option \<times> 'a \<times> refcounts) \<Rightarrow> 'a \<Rightarrow> bool" where
  "releases held f x \<longleftrightarrow> (\<forall>base refs. balanced base (held x) refs \<longrightarrow>
     (\<exists>x'. f x refs = (None, x', base) \<and> held x' = {#}))"

lemma accountsD:
  assumes "accounts held f x" "balanced base (held x) refs" "f x refs = (e, x', refs')"
  shows "balanced base (held x') refs'" "e \<noteq> Some (EPanic p)"
  using assms by (auto simp: accounts_def)

lemma releasesE:
  assumes "releases held f x" "balanced base (held x) refs"
  obtains x' where "f x refs = (None, x', base)" "held x' = {#}"
  using assms by (auto simp: releases_def)

lemma accounts_each:
  assumes "\<And>x. x \<in> set xs \<Longrightarrow> accounts held f x"
  shows "accounts (heldAll held) (eachUntilError f) xs"
  using assms
proof (induction xs)
  case Nil
  then show ?case by (auto simp: accounts_def)
next
  case (Cons x xs)
  have x: "accounts held f x" and xs: "accounts (heldAll held) (eachUntilError f) xs"
    using Cons by simp_all
  show ?case unfolding accounts_def
  proof (intro allI impI)
    fix base refs e ys refs'
    assume bal: "balanced base (heldAll held (x # xs)) refs"
      and eq: "eachUntilError f (x # xs) refs = (e, ys, refs')"
    obtain e1 x1 r1 where f: "f x refs = (e1, x1, r1)" by (cases "f x refs") auto
    obtain e2 xs2 r2 where g: "eachUntilError f xs r1 = (e2, xs2, r2)"
      by (cases "eachUntilError f xs r1") auto
    from bal have "balanced (\<lambda>n. base n + int (count (heldAll held xs) n)) (held x) refs"
      by (auto simp: balanced_def)
    from accountsD[OF x this f] have b1: "balanced (\<lambda>n. base n + int (count (heldAll held xs) n)) (held x1) r1"
      and p1: "e1 \<noteq> Some (EPanic p)" for p by auto
    have nonneg: "0 \<le> base n" for n using bal by (simp add: balanced_def)
    from b1 nonneg have b1': "balanced (\<lambda>n. base n + int (count (held x1) n)) (heldAll held xs) r1"
      by (auto simp: balanced_def)
    from accountsD[OF xs b1' g] have b2: "balanced (\<lambda>n. base n + int (count (held x1) n)) (heldAll held xs2) r2"
      and p2: "e2 \<noteq> Some (EPanic p)" for p by auto
    show "balanced base (heldAll held ys) refs' \<and> (\<forall>p. e \<noteq> Some (EPanic p))"
      using eq f g b1' b2 p1 p2 nonneg
      by (cases e1) (auto simp: balanced_def)
  qed
qed

lemma releases_each:
  assumes "\<And>x. x \<in> set xs \<Longrightarrow> releases held f x"
  shows "releases (heldAll held) (eachUntilError f) xs"
  using assms
proof (induction xs)
  case Nil
  then show ?case by (auto simp: releases_def balanced_def)
next
  case (Cons x xs)
  have x: "releases held f x" and xs: "releases (heldAll held) (eachUntilError f) xs"
    using Cons by simp_all
  show ?case unfolding releases_def
  proof (intro allI impI)
    fix base refs
    assume bal: "balanced base (heldAll held (x # xs)) refs"
    let ?rest = "\<lambda>n. base n + int (count (heldAll held xs) n)"
    from bal have b: "balanced ?rest (held x) refs" by (auto simp: balanced_def)
    from bal have b': "balanced base (heldAll held xs) ?rest" by (auto simp: balanced_def)
    obtain x' where "f x refs = (None, x', ?rest)" "held x' = {#}"
      by (rule releasesE[OF x b])
    moreover obtain xs' where "eachUntilError f xs ?rest = (None, xs', base)" "heldAll held xs' = {#}"
      by (rule releasesE[OF xs b'])
    ultimately show "\<exists>ys. eachUntilError f (x # xs) refs = (None, ys, base) \<and> heldAll held ys = {#}"
      by simp
  qed
qed

section \<open>Items keep the account\<close>

lemma mapR_Err_in: "mapR f xs = Inl e \<Longrightarrow> \<exists>x \<in> set xs. f x = Inl e"
  by (induction xs) (auto simp: bindR_def split: sum.splits)

lemma decRefs_balanced:
  "balanced base (mset (map setName ss)) refs \<Longrightarrow> decRefs ss refs = (None, base)"
proof (induction ss arbitrary: refs)
  case Nil
  then show ?case by (auto simp: balanced_def)
next
  case (Cons s ss)
  then have "balanced base (mset (map setName ss)) (refs(setName s := refs (setName s) - 1))"
    and "0 \<le> refs (setName s) - 1"
    by (auto simp: balanced_def)
  with Cons.IH show ?case by (simp add: DecRef_def Let_def)
qed

lemma RuleSetItem_Close_balanced:
  "balanced base (mset (map setName (setList r))) refs \<Longrightarrow>
   RuleSetItem_Close r refs = (None, r\<lparr>setList := []\<rparr>, base)"
  by (simp add: RuleSetItem_Close_def decRefs_balanced)

lemma startSets_balanced:
  assumes "balanced base (mset (map setName (setList r))) refs" "startSets S tags r refs = (e, r', refs')"
  shows "balanced base (mset (map setName (setList r'))) refs' \<and> (\<forall>p. e \<noteq> Some (EPanic p))"
  using assms
proof (induction tags arbitrary: r refs)
  case Nil
  then show ?case by simp
next
  case (Cons tag tags)
  show ?case
  proof (cases "svcRuleSet S tag")
    case None
    with Cons.prems(2) have "e = Some (ENew (''rule-set not found: '' @ tag)) \<and> setList r' = [] \<and> refs' = base"
      by (auto simp: RuleSetItem_Close_balanced[OF Cons.prems(1)])
    with Cons.prems(1) show ?thesis by (simp add: balanced_def)
  next
    case (Some s)
    have "balanced base (mset (map setName (setList (r\<lparr>setList := setList r @ [s]\<rparr>)))) (IncRef s refs)"
      using Cons.prems(1) by (auto simp: balanced_def IncRef_def)
    from Cons.IH[OF this] Cons.prems(2) Some show ?thesis by simp
  qed
qed

lemma item_Close_releases: "releases heldItem item_Close i"
proof (cases i)
  case (RuleSetItem r)
  then show ?thesis
    by (auto simp: releases_def RuleSetItem_Close_balanced[of _ r])
next
  case (PlainItem p)
  then show ?thesis by (auto simp: releases_def balanced_def)
qed

lemma PreferredByItem_Start_error:
  "PreferredByItem_Start lookup tags = Inl e \<Longrightarrow> e \<noteq> EPanic p"
  "PreferredByDNSItem_Start lookup' tags = Inl e \<Longrightarrow> e \<noteq> EPanic p"
  by (auto simp: PreferredByItem_Start_def PreferredByDNSItem_Start_def dest!: mapR_Err_in
      split: option.splits)

lemma item_Start_plain:
  "item_Start S (PlainItem i) refs = (e, x', refs') \<Longrightarrow>
   refs' = refs \<and> heldItem x' = {#} \<and> e \<noteq> Some (EPanic p)"
proof (cases i)
  case (PreferredByItem tags outbounds)
  assume "item_Start S (PlainItem i) refs = (e, x', refs')"
  with PreferredByItem PreferredByItem_Start_error(1) show ?thesis by (auto split: sum.splits)
next
  case (PreferredByDNSItem tags transports)
  assume "item_Start S (PlainItem i) refs = (e, x', refs')"
  with PreferredByDNSItem PreferredByItem_Start_error(2) show ?thesis by (auto split: sum.splits)
qed auto

lemma item_Start_accounts: "accounts heldItem (item_Start S) i"
proof (cases i)
  case (RuleSetItem r)
  have "balanced base (heldItem x') refs' \<and> (\<forall>p. e \<noteq> Some (EPanic p))"
    if bal: "balanced base (heldItem i) refs" and eq: "item_Start S i refs = (e, x', refs')"
    for base refs e x' refs'
  proof -
    from bal RuleSetItem have close: "RuleSetItem_Close r refs = (None, r\<lparr>setList := []\<rparr>, base)"
      by (simp add: RuleSetItem_Close_balanced)
    with eq RuleSetItem obtain r' where
      "startSets S (tagList r) (r\<lparr>setList := []\<rparr>) base = (e, r', refs')" "x' = RuleSetItem r'"
      by (auto simp: RuleSetItem_Start_def split: prod.splits)
    moreover from bal have "balanced base (mset (map setName (setList (r\<lparr>setList := []\<rparr>)))) base"
      by (simp add: balanced_def)
    ultimately show ?thesis using startSets_balanced[of base "r\<lparr>setList := []\<rparr>" base S "tagList r" e r' refs'] by simp
  qed
  then show ?thesis by (auto simp: accounts_def)
next
  case (PlainItem p)
  then show ?thesis unfolding accounts_def using item_Start_plain[of S p] by (metis heldItem.simps(2))
qed

section \<open>Rules keep the account\<close>

lemma abstractDefaultRule_Start_accounts:
  "accounts (\<lambda>r. heldAll heldItem (allItems r)) (abstractDefaultRule_Start S) r"
proof -
  have each: "accounts (heldAll heldItem) (eachUntilError (item_Start S)) (allItems r)"
    by (intro accounts_each item_Start_accounts)
  show ?thesis unfolding accounts_def
  proof (intro allI impI)
    fix base refs e r' refs'
    assume bal: "balanced base (heldAll heldItem (allItems r)) refs"
      and eq: "abstractDefaultRule_Start S r refs = (e, r', refs')"
    obtain changed where "eachUntilError (item_Start S) (allItems r) refs = (e, changed, refs')"
      "allItems r' = changed"
      using eq by (auto simp: abstractDefaultRule_Start_def changedItems_def split: prod.splits option.splits)
    with accountsD[OF each bal this(1)]
    show "balanced base (heldAll heldItem (allItems r')) refs' \<and> (\<forall>p. e \<noteq> Some (EPanic p))" by simp
  qed
qed

lemma abstractDefaultRule_Close_releases:
  "releases (\<lambda>r. heldAll heldItem (allItems r)) abstractDefaultRule_Close r"
proof -
  have each: "releases (heldAll heldItem) (eachUntilError item_Close) (allItems r)"
    by (intro releases_each item_Close_releases)
  show ?thesis unfolding releases_def
  proof (intro allI impI)
    fix base refs
    assume bal: "balanced base (heldAll heldItem (allItems r)) refs"
    obtain xs where "eachUntilError item_Close (allItems r) refs = (None, xs, base)" "heldAll heldItem xs = {#}"
      by (rule releasesE[OF each bal])
    then show "\<exists>r'. abstractDefaultRule_Close r refs = (None, r', base) \<and> heldAll heldItem (allItems r') = {#}"
      by (simp add: abstractDefaultRule_Close_def changedItems_def)
  qed
qed

text \<open>Lifting an account through a constructor.\<close>

lemma accounts_wrap:
  assumes "accounts held f x" "\<And>s. g (C x) s = (let (e, x', s') = f x s in (e, C x', s'))"
    "\<And>y. held' (C y) = held y"
  shows "accounts held' g (C x)"
  using assms by (auto simp: accounts_def split: prod.splits)

lemma releases_wrap:
  assumes "releases held f x" "\<And>s. g (C x) s = (let (e, x', s') = f x s in (e, C x', s'))"
    "\<And>y. held' (C y) = held y"
  shows "releases held' g (C x)"
  using assms by (fastforce simp: releases_def split: prod.splits)

lemma rule_Start_accounts: "accounts heldRule (rule_Start S) r"
proof (induction r)
  case (DefaultRule r)
  show ?case by (rule accounts_wrap[OF abstractDefaultRule_Start_accounts]) simp_all
next
  case (LogicalRule rs md neg act)
  show ?case
    by (rule accounts_wrap[where C = "\<lambda>rs. LogicalRule rs md neg act", OF accounts_each[OF LogicalRule.IH]])
      simp_all
qed

lemma rule_Close_releases: "releases heldRule rule_Close r"
proof (induction r)
  case (DefaultRule r)
  show ?case by (rule releases_wrap[OF abstractDefaultRule_Close_releases]) simp_all
next
  case (LogicalRule rs md neg act)
  show ?case
    by (rule releases_wrap[where C = "\<lambda>rs. LogicalRule rs md neg act", OF releases_each[OF LogicalRule.IH]])
      simp_all
qed

lemma dnsRule_Start_accounts: "accounts heldDNSRule (dnsRule_Start S) r"
proof (induction r)
  case (DefaultDNSRule r mr)
  show ?case
    by (rule accounts_wrap[where C = "\<lambda>r. DefaultDNSRule r mr", OF abstractDefaultRule_Start_accounts]) simp_all
next
  case (LogicalDNSRule rs md neg act)
  show ?case
    by (rule accounts_wrap[where C = "\<lambda>rs. LogicalDNSRule rs md neg act", OF accounts_each[OF LogicalDNSRule.IH]])
      simp_all
qed

lemma dnsRule_Close_releases: "releases heldDNSRule dnsRule_Close r"
proof (induction r)
  case (DefaultDNSRule r mr)
  show ?case
    by (rule releases_wrap[where C = "\<lambda>r. DefaultDNSRule r mr", OF abstractDefaultRule_Close_releases]) simp_all
next
  case (LogicalDNSRule rs md neg act)
  show ?case
    by (rule releases_wrap[where C = "\<lambda>rs. LogicalDNSRule rs md neg act", OF releases_each[OF LogicalDNSRule.IH]])
      simp_all
qed

section \<open>Lists of rules\<close>

text \<open>\<^verbatim>\<open>E.Cause\<close>; a panic is not an error value and passes through.\<close>

definition causeOf :: "string \<Rightarrow> goerror \<Rightarrow> goerror" where
  "causeOf msg e = (case e of EPanic p \<Rightarrow> EPanic p | _ \<Rightarrow> ECause e msg)"

lemma causeOf_panic [simp]: "causeOf msg e = EPanic p \<longleftrightarrow> e = EPanic p"
  by (cases e) (simp_all add: causeOf_def)

text \<open>The loop over the rules of a router that starts them, naming the rule in the error.\<close>

definition startRules ::
  "('a \<Rightarrow> refcounts \<Rightarrow> goerror option \<times> 'a \<times> refcounts) \<Rightarrow> string \<Rightarrow> 'a list \<Rightarrow> refcounts \<Rightarrow>
   goerror option \<times> 'a list \<times> refcounts" where
  "startRules start what rules refs =
     (let (e, rs, refs') = eachUntilError (\<lambda>(i, r) refs. let (e, r', refs') = start r refs
            in (map_option (causeOf (what @ ''['' @ natToString i @ '']'')) e, (i, r'), refs'))
          (enumerate 0 rules) refs
      in (e, map snd rs, refs'))"

text \<open>\<^verbatim>\<open>closeRules\<close>: errors are dropped, a panic is not.\<close>

fun closeRules ::
  "('a \<Rightarrow> refcounts \<Rightarrow> goerror option \<times> 'a \<times> refcounts) \<Rightarrow> 'a list \<Rightarrow> refcounts \<Rightarrow>
   goerror option \<times> refcounts" where
  "closeRules close [] refs = (None, refs)"
| "closeRules close (r # rs) refs = (case close r refs of
     (Some (EPanic p), _, refs') \<Rightarrow> (Some (EPanic p), refs')
   | (_, _, refs') \<Rightarrow> closeRules close rs refs')"

text \<open>
  What a router relies on: objects that can be started and closed and account for their references.
\<close>

locale lifecycle =
  fixes start close :: "'a \<Rightarrow> refcounts \<Rightarrow> goerror option \<times> 'a \<times> refcounts"
    and held :: "'a \<Rightarrow> string multiset"
  assumes start_accounts: "accounts held start x"
    and close_releases: "releases held close x"
begin

lemma startRules_accounts: "accounts (heldAll held) (startRules start what) rules"
proof -
  let ?f = "\<lambda>(i, r) refs. let (e, r', refs') = start r refs
            in (map_option (causeOf (what @ ''['' @ natToString i @ '']'')) e, (i, r'), refs')"
  have one: "accounts (held \<circ> snd) ?f ir" for ir
  proof -
    obtain i r where ir: "ir = (i, r)" by (cases ir)
    have "balanced base (held (snd ir')) refs' \<and> (\<forall>p. e \<noteq> Some (EPanic p))"
      if bal: "balanced base (held r) refs" and eq: "?f ir refs = (e, ir', refs')" for base refs e ir' refs'
    proof -
      obtain e' r' where "start r refs = (e', r', refs')" "ir' = (i, r')"
        "e = map_option (causeOf (what @ ''['' @ natToString i @ '']'')) e'"
        using eq ir by (auto split: prod.splits)
      with accountsD[OF start_accounts bal this(1)] show ?thesis by auto
    qed
    then show ?thesis by (auto simp: accounts_def ir)
  qed
  have held_snd: "heldAll (held \<circ> snd) irs = heldAll held (map snd irs)" for irs :: "(nat \<times> 'a) list"
    by (induction irs) simp_all
  have all: "accounts (heldAll (held \<circ> snd)) (eachUntilError ?f) (enumerate 0 rules)"
    by (rule accounts_each) (rule one)
  show ?thesis unfolding accounts_def
  proof (intro allI impI)
    fix base refs e rs refs'
    assume bal: "balanced base (heldAll held rules) refs"
      and eq: "startRules start what rules refs = (e, rs, refs')"
    obtain irs where irs: "eachUntilError ?f (enumerate 0 rules) refs = (e, irs, refs')" "rs = map snd irs"
      using eq by (auto simp: startRules_def split: prod.splits)
    from bal have "balanced base (heldAll (held \<circ> snd) (enumerate 0 rules)) refs"
      by (simp add: held_snd)
    note acc = accountsD[OF all this irs(1), unfolded held_snd]
    show "balanced base (heldAll held rs) refs' \<and> (\<forall>p. e \<noteq> Some (EPanic p))"
      using acc irs(2) by simp
  qed
qed

lemma closeRules_releases:
  "balanced base (heldAll held rules) refs \<Longrightarrow> closeRules close rules refs = (None, base)"
proof (induction rules arbitrary: refs)
  case Nil
  then show ?case by (auto simp: balanced_def)
next
  case (Cons r rs)
  let ?rest = "\<lambda>n. base n + int (count (heldAll held rs) n)"
  from Cons.prems have b: "balanced ?rest (held r) refs" and b': "balanced base (heldAll held rs) ?rest"
    by (auto simp: balanced_def)
  obtain r' where "close r refs = (None, r', ?rest)" by (rule releasesE[OF close_releases b])
  with Cons.IH[OF b'] show ?case by simp
qed

end

interpretation routeRules: lifecycle "rule_Start S" rule_Close heldRule for S
  by unfold_locales (rule rule_Start_accounts rule_Close_releases)+

interpretation dnsRules: lifecycle "dnsRule_Start S" dnsRule_Close heldDNSRule for S
  by unfold_locales (rule dnsRule_Start_accounts dnsRule_Close_releases)+

section \<open>New rules hold nothing\<close>

definition unheld :: "rule_item abstractDefaultRule \<Rightarrow> bool" where
  "unheld r \<longleftrightarrow> heldAll heldItem (allItems r) = {#}"

definition fresh :: "rule_item step \<Rightarrow> bool" where
  "fresh s \<longleftrightarrow> (\<forall>r r'. unheld r \<longrightarrow> s r = Inr r' \<longrightarrow> unheld r')"

lemma unheld_add: "add \<in> adders \<Longrightarrow> heldItem i = {#} \<Longrightarrow> unheld r \<Longrightarrow> unheld (add i r)"
  by (auto simp: adders_def itemAdders_def add_defs unheld_def)

lemma fresh_opt [simp]: "add \<in> adders \<Longrightarrow> heldItem i = {#} \<Longrightarrow> fresh (opt c add i)"
  by (auto simp: fresh_def opt_def unheld_add)

lemma fresh_optR:
  assumes "add \<in> adders" "\<And>i. mk = Inr i \<Longrightarrow> heldItem i = {#}"
  shows "fresh (optR c add mk)"
  unfolding fresh_def
proof (intro allI impI)
  fix r r'
  assume r: "unheld r" "optR c add mk r = Inr r'"
  show "unheld r'"
  proof (cases "c \<and> \<not> isl mk")
    case True
    then obtain i where i: "mk = Inr i" by (cases mk) auto
    from i True r(2) have "r' = add i r" by (simp add: optR_def)
    with unheld_add[OF assms(1) assms(2)[OF i] r(1)] show ?thesis by simp
  next
    case False
    with r show ?thesis by (cases mk) (auto simp: optR_def split: if_splits)
  qed
qed

lemma plainR_held: "plainR r = Inr i \<Longrightarrow> heldItem i = {#}"
  by (auto simp: plainR_def)

lemma ipVersionItem_held: "ipVersionItem v = Inr i \<Longrightarrow> heldItem i = {#}"
  by (auto simp: ipVersionItem_def split: if_splits)

lemma fresh_plain [simp]: "add \<in> adders \<Longrightarrow> fresh (optR c add (plainR r))"
  by (rule fresh_optR[OF _ plainR_held])

lemma fresh_cause [simp]: "add \<in> adders \<Longrightarrow> fresh (optR c add (withCause msg (plainR r)))"
  by (rule fresh_optR[OF _ plainR_held[OF withCause_eq_Ok[THEN iffD1]]])

lemma fresh_ipVersion [simp]: "add \<in> adders \<Longrightarrow> fresh (optR c add (ipVersionItem v))"
  by (rule fresh_optR[OF _ ipVersionItem_held])

lemma fresh_failIf [simp]: "fresh (failIf c e)"
  by (auto simp: fresh_def failIf_def)

lemma newRuleSetItem_held [simp]: "heldItem (newRuleSetItem tags ms ae) = {#}"
  by (simp add: newRuleSetItem_def)

lemma runSteps_fresh: "\<forall>s \<in> set ss. fresh s \<Longrightarrow> unheld r \<Longrightarrow> runSteps ss r = Inr r' \<Longrightarrow> unheld r'"
proof (induction ss arbitrary: r)
  case (Cons s ss)
  from Cons.prems(3) obtain r1 where r1: "s r = Inr r1" "runSteps ss r1 = Inr r'" by auto
  from Cons.prems(1,2) r1(1) have "unheld r1" by (simp add: fresh_def)
  with Cons.IH Cons.prems(1) r1(2) show ?case by simp
qed simp

lemma unheld_noDefaultRule [simp]: "unheld (noDefaultRule neg act)"
  by (simp add: unheld_def noDefaultRule_def)

lemma NewDefaultDNSRule_unheld:
  assumes "NewDefaultDNSRule B d legacy = Ok r"
  shows "heldDNSRule r = {#}"
proof -
  from assms obtain act r' where run: "runSteps (dnsRuleSteps1 B (ddRaw d) @ dnsRuleSteps2 B (ddRaw d) @
      dnsRuleSteps3 legacy (ddRaw d)) (noDefaultRule (oInvert (ddRaw d)) act) = Ok r'"
    and r: "r = DefaultDNSRule r' (oMatchResponse (ddRaw d))"
    by (auto simp: NewDefaultDNSRule_def)
  have "\<forall>s \<in> set (dnsRuleSteps1 B (ddRaw d) @ dnsRuleSteps2 B (ddRaw d) @ dnsRuleSteps3 legacy (ddRaw d)). fresh s"
    by (simp add: dns_steps)
  from runSteps_fresh[OF this unheld_noDefaultRule run] r show ?thesis by (simp add: unheld_def)
qed

lemma heldAll_empty: "\<forall>x \<in> set xs. held x = {#} \<Longrightarrow> heldAll held xs = {#}"
  by (induction xs) auto

lemma NewDNSRule_default:
  assumes "NewDNSRule B (DNSRuleOptions ty d md rs neg act) checkServer legacy = Ok r"
    "ty = [] \<or> ty = RuleTypeDefault"
  shows "NewDefaultDNSRule B d legacy = Ok r"
  using assms(1) unfolding NewDNSRule.simps if_P[OF assms(2)] by (simp split: if_splits)

lemma NewDNSRule_logical:
  assumes "NewDNSRule B (DNSRuleOptions ty d md rs neg act) checkServer legacy = Ok r"
    "\<not> (ty = [] \<or> ty = RuleTypeDefault)"
  obtains rules a where "r = LogicalDNSRule rules md neg a" "NewDNSRuleAction act = Ok a"
    "mapR (\<lambda>sub. withCause ''sub rule'' (bindR (validateNoNestedDNSRuleActions sub True)
       (\<lambda>_. NewDNSRule B sub False legacy))) rs = Inr rules"
  using assms(1) unfolding NewDNSRule.simps if_not_P[OF assms(2)] by (auto split: if_splits)

lemma NewDNSRule_sub:
  assumes "mapR (\<lambda>sub. withCause ''sub rule'' (bindR (validateNoNestedDNSRuleActions sub True)
       (\<lambda>_. NewDNSRule B sub False legacy))) rs = Inr rules" "x \<in> set rules"
  obtains sub where "sub \<in> set rs" "NewDNSRule B sub False legacy = Inr x"
  using mapR_Ok_set[OF assms] by auto

lemma NewDNSRule_unheld: "NewDNSRule B opts checkServer legacy = Ok r \<Longrightarrow> heldDNSRule r = {#}"
proof (induction opts arbitrary: checkServer r)
  case (DNSRuleOptions ty d md rs neg act)
  show ?case
  proof (cases "ty = [] \<or> ty = RuleTypeDefault")
    case True
    from NewDNSRule_default[OF DNSRuleOptions.prems this] show ?thesis by (rule NewDefaultDNSRule_unheld)
  next
    case False
    obtain rules a where rules: "r = LogicalDNSRule rules md neg a"
      "mapR (\<lambda>sub. withCause ''sub rule'' (bindR (validateNoNestedDNSRuleActions sub True)
         (\<lambda>_. NewDNSRule B sub False legacy))) rs = Inr rules"
      by (rule NewDNSRule_logical[OF DNSRuleOptions.prems False])
    have "heldDNSRule x = {#}" if "x \<in> set rules" for x
      by (rule NewDNSRule_sub[OF rules(2) that]) (rule DNSRuleOptions.IH)
    with rules(1) show ?thesis by (simp add: heldAll_empty)
  qed
qed

end
