(* ===== verification/GoText.thy ===== *)
theory GoText
  imports GoLib
begin

text \<open>
  More of Go's \<^verbatim>\<open>strings\<close> and \<^verbatim>\<open>strconv\<close>: splitting at a one-byte separator, trimming a prefix, and
  \<^verbatim>\<open>Atoi\<close>, with the facts that make printing and parsing inverse to each other.
\<close>

section \<open>strings\<close>

text \<open>\<^verbatim>\<open>strings.Split\<close> with a separator of one byte.\<close>

fun Split :: "string \<Rightarrow> char \<Rightarrow> string list" where
  "Split [] c = [[]]"
| "Split (x # s) c = (if x = c then [] # Split s c
     else (case Split s c of [] \<Rightarrow> [[x]] | p # ps \<Rightarrow> (x # p) # ps))"

definition TrimPrefix :: "string \<Rightarrow> string \<Rightarrow> string" where
  "TrimPrefix s p = (if HasPrefix s p then drop (length p) s else s)"

definition TrimSuffix :: "string \<Rightarrow> string \<Rightarrow> string" where
  "TrimSuffix s p = (if HasSuffix s p then take (length s - length p) s else s)"

lemma Split_nonempty [simp]: "Split s c \<noteq> []"
  by (induction s) (auto split: list.splits)

lemma Split_none [simp]: "c \<notin> set s \<Longrightarrow> Split s c = [s]"
  by (induction s) auto

lemma Split_append: "c \<notin> set p \<Longrightarrow> Split (p @ c # s) c = p # Split s c"
  by (induction p) auto

lemma Join_Split: "Join (Split s c) [c] = s"
proof (induction s)
  case (Cons x s)
  have "Join ((x # p) # ps) [c] = x # Join (p # ps) [c]" for p ps by (cases ps) auto
  with Cons show ?case by (cases "Split s c") auto
qed simp

lemma HasPrefix_single [simp]: "HasPrefix s [c] \<longleftrightarrow> s \<noteq> [] \<and> hd s = c"
  by (cases s) (auto simp: HasPrefix_def)

lemma Contains_single [simp]: "Contains s [c] \<longleftrightarrow> c \<in> set s"
  by (induction s) auto

section \<open>strconv\<close>

text \<open>\<^verbatim>\<open>strconv.Atoi\<close> on a 64-bit platform: the value and whether there was an error.  A malformed text
  gives zero, a value out of range the nearest \<^verbatim>\<open>int\<close>, both with an error.\<close>

definition maxInt :: int where "maxInt = 2 ^ 63 - 1"

definition Atoi :: "string \<Rightarrow> int \<times> bool" where
  "Atoi s =
     (let neg = HasPrefix s ''-'';
          digits = (if neg \<or> HasPrefix s ''+'' then tl s else s);
          v = int (decimalVal digits)
      in if digits = [] \<or> \<not> list_all isDigit digits then (0, False)
         else if neg then (if v > maxInt + 1 then (- maxInt - 1, False) else (- v, True))
         else if v > maxInt then (maxInt, False) else (v, True))"

lemma digit_not_sign: "list_all isDigit s \<Longrightarrow> \<not> (s \<noteq> [] \<and> hd s = CHR ''-'') \<and> \<not> (s \<noteq> [] \<and> hd s = CHR ''+'')"
  by (cases s) (auto simp: isDigit_def)

lemma Atoi_natToString [simp]:
  assumes "int n \<le> maxInt"
  shows "Atoi (natToString n) = (int n, True)"
  using assms natToString_digits[of n] digit_not_sign[of "natToString n"]
  by (simp add: Atoi_def Let_def)

lemma Atoi_intToString [simp]: "0 \<le> i \<Longrightarrow> i \<le> maxInt \<Longrightarrow> Atoi (intToString i) = (i, True)"
  by (simp add: intToString_def)

lemma natToString_no:
  "\<not> isDigit c \<Longrightarrow> c \<notin> set (natToString n)"
  using natToString_digits[of n] by (auto simp: list_all_iff)

lemma natToString_no_sep [simp]:
  "CHR ''.'' \<notin> set (natToString n)" "CHR ''-'' \<notin> set (natToString n)" "CHR ''v'' \<notin> set (natToString n)"
  by (rule natToString_no; simp add: isDigit_def)+

end
