(* ===== verification/BadVersion.thy ===== *)
theory BadVersion
  imports GoText
begin

text \<open>
  Program versions (\<^verbatim>\<open>common/badversion/version.go\<close>) and the notes on deprecated features that are
  reported by version (\<^verbatim>\<open>experimental/deprecated\<close>).
\<close>

section \<open>Versions\<close>

record Version =
  Major :: int
  Minor :: int
  Patch :: int
  Commit :: string
  PreReleaseIdentifier :: string
  PreReleaseVersion :: int

definition noVersion :: Version where
  "noVersion = \<lparr>Major = 0, Minor = 0, Patch = 0, Commit = [], PreReleaseIdentifier = [],
     PreReleaseVersion = 0\<rparr>"

definition parsePreReleaseIdentifier :: "string \<Rightarrow> int" where
  "parsePreReleaseIdentifier identifier =
     (if HasPrefix identifier ''rc'' then 1
      else if HasPrefix identifier ''beta'' then 2
      else if HasPrefix identifier ''alpha'' then 3
      else 0)"

definition GreaterThan :: "Version \<Rightarrow> Version \<Rightarrow> bool" where
  "GreaterThan v w =
     (if Major v > Major w then True else if Major v < Major w then False
      else if Minor v > Minor w then True else if Minor v < Minor w then False
      else if Patch v > Patch w then True else if Patch v < Patch w then False
      else if PreReleaseIdentifier v = [] \<and> PreReleaseIdentifier w \<noteq> [] then True
      else if PreReleaseIdentifier v \<noteq> [] \<and> PreReleaseIdentifier w = [] then False
      else if PreReleaseIdentifier v \<noteq> [] \<and> PreReleaseIdentifier w \<noteq> [] then
        (if PreReleaseIdentifier v = PreReleaseIdentifier w \<and> PreReleaseVersion v > PreReleaseVersion w
         then True
         else if PreReleaseIdentifier v = PreReleaseIdentifier w \<and> PreReleaseVersion v < PreReleaseVersion w
         then False
         else if parsePreReleaseIdentifier (PreReleaseIdentifier v) <
                 parsePreReleaseIdentifier (PreReleaseIdentifier w) then True
         else False)
      else False)"

definition GreaterThanOrEqual :: "Version \<Rightarrow> Version \<Rightarrow> bool" where
  "GreaterThanOrEqual v w \<longleftrightarrow> v = w \<or> GreaterThan v w"

definition LessThan :: "Version \<Rightarrow> Version \<Rightarrow> bool" where
  "LessThan v w \<longleftrightarrow> \<not> GreaterThanOrEqual v w"

definition LessThanOrEqual :: "Version \<Rightarrow> Version \<Rightarrow> bool" where
  "LessThanOrEqual v w \<longleftrightarrow> v = w \<or> GreaterThan w v"

definition VersionString :: "Version \<Rightarrow> string" where
  "VersionString v = intToString (Major v) @ ''.'' @ intToString (Minor v) @ ''.'' @ intToString (Patch v)"

definition versionToString :: "Version \<Rightarrow> string" where
  "versionToString v =
     (let version = intToString (Major v) @ ''.'' @ intToString (Minor v) @ ''.'' @ intToString (Patch v)
      in if PreReleaseIdentifier v \<noteq> []
         then version @ ''-'' @ PreReleaseIdentifier v @ ''.'' @ intToString (PreReleaseVersion v)
         else version)"

definition BadString :: "Version \<Rightarrow> string" where
  "BadString v =
     (let version = intToString (Major v) @ ''.'' @ intToString (Minor v);
          version = (if Patch v > 0 then version @ ''.'' @ intToString (Patch v) else version)
      in if PreReleaseIdentifier v \<noteq> []
         then (let version = version @ ''-'' @ PreReleaseIdentifier v
               in if PreReleaseVersion v > 0 then version @ intToString (PreReleaseVersion v) else version)
         else version)"

text \<open>The part of \<^verbatim>\<open>Parse\<close> after a dash: the identifier with its number, or a commit.\<close>

definition parseIdentifier :: "string \<Rightarrow> Version \<Rightarrow> Version" where
  "parseIdentifier identifier version =
     (if Contains identifier ''.'' then
        (let identifierParts = Split identifier CHR ''.'';
             version = version\<lparr>PreReleaseIdentifier := identifierParts ! 0\<rparr>
         in if length identifierParts \<ge> 2
            then version\<lparr>PreReleaseVersion := fst (Atoi (identifierParts ! 1))\<rparr> else version)
      else if HasPrefix identifier ''alpha'' then
        version\<lparr>PreReleaseIdentifier := ''alpha'', PreReleaseVersion := fst (Atoi (drop 5 identifier))\<rparr>
      else if HasPrefix identifier ''beta'' then
        version\<lparr>PreReleaseIdentifier := ''beta'', PreReleaseVersion := fst (Atoi (drop 4 identifier))\<rparr>
      else version\<lparr>Commit := identifier\<rparr>)"

definition parseNumbers :: "string \<Rightarrow> Version \<Rightarrow> Version" where
  "parseNumbers versionName version =
     (let versionElements = Split versionName CHR ''.'';
          versionLen = length versionElements;
          version = (if versionLen \<ge> 1 then version\<lparr>Major := fst (Atoi (versionElements ! 0))\<rparr> else version);
          version = (if versionLen \<ge> 2 then version\<lparr>Minor := fst (Atoi (versionElements ! 1))\<rparr> else version)
      in if versionLen \<ge> 3 then version\<lparr>Patch := fst (Atoi (versionElements ! 2))\<rparr> else version)"

definition versionParse :: "string \<Rightarrow> Version" where
  "versionParse name =
     (let versionName = TrimPrefix name ''v''
      in if Contains versionName ''-'' then
           (let parts = Split versionName CHR ''-''
            in parseNumbers (parts ! 0) (parseIdentifier (parts ! 1) noVersion))
         else parseNumbers versionName noVersion)"

lemmas version_defs = versionParse_def parseNumbers_def parseIdentifier_def noVersion_def

section \<open>Printing and parsing\<close>

text \<open>A version as the program's own release names have it: numbers that fit, an optional identifier
  without separators, no commit.\<close>

definition numberOk :: "int \<Rightarrow> bool" where
  "numberOk i \<longleftrightarrow> 0 \<le> i \<and> i \<le> maxInt"

definition versionOk :: "Version \<Rightarrow> bool" where
  "versionOk v \<longleftrightarrow> numberOk (Major v) \<and> numberOk (Minor v) \<and> numberOk (Patch v) \<and>
     numberOk (PreReleaseVersion v) \<and> Commit v = [] \<and>
     CHR ''.'' \<notin> set (PreReleaseIdentifier v) \<and> CHR ''-'' \<notin> set (PreReleaseIdentifier v) \<and>
     (PreReleaseIdentifier v = [] \<longrightarrow> PreReleaseVersion v = 0)"

lemma intToString_no [simp]:
  assumes "numberOk i"
  shows "CHR ''.'' \<notin> set (intToString i)" "CHR ''-'' \<notin> set (intToString i)"
    "intToString i \<noteq> []" "hd (intToString i) \<noteq> CHR ''v''"
proof -
  have d: "list_all isDigit (intToString i)" "intToString i \<noteq> []"
    using assms natToString_digits by (simp_all add: intToString_def numberOk_def)
  show "CHR ''.'' \<notin> set (intToString i)" "CHR ''-'' \<notin> set (intToString i)"
    using d(1) by (auto simp: list_all_iff isDigit_def)
  show "intToString i \<noteq> []" by (rule d(2))
  show "hd (intToString i) \<noteq> CHR ''v''"
    using d by (cases "intToString i") (auto simp: isDigit_def)
qed

lemma Atoi_number [simp]: "numberOk i \<Longrightarrow> Atoi (intToString i) = (i, True)"
  by (simp add: numberOk_def)

text \<open>
  C29: Printing a version and parsing the text again gives the version back, with and without the
  leading \<^verbatim>\<open>v\<close> of release tags.
\<close>

theorem version_roundtrip:
  assumes "versionOk v"
  shows "versionParse (versionToString v) = v \<and> versionParse (''v'' @ versionToString v) = v"
proof -
  have ok: "numberOk (Major v)" "numberOk (Minor v)" "numberOk (Patch v)" "numberOk (PreReleaseVersion v)"
    "Commit v = []" "CHR ''.'' \<notin> set (PreReleaseIdentifier v)" "CHR ''-'' \<notin> set (PreReleaseIdentifier v)"
    "PreReleaseIdentifier v = [] \<Longrightarrow> PreReleaseVersion v = 0"
    using assms by (auto simp: versionOk_def)
  let ?numbers = "intToString (Major v) @ ''.'' @ intToString (Minor v) @ ''.'' @ intToString (Patch v)"
  let ?pre = "PreReleaseIdentifier v @ ''.'' @ intToString (PreReleaseVersion v)"
  have numbers: "parseNumbers ?numbers w = w\<lparr>Major := Major v, Minor := Minor v, Patch := Patch v\<rparr>" for w
    using ok by (simp add: parseNumbers_def Split_append)
  have pre: "parseIdentifier ?pre noVersion =
      noVersion\<lparr>PreReleaseIdentifier := PreReleaseIdentifier v, PreReleaseVersion := PreReleaseVersion v\<rparr>"
    using ok by (simp add: parseIdentifier_def Split_append)
  have no: "CHR ''-'' \<notin> set ?numbers" using ok by simp
  have dash: "Split (?numbers @ CHR ''-'' # ?pre) CHR ''-'' = [?numbers, ?pre]"
    using ok no by (subst Split_append) auto
  have trim: "TrimPrefix (versionToString v) ''v'' = versionToString v"
    "TrimPrefix (''v'' @ versionToString v) ''v'' = versionToString v"
    using ok by (simp_all add: TrimPrefix_def versionToString_def Let_def)
  have "parseNumbers (versionToString v) noVersion = v" if "PreReleaseIdentifier v = []"
    using that ok numbers by (simp add: versionToString_def noVersion_def)
  moreover have "parseNumbers (Split (versionToString v) CHR ''-'' ! 0)
      (parseIdentifier (Split (versionToString v) CHR ''-'' ! 1) noVersion) = v"
    if "PreReleaseIdentifier v \<noteq> []"
    using that ok(5) numbers pre dash by (simp add: versionToString_def noVersion_def)
  moreover have "Contains (versionToString v) ''-'' \<longleftrightarrow> PreReleaseIdentifier v \<noteq> []"
    using no by (auto simp: versionToString_def)
  ultimately have "versionParse (versionToString v) = v" "versionParse (''v'' @ versionToString v) = v"
    unfolding versionParse_def trim by (auto simp: Let_def)
  then show ?thesis by simp
qed

theorem version_roundtrip_witness:
  "versionParse (versionToString \<lparr>Major = 1, Minor = 14, Patch = 0, Commit = [],
     PreReleaseIdentifier = ''beta'', PreReleaseVersion = 3\<rparr>) = \<lparr>Major = 1, Minor = 14, Patch = 0,
     Commit = [], PreReleaseIdentifier = ''beta'', PreReleaseVersion = 3\<rparr>"
  using version_roundtrip[of "\<lparr>Major = 1, Minor = 14, Patch = 0, Commit = [],
     PreReleaseIdentifier = ''beta'', PreReleaseVersion = 3\<rparr>"]
  by (simp add: versionOk_def numberOk_def maxInt_def)

section \<open>Order\<close>

lemma GreaterThan_irrefl: "\<not> GreaterThan v v"
  by (simp add: GreaterThan_def)

lemma GreaterThan_trans: "GreaterThan u v \<Longrightarrow> GreaterThan v w \<Longrightarrow> GreaterThan u w"
  unfolding GreaterThan_def by (auto split: if_splits)

lemma GreaterThan_asym: "GreaterThan v w \<Longrightarrow> \<not> GreaterThan w v"
  using GreaterThan_trans GreaterThan_irrefl by blast

text \<open>Two versions that differ in the commit only are each less than the other: the equality that
  \<^verbatim>\<open>GreaterThanOrEqual\<close> starts with compares the commits, the order ignores them.\<close>

lemma LessThan_commit:
  "c \<noteq> Commit v \<Longrightarrow> LessThan v (v\<lparr>Commit := c\<rparr>) \<and> LessThan (v\<lparr>Commit := c\<rparr>) v"
  by (auto simp: LessThan_def GreaterThanOrEqual_def GreaterThan_def) (metis Version.select_convs(4) Version.surjective Version.update_convs(4))+

section \<open>Deprecated features\<close>

record Note =
  noteName :: string
  Description :: string
  DeprecatedVersion :: string
  ScheduledVersion :: string
  EnvName :: string
  MigrationLink :: string

text \<open>\<^verbatim>\<open>C.Version\<close> is set by the build and \<^verbatim>\<open>semver.IsValid\<close> is third-party code: both are arguments.\<close>

definition Impending :: "(string \<Rightarrow> bool) \<Rightarrow> string \<Rightarrow> Note \<Rightarrow> (goerror, bool) result" where
  "Impending semverIsValid version n =
     (if ScheduledVersion n = [] then Ok False
      else if \<not> semverIsValid (''v'' @ version) then Ok False
      else let versionCurrent = versionParse version;
               versionMinor = Minor (versionParse (ScheduledVersion n)) - Minor versionCurrent
           in if PreReleaseIdentifier versionCurrent = [] \<and> versionMinor < 0
              then Err (EPanic (''invalid deprecated note: '' @ noteName n))
              else Ok (versionMinor \<le> 1))"

definition MessageWithLink :: "Note \<Rightarrow> string" where
  "MessageWithLink n =
     (if MigrationLink n \<noteq> [] then
        Description n @ '' is deprecated in sing-box '' @ DeprecatedVersion n @
        '' and will be removed in sing-box '' @ ScheduledVersion n @
        '', checkout documentation for migration: '' @ MigrationLink n
      else
        Description n @ '' is deprecated in sing-box '' @ DeprecatedVersion n @
        '' and will be removed in sing-box '' @ ScheduledVersion n @ ''.'')"

definition OptionRuleSetIPCIDRAcceptEmpty :: Note where
  "OptionRuleSetIPCIDRAcceptEmpty = \<lparr>noteName = ''dns-rule-rule-set-ip-cidr-accept-empty'',
     Description = ''Legacy `rule_set_ip_cidr_accept_empty` DNS rule item'',
     DeprecatedVersion = ''1.14.0'', ScheduledVersion = ''1.16.0'',
     EnvName = ''DNS_RULE_RULE_SET_IP_CIDR_ACCEPT_EMPTY'',
     MigrationLink = ''https://sing-box.sagernet.org/migration/#migrate-address-filter-fields-to-response-matching''\<rparr>"

definition OptionLegacyDNSAddressFilter :: Note where
  "OptionLegacyDNSAddressFilter = \<lparr>noteName = ''legacy-dns-address-filter'',
     Description = ''Legacy Address Filter Fields in DNS rules'',
     DeprecatedVersion = ''1.14.0'', ScheduledVersion = ''1.16.0'',
     EnvName = ''LEGACY_DNS_ADDRESS_FILTER'',
     MigrationLink = ''https://sing-box.sagernet.org/migration/#migrate-address-filter-fields-to-response-matching''\<rparr>"

definition OptionLegacyDNSRuleStrategy :: Note where
  "OptionLegacyDNSRuleStrategy = \<lparr>noteName = ''legacy-dns-rule-strategy'',
     Description = ''Legacy `strategy` DNS rule action option'',
     DeprecatedVersion = ''1.14.0'', ScheduledVersion = ''1.16.0'',
     EnvName = ''LEGACY_DNS_RULE_STRATEGY'',
     MigrationLink = ''https://sing-box.sagernet.org/migration/#migrate-dns-rule-action-strategy-to-rule-items''\<rparr>"

text \<open>
  \<^verbatim>\<open>stderrManager.ReportDeprecated\<close>: the names reported so far and what is logged.  A fatal message
  ends the program.  \<open>enabled\<close> is whether the environment variable of the feature parses as true.
\<close>

datatype logLine = logWarn string | logError string | logFatal string

definition ReportDeprecated ::
  "(string \<Rightarrow> bool) \<Rightarrow> string \<Rightarrow> (string \<Rightarrow> bool) \<Rightarrow> Note \<Rightarrow> string list \<Rightarrow>
   (goerror, string list \<times> logLine list) result" where
  "ReportDeprecated semverIsValid version enabled feature reported =
     (if noteName feature \<in> set reported then Ok (reported, [])
      else let reported = noteName feature # reported
           in bindR (Impending semverIsValid version feature) (\<lambda>impending.
                if \<not> impending then Ok (reported, [logWarn (MessageWithLink feature)])
                else if EnvName feature \<noteq> [] then
                  (if enabled (''ENABLE_DEPRECATED_'' @ EnvName feature)
                   then Ok (reported, [logWarn (MessageWithLink feature)])
                   else Ok (reported, [logError (MessageWithLink feature),
                          logFatal (''to continuing using this feature, set environment variable ENABLE_DEPRECATED_'' @
                            EnvName feature @ ''=true'')]))
                else Ok (reported, [logError (MessageWithLink feature)])))"

end
