(* ===== verification/DNSMode.thy ===== *)
theory DNSMode
  imports RuleLife BadVersion
begin

text \<open>
  The rules of the DNS router (\<^verbatim>\<open>dns/router.go\<close>): which of its two modes a configuration asks for, what
  the mode without legacy address filters demands of the rules, building, starting and closing them,
  and the check of a rule-set update against the running mode.  The router service is an optional
  function from tags to the metadata of rule-sets; overrides are a map from tags to metadata.
\<close>

section \<open>Actions of the options\<close>

definition DomainStrategyAsIS :: uint8 where "DomainStrategyAsIS = 0"

definition DNSTypeFakeIP :: string where "DNSTypeFakeIP = ''fakeip''"

definition dnsRuleActionDisablesLegacyDNSMode :: "DNSRuleActionOpt \<Rightarrow> bool" where
  "dnsRuleActionDisablesLegacyDNSMode act =
     (if odAction act \<in> {[], RuleActionTypeRoute, RuleActionTypeEvaluate}
      then doDisableOptimisticCache (odRouteOptions act)
      else if odAction act = RuleActionTypeRouteOptions
      then doDisableOptimisticCache (odRouteOptionsOptions act)
      else False)"

definition dnsRuleActionHasStrategy :: "DNSRuleActionOpt \<Rightarrow> bool" where
  "dnsRuleActionHasStrategy act =
     (if odAction act \<in> {[], RuleActionTypeRoute, RuleActionTypeEvaluate}
      then doStrategy (odRouteOptions act) \<noteq> DomainStrategyAsIS
      else if odAction act = RuleActionTypeRouteOptions
      then doStrategy (odRouteOptionsOptions act) \<noteq> DomainStrategyAsIS
      else False)"

fun dnsRuleActionType :: "dns_rule_options \<Rightarrow> string" where
  "dnsRuleActionType (DNSRuleOptions ty d md rs neg act) =
     (if ty = [] \<or> ty = RuleTypeDefault then
        (if odAction (ddAction d) = [] then RuleActionTypeRoute else odAction (ddAction d))
      else if ty = RuleTypeLogical then (if odAction act = [] then RuleActionTypeRoute else odAction act)
      else [])"

fun dnsRuleActionServer :: "dns_rule_options \<Rightarrow> string" where
  "dnsRuleActionServer (DNSRuleOptions ty d md rs neg act) =
     (if ty = [] \<or> ty = RuleTypeDefault then doServer (odRouteOptions (ddAction d))
      else if ty = RuleTypeLogical then doServer (odRouteOptions act)
      else [])"

section \<open>The mode\<close>

definition defaultRuleNeedsLegacyDNSModeFromAddressFilter :: "DefaultDNSRuleOptions \<Rightarrow> bool" where
  "defaultRuleNeedsLegacyDNSModeFromAddressFilter rule =
     (let r = ddRaw rule in
      if oRuleSetIPCIDRAcceptEmpty r then True
      else \<not> oMatchResponse r \<and> (oIPAcceptAny r \<or> oIPCIDR r \<noteq> [] \<or> oIPIsPrivate r))"

definition hasResponseMatchFields :: "DefaultDNSRuleOptions \<Rightarrow> bool" where
  "hasResponseMatchFields rule \<longleftrightarrow>
     oResponseRcode (ddRaw rule) \<noteq> None \<or> oResponseAnswer (ddRaw rule) \<noteq> [] \<or>
     oResponseNs (ddRaw rule) \<noteq> [] \<or> oResponseExtra (ddRaw rule) \<noteq> []"

definition defaultRuleDisablesLegacyDNSMode :: "DefaultDNSRuleOptions \<Rightarrow> bool" where
  "defaultRuleDisablesLegacyDNSMode rule \<longleftrightarrow>
     oMatchResponse (ddRaw rule) \<or> hasResponseMatchFields rule \<or>
     odAction (ddAction rule) = RuleActionTypeEvaluate \<or> odAction (ddAction rule) = RuleActionTypeRespond \<or>
     oIPVersion (ddRaw rule) > 0 \<or> oQueryType (ddRaw rule) \<noteq> []"

record dnsRuleModeFlags =
  disabled :: bool
  needed :: bool
  neededFromStrategy :: bool

definition noFlags :: dnsRuleModeFlags where
  "noFlags = \<lparr>disabled = False, needed = False, neededFromStrategy = False\<rparr>"

definition mergeFlags :: "dnsRuleModeFlags \<Rightarrow> dnsRuleModeFlags \<Rightarrow> dnsRuleModeFlags" where
  "mergeFlags f other = \<lparr>disabled = disabled f \<or> disabled other, needed = needed f \<or> needed other,
     neededFromStrategy = neededFromStrategy f \<or> neededFromStrategy other\<rparr>"

type_synonym ruleSetLookup = "string \<Rightarrow> RuleSetMetadata option"
type_synonym overrides = "(string, RuleSetMetadata) gomap"

definition lookupDNSRuleSetMetadata ::
  "ruleSetLookup \<Rightarrow> string \<Rightarrow> overrides \<Rightarrow> (goerror, RuleSetMetadata) result" where
  "lookupDNSRuleSetMetadata router tag metadataOverrides = (case map_of metadataOverrides tag of
     Some metadata \<Rightarrow> Ok metadata
   | None \<Rightarrow> (case router tag of
       None \<Rightarrow> Err (ENew (''rule-set not found: '' @ tag))
     | Some metadata \<Rightarrow> Ok metadata))"

definition dnsRuleModeRequirementsInDefaultRule ::
  "ruleSetLookup option \<Rightarrow> DefaultDNSRuleOptions \<Rightarrow> overrides \<Rightarrow> (goerror, dnsRuleModeFlags) result" where
  "dnsRuleModeRequirementsInDefaultRule router rule metadataOverrides =
     (let strategy = dnsRuleActionHasStrategy (ddAction rule);
          flags = \<lparr>disabled = defaultRuleDisablesLegacyDNSMode rule \<or>
                     dnsRuleActionDisablesLegacyDNSMode (ddAction rule),
                   needed = defaultRuleNeedsLegacyDNSModeFromAddressFilter rule \<or> strategy,
                   neededFromStrategy = strategy\<rparr>
      in if oRuleSet (ddRaw rule) = [] then Ok flags
         else case router of
           None \<Rightarrow> Err (ENew ''router service not found'')
         | Some lookup \<Rightarrow> forIR (\<lambda>_ tag flags.
             bindR (lookupDNSRuleSetMetadata lookup tag metadataOverrides) (\<lambda>metadata. Ok
               (flags\<lparr>disabled := disabled flags \<or> ContainsDNSQueryTypeRule metadata,
                  needed := needed flags \<or>
                    \<not> oRuleSetIPCIDRMatchSource (ddRaw rule) \<and> ContainsIPCIDRRule metadata\<rparr>)))
             0 (oRuleSet (ddRaw rule)) flags)"

definition indexed :: "string \<Rightarrow> nat \<Rightarrow> string" where
  "indexed what i = what @ ''['' @ natToString i @ '']''"

text \<open>The flags a logical rule starts from.\<close>

definition logicalRuleFlags :: "DNSRuleActionOpt \<Rightarrow> dnsRuleModeFlags" where
  "logicalRuleFlags act =
     (let actionType = (if odAction act = [] then RuleActionTypeRoute else odAction act);
          strategy = dnsRuleActionHasStrategy act
      in \<lparr>disabled = actionType = RuleActionTypeEvaluate \<or> actionType = RuleActionTypeRespond \<or>
            dnsRuleActionDisablesLegacyDNSMode act,
          needed = strategy, neededFromStrategy = strategy\<rparr>)"

fun dnsRuleModeRequirementsInRule ::
  "ruleSetLookup option \<Rightarrow> overrides \<Rightarrow> dns_rule_options \<Rightarrow> (goerror, dnsRuleModeFlags) result" where
  "dnsRuleModeRequirementsInRule router metadataOverrides (DNSRuleOptions ty d md rs neg act) =
     (if ty = [] \<or> ty = RuleTypeDefault then
        dnsRuleModeRequirementsInDefaultRule router d metadataOverrides
      else if ty = RuleTypeLogical then
        forIR (\<lambda>i subRule flags.
          bindR (withCause (indexed ''sub rule'' i)
            (dnsRuleModeRequirementsInRule router metadataOverrides subRule))
          (\<lambda>subFlags. Ok (mergeFlags flags subFlags))) 0 rs (logicalRuleFlags act)
      else Ok noFlags)"

definition dnsRuleModeRequirements ::
  "ruleSetLookup option \<Rightarrow> dns_rule_options list \<Rightarrow> overrides \<Rightarrow> (goerror, dnsRuleModeFlags) result" where
  "dnsRuleModeRequirements router rules metadataOverrides =
     forIR (\<lambda>i rule flags.
       bindR (withCause (indexed ''dns rule'' i) (dnsRuleModeRequirementsInRule router metadataOverrides rule))
       (\<lambda>ruleFlags. Ok (mergeFlags flags ruleFlags))) 0 rules noFlags"

definition resolveLegacyDNSMode ::
  "ruleSetLookup option \<Rightarrow> dns_rule_options list \<Rightarrow> overrides \<Rightarrow> (goerror, bool \<times> dnsRuleModeFlags) result" where
  "resolveLegacyDNSMode router rules metadataOverrides =
     bindR (dnsRuleModeRequirements router rules metadataOverrides) (\<lambda>flags.
       if disabled flags \<and> neededFromStrategy flags
       then Err (ENew (MessageWithLink OptionLegacyDNSRuleStrategy))
       else if disabled flags then Ok (False, flags)
       else Ok (needed flags, flags))"

section \<open>Validation\<close>

text \<open>The code reads the router here without the check above; a nil router is a nil dereference.\<close>

definition validateLegacyDNSModeDisabledDefaultRule ::
  "ruleSetLookup option \<Rightarrow> DefaultDNSRuleOptions \<Rightarrow> overrides \<Rightarrow> (goerror, bool) result" where
  "validateLegacyDNSModeDisabledDefaultRule router rule metadataOverrides =
     (let r = ddRaw rule in
      if (hasResponseMatchFields rule \<or> oIPCIDR r \<noteq> [] \<or> oIPIsPrivate r \<or> oIPAcceptAny r) \<and>
         \<not> oMatchResponse r
      then Err (ENew (''Response Match Fields (ip_cidr, ip_is_private, ip_accept_any, response_rcode, '' @
             ''response_answer, response_ns, response_extra) require match_response to be enabled''))
      else bindR
        (if \<not> oMatchResponse r \<and> oRuleSet r \<noteq> [] then
           (case router of
              None \<Rightarrow> Err (EPanic ''nil pointer dereference'')
            | Some lookup \<Rightarrow> forIR (\<lambda>_ tag _.
                bindR (lookupDNSRuleSetMetadata lookup tag metadataOverrides) (\<lambda>metadata.
                  if ContainsIPCIDRRule metadata \<and> \<not> ContainsNonIPCIDRRule metadata
                  then Err (ENew (MessageWithLink OptionLegacyDNSAddressFilter)) else Ok ()))
                0 (oRuleSet r) ())
         else Ok ())
        (\<lambda>_. if oRuleSetIPCIDRAcceptEmpty r
             then Err (ENew (MessageWithLink OptionRuleSetIPCIDRAcceptEmpty))
             else Ok (oMatchResponse r \<or> odAction (ddAction rule) = RuleActionTypeRespond)))"

fun validateLegacyDNSModeDisabledRuleTree ::
  "ruleSetLookup option \<Rightarrow> overrides \<Rightarrow> dns_rule_options \<Rightarrow> (goerror, bool) result" where
  "validateLegacyDNSModeDisabledRuleTree router metadataOverrides (DNSRuleOptions ty d md rs neg act) =
     (if ty = [] \<or> ty = RuleTypeDefault then
        validateLegacyDNSModeDisabledDefaultRule router d metadataOverrides
      else if ty = RuleTypeLogical then
        forIR (\<lambda>i subRule requiresPriorEvaluate.
          bindR (withCause (indexed ''sub rule'' i)
            (validateLegacyDNSModeDisabledRuleTree router metadataOverrides subRule))
          (\<lambda>sub. Ok (requiresPriorEvaluate \<or> sub))) 0 rs
          ((if odAction act = [] then RuleActionTypeRoute else odAction act) = RuleActionTypeRespond)
      else Ok False)"

definition validateLegacyDNSModeDisabledRules ::
  "ruleSetLookup option \<Rightarrow> dns_rule_options list \<Rightarrow> overrides \<Rightarrow> (goerror, unit) result" where
  "validateLegacyDNSModeDisabledRules router rules metadataOverrides =
     bindR (forIR (\<lambda>i rule seenEvaluate.
       bindR (withCause (indexed ''validate dns rule'' i)
         (validateLegacyDNSModeDisabledRuleTree router metadataOverrides rule))
       (\<lambda>requiresPriorEvaluate.
         if requiresPriorEvaluate \<and> \<not> seenEvaluate
         then Err (ENew (indexed ''dns rule'' i @
                '': response-based matching requires a preceding evaluate action''))
         else Ok (seenEvaluate \<or> dnsRuleActionType rule = RuleActionTypeEvaluate))) 0 rules False)
     (\<lambda>_. Ok ())"

text \<open>A transport is what the router sees of it: its tag and its type.  The manager is nil or looks
  transports up by tag.\<close>

record dnsTransport =
  trTag :: string
  trType :: string

definition validateEvaluateFakeIPRules ::
  "dns_rule_options list \<Rightarrow> (string \<Rightarrow> dnsTransport option) option \<Rightarrow> (goerror, unit) result" where
  "validateEvaluateFakeIPRules rules transportManager = (case transportManager of
     None \<Rightarrow> Ok ()
   | Some lookup \<Rightarrow> forIR (\<lambda>i rule _.
       if dnsRuleActionType rule \<noteq> RuleActionTypeEvaluate then Ok ()
       else if dnsRuleActionServer rule = [] then Ok ()
       else case lookup (dnsRuleActionServer rule) of
         None \<Rightarrow> Ok ()
       | Some transport \<Rightarrow> if trType transport \<noteq> DNSTypeFakeIP then Ok ()
           else Err (ENew (indexed ''dns rule'' i @ '': evaluate action cannot use fakeip server: '' @
                  dnsRuleActionServer rule))) 0 rules ())"

section \<open>Building rules\<close>

record dnsServices =
  dsBuilders :: builders
  dsRouter :: "ruleSetLookup option"
  dsTransport :: "(string \<Rightarrow> dnsTransport option) option"
  dsServices :: services

text \<open>The loop of \<^verbatim>\<open>buildRules\<close> that parses the rules: on an error the rules built so far are closed.\<close>

fun parseRules ::
  "builders \<Rightarrow> bool \<Rightarrow> nat \<Rightarrow> dns_rule_options list \<Rightarrow> dns_rule list \<Rightarrow> refcounts \<Rightarrow>
   (goerror, dns_rule list) result \<times> refcounts" where
  "parseRules B legacyDNSMode i [] newRules refs = (Ok newRules, refs)"
| "parseRules B legacyDNSMode i (ruleOptions # rest) newRules refs =
     (case NewDNSRule B ruleOptions True legacyDNSMode of
        Inl (EPanic p) \<Rightarrow> (Err (EPanic p), refs)
      | Inl err \<Rightarrow> (case closeRules dnsRule_Close newRules refs of
            (Some p, refs') \<Rightarrow> (Err p, refs')
          | (None, refs') \<Rightarrow> (Err (ECause err (indexed ''parse dns rule'' i)), refs'))
      | Inr dnsRule \<Rightarrow> parseRules B legacyDNSMode (Suc i) rest (newRules @ [dnsRule]) refs)"

definition checkRules ::
  "dnsServices \<Rightarrow> dns_rule_options list \<Rightarrow> (goerror, bool \<times> dnsRuleModeFlags) result" where
  "checkRules D rawRules =
     bindR (forIR (\<lambda>i ruleOptions _. withCause (indexed ''parse dns rule'' i)
       (validateNoNestedDNSRuleActions ruleOptions False)) 0 rawRules ()) (\<lambda>_.
     bindR (resolveLegacyDNSMode (dsRouter D) rawRules []) (\<lambda>(legacyDNSMode, modeFlags).
     bindR (if \<not> legacyDNSMode then validateLegacyDNSModeDisabledRules (dsRouter D) rawRules [] else Ok ()) (\<lambda>_.
     bindR (validateEvaluateFakeIPRules rawRules (dsTransport D)) (\<lambda>_.
       Ok (legacyDNSMode, modeFlags)))))"

definition buildRules ::
  "dnsServices \<Rightarrow> bool \<Rightarrow> dns_rule_options list \<Rightarrow> refcounts \<Rightarrow>
   (goerror, dns_rule list \<times> bool \<times> dnsRuleModeFlags) result \<times> refcounts" where
  "buildRules D start rawRules refs = (case checkRules D rawRules of
     Inl err \<Rightarrow> (Err err, refs)
   | Inr (legacyDNSMode, modeFlags) \<Rightarrow>
       (case parseRules (dsBuilders D) legacyDNSMode 0 rawRules [] refs of
          (Inl err, refs1) \<Rightarrow> (Err err, refs1)
        | (Inr newRules, refs1) \<Rightarrow>
            if start then
              (case startRules (dnsRule_Start (dsServices D)) ''initialize DNS rule'' newRules refs1 of
                 (Some (EPanic p), started, refs2) \<Rightarrow> (Err (EPanic p), refs2)
               | (Some err, started, refs2) \<Rightarrow> (case closeRules dnsRule_Close started refs2 of
                     (Some p, refs3) \<Rightarrow> (Err p, refs3)
                   | (None, refs3) \<Rightarrow> (Err err, refs3))
               | (None, started, refs2) \<Rightarrow> (Ok (started, legacyDNSMode, modeFlags), refs2))
            else (Ok (newRules, legacyDNSMode, modeFlags), refs1)))"

section \<open>The router's rules over its life\<close>

record dnsRouter =
  rawRules :: "dns_rule_options list"
  runtimeRules :: "dns_rule list"
  legacyDNSMode :: bool
  routerStarted :: bool
  closing :: bool

definition newRouter :: dnsRouter where
  "newRouter = \<lparr>rawRules = [], runtimeRules = [], legacyDNSMode = False, routerStarted = False, closing = False\<rparr>"

text \<open>\<^verbatim>\<open>Initialize\<close>, the only stage of \<^verbatim>\<open>Start\<close> that acts, and \<^verbatim>\<open>Close\<close>: the error, the router and the
  reference counts after the call.\<close>

definition router_Initialize ::
  "dnsServices \<Rightarrow> dns_rule_options list \<Rightarrow> dnsRouter \<Rightarrow> refcounts \<Rightarrow> goerror option \<times> dnsRouter \<times> refcounts" where
  "router_Initialize D options r refs =
     (let r' = r\<lparr>rawRules := options\<rparr>
      in case buildRules D False options refs of
        (Inl err, refs') \<Rightarrow> (Some err, r', refs')
      | (Inr (newRules, _, _), refs') \<Rightarrow>
          (let (p, refs'') = closeRules dnsRule_Close newRules refs' in (p, r', refs'')))"

definition router_Start ::
  "dnsServices \<Rightarrow> dnsRouter \<Rightarrow> refcounts \<Rightarrow> goerror option \<times> dnsRouter \<times> refcounts" where
  "router_Start D r refs = (case buildRules D True (rawRules r) refs of
     (Inl err, refs') \<Rightarrow> (Some err, r, refs')
   | (Inr (newRules, legacy, modeFlags), refs') \<Rightarrow>
       if closing r then (let (p, refs'') = closeRules dnsRule_Close newRules refs' in (p, r, refs''))
       else (None, r\<lparr>runtimeRules := newRules, legacyDNSMode := legacy, routerStarted := True\<rparr>, refs'))"

definition router_Close :: "dnsRouter \<Rightarrow> refcounts \<Rightarrow> goerror option \<times> dnsRouter \<times> refcounts" where
  "router_Close r refs =
     (if closing r then (None, r, refs)
      else let (p, refs') = closeRules dnsRule_Close (runtimeRules r) refs
           in (p, r\<lparr>closing := True, runtimeRules := []\<rparr>, refs'))"

section \<open>Updates of rule-sets\<close>

definition ValidateRuleSetMetadataUpdate ::
  "ruleSetLookup option \<Rightarrow> dnsRouter \<Rightarrow> string \<Rightarrow> RuleSetMetadata \<Rightarrow> (goerror, unit) result" where
  "ValidateRuleSetMetadataUpdate router r tag metadata =
     (if rawRules r = [] then Ok ()
      else if router = None then Err (ENew ''router service not found'')
      else if closing r then Ok ()
      else if \<not> routerStarted r then
        bindR (resolveLegacyDNSMode router (rawRules r) [(tag, metadata)]) (\<lambda>(candidate, _).
          if \<not> candidate then validateLegacyDNSModeDisabledRules router (rawRules r) [(tag, metadata)]
          else Ok ())
      else
        bindR (resolveLegacyDNSMode router (rawRules r) [(tag, metadata)]) (\<lambda>(candidate, flags).
          if legacyDNSMode r then
            (if \<not> candidate \<and> disabled flags then
               bindR (validateLegacyDNSModeDisabledRules router (rawRules r) [(tag, metadata)])
                 (\<lambda>_. Err (ENew (MessageWithLink OptionLegacyDNSAddressFilter)))
             else Ok ())
          else if candidate then Err (ENew (MessageWithLink OptionLegacyDNSAddressFilter))
          else validateLegacyDNSModeDisabledRules router (rawRules r) [(tag, metadata)]))"

end
