(* ===== verification/DNSRouter.thy ===== *)
theory DNSRouter
  imports DNSMode Route
begin

text \<open>
  DNS queries through the rules (\<^verbatim>\<open>dns/router.go\<close>): the choice of a server in the legacy mode, the rule
  loop of the other mode, and the two entry points \<^verbatim>\<open>Exchange\<close> and \<^verbatim>\<open>Lookup\<close>.  The client is the
  interface \<^verbatim>\<open>adapter.DNSClient\<close>, a record of operations with a state; a nil transport is \<open>None\<close>.  The
  metadata that rules read and write is passed along.  Logging is left out.
\<close>

section \<open>Data\<close>

definition DomainStrategyPreferIPv6 :: uint8 where "DomainStrategyPreferIPv6 = 2"

definition RcodeFormatError :: int where "RcodeFormatError = 1"

record DNSQueryOptions =
  qoTransport :: "dnsTransport option"
  qoStrategy :: uint8
  qoLookupStrategy :: uint8
  qoDisableCache :: bool
  qoDisableOptimisticCache :: bool
  qoRewriteTTL :: "uint32 option"
  qoTimeout :: int
  qoClientSubnet :: netprefix

definition noQueryOptions :: DNSQueryOptions where
  "noQueryOptions = \<lparr>qoTransport = None, qoStrategy = DomainStrategyAsIS, qoLookupStrategy = DomainStrategyAsIS,
     qoDisableCache = False, qoDisableOptimisticCache = False, qoRewriteTTL = None, qoTimeout = 0,
     qoClientSubnet = noPrefix\<rparr>"

text \<open>
  Errors of the DNS code: general errors, the sentinels the router compares with, response codes, the
  errors of a reject action, and wrapped or joined errors.
\<close>

datatype dnsError =
    DErr goerror
  | DErrDrop
  | DErrReset
  | DRcodeError int
  | DErrResponseRejected
  | DErrResponseRejectedCached
  | DErrNotCached
  | DRejectedError "dnsError option"
  | DContextErr
  | DCause dnsError string
  | DJoined "dnsError list"

text \<open>\<^verbatim>\<open>errors.Is(err, ErrResponseRejected)\<close>; the cached variant extends the plain one.\<close>

fun isResponseRejected :: "dnsError \<Rightarrow> bool" where
  "isResponseRejected DErrResponseRejected = True"
| "isResponseRejected DErrResponseRejectedCached = True"
| "isResponseRejected (DRejectedError (Some e)) = isResponseRejected e"
| "isResponseRejected (DCause e _) = isResponseRejected e"
| "isResponseRejected (DJoined es) = list_ex isResponseRejected es"
| "isResponseRejected _ = False"

type_synonym responseCheck = "(dnsMsg \<Rightarrow> bool) option"

text \<open>
  The client: \<^verbatim>\<open>Exchange\<close> and \<^verbatim>\<open>Lookup\<close> with the tag of the transport the context was derived from, the
  transport, the message or domain, the options and the checker.  Both a message and an error may be
  returned.
\<close>

record 'c clientOps =
  cExchange :: "'c \<Rightarrow> string option \<Rightarrow> dnsTransport option \<Rightarrow> dnsMsg \<Rightarrow> DNSQueryOptions \<Rightarrow> responseCheck \<Rightarrow>
    (dnsMsg option \<times> dnsError option) \<times> 'c"
  cLookup :: "'c \<Rightarrow> string option \<Rightarrow> dnsTransport option \<Rightarrow> string \<Rightarrow> DNSQueryOptions \<Rightarrow> responseCheck \<Rightarrow>
    (addr list \<times> dnsError option) \<times> 'c"
  cClearCache :: "'c \<Rightarrow> 'c"

text \<open>
  What the router uses: the rule matching environment, the transport manager, the default strategy,
  the functions \<^verbatim>\<open>IsFqdn\<close> and \<^verbatim>\<open>Fqdn\<close> of the DNS library, and the error a reject action answers with.
\<close>

record dnsEnv =
  deEnv :: env
  deTransport :: "string \<Rightarrow> dnsTransport option"
  deDefault :: "dnsTransport option"
  deStrategy :: uint8
  deIsFqdn :: "string \<Rightarrow> bool"
  deFqdn :: "string \<Rightarrow> string"
  deRejectError :: "string \<Rightarrow> bool \<Rightarrow> dnsError option"

definition isFakeIP :: "dnsTransport \<Rightarrow> bool" where
  "isFakeIP t \<longleftrightarrow> trType t = DNSTypeFakeIP"

definition FqdnToDomain :: "dnsEnv \<Rightarrow> string \<Rightarrow> string" where
  "FqdnToDomain N fqdn = (if deIsFqdn N fqdn then butlast fqdn else fqdn)"

section \<open>Options of rules\<close>

definition overrideWith :: "'a option \<Rightarrow> 'a option \<Rightarrow> 'a option" where
  "overrideWith new old = (if new \<noteq> None then new else old)"

definition applyDNSRouteOptions :: "DNSRouteOptions \<Rightarrow> DNSQueryOptions \<Rightarrow> DNSQueryOptions" where
  "applyDNSRouteOptions ro o' = o'\<lparr>
     qoDisableCache := qoDisableCache o' \<or> drDisableCache ro,
     qoDisableOptimisticCache := qoDisableOptimisticCache o' \<or> drDisableOptimisticCache ro,
     qoRewriteTTL := overrideWith (drRewriteTTL ro) (qoRewriteTTL o'),
     qoTimeout := (if drTimeout ro > 0 then drTimeout ro else qoTimeout o'),
     qoClientSubnet := (if prefixIsValid (drClientSubnet ro) then drClientSubnet ro else qoClientSubnet o')\<rparr>"

text \<open>What the two cases of \<^verbatim>\<open>matchDNS\<close> do with the options of a rule.\<close>

definition legacyOptions :: "bool \<Rightarrow> DNSRouteOptions \<Rightarrow> DNSQueryOptions \<Rightarrow> DNSQueryOptions" where
  "legacyOptions fake ro o' = o'\<lparr>
     qoStrategy := (if drStrategy ro \<noteq> DomainStrategyAsIS then drStrategy ro else qoStrategy o'),
     qoDisableCache := qoDisableCache o' \<or> fake \<or> drDisableCache ro,
     qoRewriteTTL := overrideWith (drRewriteTTL ro) (qoRewriteTTL o'),
     qoTimeout := (if drTimeout ro > 0 then drTimeout ro else qoTimeout o'),
     qoClientSubnet := (if prefixIsValid (drClientSubnet ro) then drClientSubnet ro else qoClientSubnet o')\<rparr>"

definition withDefaultStrategy :: "dnsEnv \<Rightarrow> DNSQueryOptions \<Rightarrow> DNSQueryOptions" where
  "withDefaultStrategy N o' =
     (if qoStrategy o' = DomainStrategyAsIS then o'\<lparr>qoStrategy := deStrategy N\<rparr> else o')"

section \<open>The legacy mode\<close>

text \<open>What the body of the loop of \<^verbatim>\<open>matchDNS\<close> makes of a rule: go on, or decide for it.\<close>

datatype legacyVerdict =
    NextRule InboundContext DNSQueryOptions
  | UseRule "dnsTransport option" InboundContext DNSQueryOptions

definition legacyRule ::
  "dnsEnv \<Rightarrow> bool \<Rightarrow> bool \<Rightarrow> dns_rule \<Rightarrow> InboundContext \<Rightarrow> DNSQueryOptions \<Rightarrow> legacyVerdict" where
  "legacyRule N allowFakeIP isAddr rule m o' =
     (if WithAddressLimit rule \<and> \<not> isAddr then NextRule m o'
      else
        let (matched, m1) = LegacyPreMatch (deEnv N) rule
              ((ResetRuleCache m)\<lparr>DestinationAddressMatchFromResponse := False\<rparr>)
        in if \<not> matched then NextRule m1 o'
        else case dnsRule_Action rule of
          Some (RuleActionDNSRoute server ro) \<Rightarrow> (case deTransport N server of
              None \<Rightarrow> NextRule m1 o'
            | Some transport \<Rightarrow>
                if isFakeIP transport \<and> \<not> allowFakeIP then NextRule m1 o'
                else UseRule (Some transport) m1 (legacyOptions (isFakeIP transport) ro o'))
        | Some (RuleActionDNSRouteOptions ro) \<Rightarrow> NextRule m1 (legacyOptions False ro o')
        | Some (RuleActionReject method noDrop) \<Rightarrow> UseRule None m1 o'
        | Some (RuleActionPredefined rcode answer ns extra) \<Rightarrow> UseRule None m1 o'
        | _ \<Rightarrow> NextRule m1 o')"

text \<open>
  The loop of \<^verbatim>\<open>matchDNS\<close> from rule \<open>i\<close> on: the transport, the rule with its index, if one decided, the
  metadata and the options.
\<close>

fun matchDNSFrom ::
  "dnsEnv \<Rightarrow> bool \<Rightarrow> bool \<Rightarrow> nat \<Rightarrow> dns_rule list \<Rightarrow> InboundContext \<Rightarrow> DNSQueryOptions \<Rightarrow>
   dnsTransport option \<times> (nat \<times> dns_rule) option \<times> InboundContext \<times> DNSQueryOptions" where
  "matchDNSFrom N allowFakeIP isAddr i [] m o' = (deDefault N, None, m, o')"
| "matchDNSFrom N allowFakeIP isAddr i (rule # rest) m o' = (case legacyRule N allowFakeIP isAddr rule m o' of
     NextRule m1 o1 \<Rightarrow> matchDNSFrom N allowFakeIP isAddr (Suc i) rest m1 o1
   | UseRule transport m1 o1 \<Rightarrow> (transport, Some (i, rule), m1, o1))"

text \<open>\<^verbatim>\<open>matchDNS\<close>: an index of -1 is \<open>None\<close>.\<close>

definition matchDNS ::
  "dnsEnv \<Rightarrow> dns_rule list \<Rightarrow> bool \<Rightarrow> nat option \<Rightarrow> bool \<Rightarrow> InboundContext \<Rightarrow> DNSQueryOptions \<Rightarrow>
   dnsTransport option \<times> (nat \<times> dns_rule) option \<times> InboundContext \<times> DNSQueryOptions" where
  "matchDNS N rules allowFakeIP ruleIndex isAddr m o' =
     (let i = (case ruleIndex of None \<Rightarrow> 0 | Some k \<Rightarrow> Suc k)
      in matchDNSFrom N allowFakeIP isAddr i (drop i rules) m o')"

definition isAddressQuery :: "dnsMsg \<Rightarrow> bool" where
  "isAddressQuery message \<longleftrightarrow>
     list_ex (\<lambda>q. qType q = TypeA \<or> qType q = TypeAAAA \<or> qType q = TypeHTTPS) (msgQuestion message)"

definition addressLimitResponseCheck ::
  "dnsEnv \<Rightarrow> (nat \<times> dns_rule) option \<Rightarrow> InboundContext \<Rightarrow> responseCheck" where
  "addressLimitResponseCheck N rule metadata = (case rule of
     None \<Rightarrow> None
   | Some (i, r) \<Rightarrow> if \<not> WithAddressLimit r then None
       else Some (\<lambda>response. MatchAddressLimit (deEnv N) r metadata (Some response)))"

definition refusedResponse :: "dnsMsg \<Rightarrow> dnsMsg" where
  "refusedResponse message = \<lparr>msgId = msgId message, msgResponse = True, msgAuthoritative = False,
     msgRecursionDesired = False, msgRecursionAvailable = False, msgRcode = RcodeRefused,
     msgQuestion = [hd (msgQuestion message)], msgAnswer = [], msgNs = [], msgExtra = []\<rparr>"

definition ofResult :: "(goerror, dnsMsg) result \<Rightarrow> dnsMsg option \<times> dnsError option" where
  "ofResult r = (case r of Inl e \<Rightarrow> (None, Some (DErr e)) | Inr a \<Rightarrow> (Some a, None))"

text \<open>
  How a query ends: the answer is final, or it goes through the bookkeeping at \<^verbatim>\<open>done\<close> with the
  transport that gave it.
\<close>

datatype dnsOutcome =
    Return "dnsMsg option" "dnsError option"
  | Done "dnsTransport option" "dnsMsg option" "dnsError option"

lemma matchDNSFrom_index:
  "matchDNSFrom N a b i rules m o' = (t, Some (j, rule), m', o'') \<Longrightarrow>
   i \<le> j \<and> j < i + length rules \<and> rule = rules ! (j - i)"
proof (induction rules arbitrary: i m o')
  case (Cons r rest)
  show ?case
  proof (cases "legacyRule N a b r m o'")
    case (NextRule m1 o1)
    with Cons.prems have "matchDNSFrom N a b (Suc i) rest m1 o1 = (t, Some (j, rule), m', o'')" by simp
    from Cons.IH[OF this] have "j - i = Suc (j - Suc i)" "Suc i \<le> j" "j < Suc i + length rest"
      "rule = rest ! (j - Suc i)" by auto
    then show ?thesis by simp
  next
    case (UseRule t1 m1 o1)
    with Cons.prems show ?thesis by auto
  qed
qed simp

lemma matchDNS_index:
  assumes "matchDNS N rules a ruleIndex b m o' = (t, Some (j, rule), m', o'')"
  shows "j < length rules" "rule = rules ! j" "ruleIndex = Some k \<Longrightarrow> k < j"
proof -
  let ?i = "case ruleIndex of None \<Rightarrow> 0 | Some k \<Rightarrow> Suc k"
  from assms have "matchDNSFrom N a b ?i (drop ?i rules) m o' = (t, Some (j, rule), m', o'')"
    by (simp add: matchDNS_def Let_def)
  from matchDNSFrom_index[OF this]
  have j: "?i \<le> j" "j < ?i + length (drop ?i rules)" "rule = drop ?i rules ! (j - ?i)" by auto
  then show "j < length rules" "rule = rules ! j" by auto
  show "ruleIndex = Some k \<Longrightarrow> k < j" using j(1) by auto
qed

text \<open>
  One round of the loop of \<^verbatim>\<open>Exchange\<close> in the legacy mode: it ends the query, or the check of a rule with an
  address limit rejected the response and the next round starts after that rule.
\<close>

datatype ('o, 'c) round = Finish 'o 'c | Again nat InboundContext 'c

definition limitedExchange ::
  "dnsEnv \<Rightarrow> 'c clientOps \<Rightarrow> string option \<Rightarrow> dnsMsg \<Rightarrow> dnsTransport option \<Rightarrow> (nat \<times> dns_rule) option \<Rightarrow>
   InboundContext \<Rightarrow> DNSQueryOptions \<Rightarrow> 'c \<Rightarrow> (dnsOutcome, 'c) round" where
  "limitedExchange N C tag message transport rule m dnsOptions c =
     (let check = addressLimitResponseCheck N rule m;
          ((response, err), c') = cExchange C c tag transport message (withDefaultStrategy N dnsOptions) check;
          rejected = (case err of None \<Rightarrow> False | Some e \<Rightarrow> isResponseRejected e)
      in case rule of
        Some (i, r) \<Rightarrow> if check \<noteq> None \<and> rejected then Again i m c' else Finish (Done transport response err) c'
      | None \<Rightarrow> Finish (Done transport response err) c')"

definition legacyExchangeRound ::
  "dnsEnv \<Rightarrow> 'c clientOps \<Rightarrow> string option \<Rightarrow> dns_rule list \<Rightarrow> dnsMsg \<Rightarrow> DNSQueryOptions \<Rightarrow> nat option \<Rightarrow>
   InboundContext \<Rightarrow> 'c \<Rightarrow> (dnsOutcome, 'c) round" where
  "legacyExchangeRound N C tag rules message options ruleIndex m c =
     (let (transport, rule, m', dnsOptions) = matchDNS N rules True ruleIndex (isAddressQuery message) m options;
          exchange = limitedExchange N C tag message transport rule m' dnsOptions c
      in case rule of
        None \<Rightarrow> exchange
      | Some (i, r) \<Rightarrow> (case dnsRule_Action r of
          Some (RuleActionReject method noDrop) \<Rightarrow>
            (if method = RuleActionRejectMethodDefault then Finish (Return (Some (refusedResponse message)) None) c
             else if method = RuleActionRejectMethodDrop then Finish (Return None (Some DErrDrop)) c
             else exchange)
        | Some (RuleActionPredefined rcode answer ns extra) \<Rightarrow>
            (let (response, err) = ofResult (RuleActionPredefined_Response rcode answer ns extra message)
             in Finish (Done transport response err) c)
        | _ \<Rightarrow> exchange))"

lemma limitedExchange_again:
  "limitedExchange N C tag message t rule m o' c = Again i m' c' \<Longrightarrow> \<exists>r. rule = Some (i, r)"
  by (auto simp: limitedExchange_def Let_def split: prod.splits option.splits if_splits)

definition nextRule :: "nat option \<Rightarrow> nat" where
  "nextRule ruleIndex = (case ruleIndex of None \<Rightarrow> 0 | Some k \<Rightarrow> Suc k)"

lemma matchDNS_next:
  assumes "matchDNS N rules a ruleIndex b m o' = (t, Some (j, rule), m', o'')"
  shows "length rules - nextRule (Some j) < length rules - nextRule ruleIndex"
proof -
  have "j < length rules" by (rule matchDNS_index(1)[OF assms])
  moreover have "nextRule ruleIndex \<le> j"
    using matchDNS_index(3)[OF assms] by (cases ruleIndex) (auto simp: nextRule_def Suc_le_eq)
  ultimately show ?thesis by (simp add: nextRule_def[of "Some j"])
qed

lemma legacyExchangeRound_again:
  assumes "legacyExchangeRound N C tag rules message options ruleIndex m c = Again i m' c'"
  shows "length rules - nextRule (Some i) < length rules - nextRule ruleIndex"
proof -
  obtain t rule m1 o1 where md: "matchDNS N rules True ruleIndex (isAddressQuery message) m options = (t, rule, m1, o1)"
    by (cases "matchDNS N rules True ruleIndex (isAddressQuery message) m options") auto
  from assms md obtain r where "rule = Some (i, r)"
    by (auto simp: legacyExchangeRound_def Let_def dest!: limitedExchange_again
        split: option.splits rule_action.splits if_splits prod.splits)
  with md matchDNS_next show ?thesis by blast
qed

function legacyExchange ::
  "dnsEnv \<Rightarrow> 'c clientOps \<Rightarrow> string option \<Rightarrow> dns_rule list \<Rightarrow> dnsMsg \<Rightarrow> DNSQueryOptions \<Rightarrow> nat option \<Rightarrow>
   InboundContext \<Rightarrow> 'c \<Rightarrow> dnsOutcome \<times> 'c" where
  "legacyExchange N C tag rules message options ruleIndex m c =
     (case legacyExchangeRound N C tag rules message options ruleIndex m c of
        Finish out c' \<Rightarrow> (out, c')
      | Again i m' c' \<Rightarrow> legacyExchange N C tag rules message options (Some i) m' c')"
  by pat_completeness auto
termination
  by (relation "measure (\<lambda>(N, C, tag, rules, message, options, ruleIndex, m, c). length rules - nextRule ruleIndex)")
    (auto dest: legacyExchangeRound_again)

declare legacyExchange.simps [simp del]

section \<open>The mode without address filters\<close>

datatype dnsRouteStatus = dnsRouteStatusMissing | dnsRouteStatusSkipped | dnsRouteStatusResolved

definition resolveDNSRoute ::
  "dnsEnv \<Rightarrow> string \<Rightarrow> DNSRouteOptions \<Rightarrow> bool \<Rightarrow> DNSQueryOptions \<Rightarrow>
   dnsTransport option \<times> dnsRouteStatus \<times> DNSQueryOptions" where
  "resolveDNSRoute N server ro allowFakeIP o' = (case deTransport N server of
     None \<Rightarrow> (None, dnsRouteStatusMissing, o')
   | Some transport \<Rightarrow>
       if isFakeIP transport \<and> \<not> allowFakeIP then (Some transport, dnsRouteStatusSkipped, o')
       else let o1 = applyDNSRouteOptions ro o'
            in (Some transport, dnsRouteStatusResolved,
                if isFakeIP transport then o1\<lparr>qoDisableCache := True\<rparr> else o1))"

record exchangeWithRulesResult =
  ewResponse :: "dnsMsg option"
  ewTransport :: "dnsTransport option"
  ewRejectAction :: "(string \<times> bool) option"
  ewErr :: "dnsError option"

definition noExchangeResult :: exchangeWithRulesResult where
  "noExchangeResult = \<lparr>ewResponse = None, ewTransport = None, ewRejectAction = None, ewErr = None\<rparr>"

definition dnsRespondMissingResponseMessage :: string where
  "dnsRespondMissingResponseMessage =
     ''respond action requires an evaluated response from a preceding evaluate action''"

text \<open>The variables of the loop: the metadata, the options in effect and the evaluated response with its
  transport.\<close>

record ruleLoop =
  rlMetadata :: InboundContext
  rlOptions :: DNSQueryOptions
  rlResponse :: "dnsMsg option"
  rlTransport :: "dnsTransport option"

datatype 'c ruleStep = Proceed ruleLoop 'c | Answer exchangeWithRulesResult InboundContext 'c

definition exchangeVia ::
  "dnsEnv \<Rightarrow> 'c clientOps \<Rightarrow> string option \<Rightarrow> dnsTransport option \<Rightarrow> dnsMsg \<Rightarrow> DNSQueryOptions \<Rightarrow> 'c \<Rightarrow>
   exchangeWithRulesResult \<times> 'c" where
  "exchangeVia N C tag transport message o' c =
     (let ((response, err), c') = cExchange C c tag transport message (withDefaultStrategy N o') None
      in (noExchangeResult\<lparr>ewResponse := response, ewTransport := transport, ewErr := err\<rparr>, c'))"

definition evaluateVia ::
  "dnsEnv \<Rightarrow> 'c clientOps \<Rightarrow> string option \<Rightarrow> string \<Rightarrow> DNSRouteOptions \<Rightarrow> dnsMsg \<Rightarrow> ruleLoop \<Rightarrow> 'c \<Rightarrow> ruleLoop \<times> 'c" where
  "evaluateVia N C tag server ro message s c = (case deTransport N server of
     None \<Rightarrow> (s\<lparr>rlResponse := None, rlTransport := None\<rparr>, c)
   | Some transport \<Rightarrow>
       let ((response, err), c') = cExchange C c tag (Some transport) message
             (withDefaultStrategy N (applyDNSRouteOptions ro (rlOptions s))) None
       in (if err \<noteq> None then (s\<lparr>rlResponse := None, rlTransport := None\<rparr>, c')
           else (s\<lparr>rlResponse := response, rlTransport := Some transport\<rparr>, c')))"

text \<open>The body of the loop of \<^verbatim>\<open>exchangeWithRules\<close> for a rule that matched.\<close>

definition ruleAnswer ::
  "dnsEnv \<Rightarrow> 'c clientOps \<Rightarrow> string option \<Rightarrow> dnsMsg \<Rightarrow> bool \<Rightarrow> rule_action option \<Rightarrow> ruleLoop \<Rightarrow> 'c \<Rightarrow> 'c ruleStep" where
  "ruleAnswer N C tag message allowFakeIP act s c = (case act of
     Some (RuleActionDNSRouteOptions ro) \<Rightarrow> Proceed (s\<lparr>rlOptions := applyDNSRouteOptions ro (rlOptions s)\<rparr>) c
   | Some (RuleActionEvaluate server ro) \<Rightarrow>
       (let (s', c') = evaluateVia N C tag server ro message s c in Proceed s' c')
   | Some RuleActionRespond \<Rightarrow>
       (if rlResponse s = None
        then Answer (noExchangeResult\<lparr>ewErr := Some (DErr (ENew dnsRespondMissingResponseMessage))\<rparr>) (rlMetadata s) c
        else Answer (noExchangeResult\<lparr>ewResponse := rlResponse s, ewTransport := rlTransport s\<rparr>) (rlMetadata s) c)
   | Some (RuleActionDNSRoute server ro) \<Rightarrow>
       (case resolveDNSRoute N server ro allowFakeIP (rlOptions s) of
          (transport, dnsRouteStatusResolved, o1) \<Rightarrow>
            (let (res, c') = exchangeVia N C tag transport message o1 c in Answer res (rlMetadata s) c')
        | _ \<Rightarrow> Proceed s c)
   | Some (RuleActionReject method noDrop) \<Rightarrow>
       (if method = RuleActionRejectMethodDefault
        then Answer (noExchangeResult\<lparr>ewResponse := Some (refusedResponse message),
               ewRejectAction := Some (method, noDrop)\<rparr>) (rlMetadata s) c
        else if method = RuleActionRejectMethodDrop
        then Answer (noExchangeResult\<lparr>ewRejectAction := Some (method, noDrop), ewErr := Some DErrDrop\<rparr>)
               (rlMetadata s) c
        else Proceed s c)
   | Some (RuleActionPredefined rcode answer ns extra) \<Rightarrow>
       (let (response, err) = ofResult (RuleActionPredefined_Response rcode answer ns extra message)
        in Answer (noExchangeResult\<lparr>ewResponse := response, ewErr := err\<rparr>) (rlMetadata s) c)
   | _ \<Rightarrow> Proceed s c)"

fun ruleLoopRun ::
  "dnsEnv \<Rightarrow> 'c clientOps \<Rightarrow> string option \<Rightarrow> dnsMsg \<Rightarrow> bool \<Rightarrow> dns_rule list \<Rightarrow> ruleLoop \<Rightarrow> 'c \<Rightarrow>
   exchangeWithRulesResult \<times> InboundContext \<times> 'c" where
  "ruleLoopRun N C tag message allowFakeIP [] s c =
     (let (res, c') = exchangeVia N C tag (deDefault N) message (rlOptions s) c in (res, rlMetadata s, c'))"
| "ruleLoopRun N C tag message allowFakeIP (rule # rest) s c =
     (let m0 = (ResetRuleCache (rlMetadata s))\<lparr>DNSResponse := rlResponse s, DestinationAddressMatchFromResponse := False\<rparr>;
          (matched, m1) = dnsRule_Match (deEnv N) rule m0;
          s1 = s\<lparr>rlMetadata := m1\<rparr>
      in if \<not> matched then ruleLoopRun N C tag message allowFakeIP rest s1 c
         else case ruleAnswer N C tag message allowFakeIP (dnsRule_Action rule) s1 c of
           Answer res m c' \<Rightarrow> (res, m, c')
         | Proceed s2 c' \<Rightarrow> ruleLoopRun N C tag message allowFakeIP rest s2 c')"

definition exchangeWithRules ::
  "dnsEnv \<Rightarrow> 'c clientOps \<Rightarrow> string option \<Rightarrow> dns_rule list \<Rightarrow> dnsMsg \<Rightarrow> DNSQueryOptions \<Rightarrow> bool \<Rightarrow>
   InboundContext \<Rightarrow> 'c \<Rightarrow> exchangeWithRulesResult \<times> InboundContext \<times> 'c" where
  "exchangeWithRules N C tag rules message options allowFakeIP m c =
     ruleLoopRun N C tag message allowFakeIP rules
       \<lparr>rlMetadata = m, rlOptions = options, rlResponse = None, rlTransport = None\<rparr> c"

section \<open>Exchange\<close>

text \<open>
  The router at run time: its rules and mode, the state of the client, and the reverse mapping, if it
  is enabled, as the list of entries added to the cache with their lifetimes, the latest first.
\<close>

record 'c dnsRuntime =
  rtRouter :: dnsRouter
  rtClient :: 'c
  rtReverse :: "(addr \<times> string \<times> uint32) list option"

definition queryMetadata :: "uint16 \<Rightarrow> InboundContext \<Rightarrow> InboundContext" where
  "queryMetadata qtype m = m\<lparr>QueryType := qtype,
     IPVersion := (if qtype = TypeA then 4 else if qtype = TypeAAAA then 6 else IPVersion m)\<rparr>"

definition exchangeMetadata :: "dnsEnv \<Rightarrow> Question \<Rightarrow> InboundContext \<Rightarrow> InboundContext" where
  "exchangeMetadata N q m = (queryMetadata (qType q)
     (m\<lparr>Destination := noSocksaddr, DNSResponse := None, DestinationAddressMatchFromResponse := False\<rparr>))
     \<lparr>Domain := FqdnToDomain N (qName q)\<rparr>"

definition reverseEntries :: "dnsEnv \<Rightarrow> RR list \<Rightarrow> (addr \<times> string \<times> uint32) list" where
  "reverseEntries N answers = concat (map (\<lambda>r. case rrData r of
     RData_A ip \<Rightarrow> [(AddrFromIP (deEnv N) ip, FqdnToDomain N (rrName r), rrTtl r)]
   | RData_AAAA ip \<Rightarrow> [(AddrFromIP (deEnv N) ip, FqdnToDomain N (rrName r), rrTtl r)]
   | _ \<Rightarrow> []) answers)"

definition recordAnswers ::
  "dnsEnv \<Rightarrow> dnsTransport option \<Rightarrow> dnsMsg option \<Rightarrow> (addr \<times> string \<times> uint32) list option \<Rightarrow>
   (addr \<times> string \<times> uint32) list option" where
  "recordAnswers N transport response reverse = (case (reverse, response) of
     (Some entries, Some msg) \<Rightarrow>
       (case transport of
          Some t \<Rightarrow> if isFakeIP t then Some entries else Some (rev (reverseEntries N (msgAnswer msg)) @ entries)
        | None \<Rightarrow> Some (rev (reverseEntries N (msgAnswer msg)) @ entries))
   | _ \<Rightarrow> reverse)"

definition finishExchange ::
  "dnsEnv \<Rightarrow> dnsOutcome \<Rightarrow> 'c dnsRuntime \<Rightarrow> (dnsMsg option \<times> dnsError option) \<times> 'c dnsRuntime" where
  "finishExchange N out rt = (case out of
     Return response err \<Rightarrow> ((response, err), rt)
   | Done transport response err \<Rightarrow>
       (if err \<noteq> None then ((None, err), rt)
        else ((response, None), rt\<lparr>rtReverse := recordAnswers N transport response (rtReverse rt)\<rparr>)))"

definition badQuestionResponse :: "dnsMsg \<Rightarrow> dnsMsg" where
  "badQuestionResponse message = \<lparr>msgId = msgId message, msgResponse = True, msgAuthoritative = False,
     msgRecursionDesired = False, msgRecursionAvailable = False, msgRcode = RcodeFormatError,
     msgQuestion = msgQuestion message, msgAnswer = [], msgNs = [], msgExtra = []\<rparr>"

definition router_Exchange ::
  "dnsEnv \<Rightarrow> 'c clientOps \<Rightarrow> string option \<Rightarrow> InboundContext \<Rightarrow> dnsMsg \<Rightarrow> DNSQueryOptions \<Rightarrow> 'c dnsRuntime \<Rightarrow>
   (dnsMsg option \<times> dnsError option) \<times> 'c dnsRuntime" where
  "router_Exchange N C tag m0 message options rt = (case msgQuestion message of
     [q] \<Rightarrow>
       if closing (rtRouter rt) then ((None, Some (DErr (ENew ''dns router closed''))), rt)
       else
         let m = exchangeMetadata N q m0;
             (out, c') =
               (case qoTransport options of
                  Some transport \<Rightarrow>
                    (let ((response, err), c') = cExchange C (rtClient rt) tag (Some transport) message
                           (withDefaultStrategy N options) None
                     in (Done (Some transport) response err, c'))
                | None \<Rightarrow>
                    if \<not> legacyDNSMode (rtRouter rt) then
                      (let (res, _, c') = exchangeWithRules N C tag (runtimeRules (rtRouter rt)) message options True m
                             (rtClient rt)
                       in (Done (ewTransport res) (ewResponse res) (ewErr res), c'))
                    else legacyExchange N C tag (runtimeRules (rtRouter rt)) message options None m (rtClient rt))
         in finishExchange N out (rt\<lparr>rtClient := c'\<rparr>)
   | _ \<Rightarrow> ((Some (badQuestionResponse message), None), rt))"

section \<open>Lookup\<close>

definition resolveLookupStrategy :: "dnsEnv \<Rightarrow> DNSQueryOptions \<Rightarrow> uint8" where
  "resolveLookupStrategy N options =
     (if qoLookupStrategy options \<noteq> DomainStrategyAsIS then qoLookupStrategy options
      else if qoStrategy options \<noteq> DomainStrategyAsIS then qoStrategy options
      else deStrategy N)"

definition withLookupQueryMetadata :: "uint16 \<Rightarrow> InboundContext \<Rightarrow> InboundContext" where
  "withLookupQueryMetadata qtype m = queryMetadata qtype (m\<lparr>IPVersion := 0\<rparr>)"

definition filterAddressesByQueryType :: "addr list \<Rightarrow> uint16 \<Rightarrow> addr list" where
  "filterAddressesByQueryType addresses qtype =
     (if qtype = TypeA then filter Is4 addresses
      else if qtype = TypeAAAA then filter Is6 addresses
      else addresses)"

definition sortAddresses :: "addr list \<Rightarrow> addr list \<Rightarrow> uint8 \<Rightarrow> addr list" where
  "sortAddresses response4 response6 strategy =
     (if strategy = DomainStrategyPreferIPv6 then response6 @ response4 else response4 @ response6)"

definition ClassINET :: uint16 where "ClassINET = 1"

definition lookupRequest :: "dnsEnv \<Rightarrow> string \<Rightarrow> uint16 \<Rightarrow> dnsMsg" where
  "lookupRequest N domain qtype = \<lparr>msgId = 0, msgResponse = False, msgAuthoritative = False,
     msgRecursionDesired = True, msgRecursionAvailable = False, msgRcode = 0,
     msgQuestion = [\<lparr>qName = deFqdn N domain, qType = qtype, qClass = ClassINET\<rparr>],
     msgAnswer = [], msgNs = [], msgExtra = []\<rparr>"

definition lookupWithRulesType ::
  "dnsEnv \<Rightarrow> 'c clientOps \<Rightarrow> string option \<Rightarrow> dns_rule list \<Rightarrow> string \<Rightarrow> uint16 \<Rightarrow> DNSQueryOptions \<Rightarrow>
   InboundContext \<Rightarrow> 'c \<Rightarrow> (addr list \<times> dnsError option) \<times> 'c" where
  "lookupWithRulesType N C tag rules domain qtype options m c =
     (let (res, _, c') = exchangeWithRules N C tag rules (lookupRequest N domain qtype) options False
            (withLookupQueryMetadata qtype m) c
      in case ewRejectAction res of
        Some (method, noDrop) \<Rightarrow> (([], deRejectError N method noDrop), c')
      | None \<Rightarrow> (case ewErr res of
          Some e \<Rightarrow> (([], Some e), c')
        | None \<Rightarrow> (case ewResponse res of
            None \<Rightarrow> (([], Some (DErr (EPanic ''nil pointer dereference''))), c')
          | Some response \<Rightarrow>
              (if msgRcode response \<noteq> RcodeSuccess then (([], Some (DRcodeError (msgRcode response))), c')
               else ((filterAddressesByQueryType (DNSResponseAddresses (deEnv N) (Some response)) qtype, None), c')))))"

text \<open>
  \<^verbatim>\<open>task.Group\<close> runs its functions concurrently and joins their errors.  The client serialises the calls
  that share a cache entry; here the query for IPv4 addresses comes first.
\<close>

definition groupError :: "dnsError option list \<Rightarrow> dnsError option" where
  "groupError es = (case concat (map (\<lambda>e. case e of None \<Rightarrow> [] | Some x \<Rightarrow> [x]) es) of
     [] \<Rightarrow> None | xs \<Rightarrow> Some (DJoined xs))"

definition lookupWithRules ::
  "dnsEnv \<Rightarrow> 'c clientOps \<Rightarrow> string option \<Rightarrow> dns_rule list \<Rightarrow> string \<Rightarrow> DNSQueryOptions \<Rightarrow>
   InboundContext \<Rightarrow> 'c \<Rightarrow> (addr list \<times> dnsError option) \<times> 'c" where
  "lookupWithRules N C tag rules domain options m c =
     (let strategy = resolveLookupStrategy N options;
          o1 = (if strategy \<noteq> DomainStrategyAsIS then options\<lparr>qoStrategy := strategy\<rparr> else options)
      in if strategy = DomainStrategyIPv4Only then lookupWithRulesType N C tag rules domain TypeA o1 m c
         else if strategy = DomainStrategyIPv6Only then lookupWithRulesType N C tag rules domain TypeAAAA o1 m c
         else
           let ((response4, err4), c1) = lookupWithRulesType N C tag rules domain TypeA o1 m c;
               ((response6, err6), c2) = lookupWithRulesType N C tag rules domain TypeAAAA o1 m c1
           in if response4 = [] \<and> response6 = [] then (([], groupError [err4, err6]), c2)
              else ((sortAddresses response4 response6 strategy, None), c2))"

text \<open>The predefined action in a lookup: its addresses, whatever the domain.\<close>

definition predefinedAddresses :: "dnsEnv \<Rightarrow> RR list \<Rightarrow> addr list" where
  "predefinedAddresses N answers = concat (map (\<lambda>r. case rrData r of
     RData_A ip \<Rightarrow> [AddrFromIP (deEnv N) ip]
   | RData_AAAA ip \<Rightarrow> [AddrFromIP (deEnv N) ip]
   | _ \<Rightarrow> []) answers)"

text \<open>How a lookup ends: at once, or through \<^verbatim>\<open>printResult\<close>.\<close>

datatype lookupOutcome = LookupReturn "dnsError" | LookupDone "addr list" "dnsError option"

definition limitedLookup ::
  "dnsEnv \<Rightarrow> 'c clientOps \<Rightarrow> string option \<Rightarrow> string \<Rightarrow> dnsTransport option \<Rightarrow> (nat \<times> dns_rule) option \<Rightarrow>
   InboundContext \<Rightarrow> DNSQueryOptions \<Rightarrow> 'c \<Rightarrow> (lookupOutcome, 'c) round" where
  "limitedLookup N C tag domain transport rule m dnsOptions c =
     (let check = addressLimitResponseCheck N rule m;
          ((addrs, err), c') = cLookup C c tag transport domain (withDefaultStrategy N dnsOptions) check
      in case rule of
        Some (i, r) \<Rightarrow> if check = None \<or> err = None then Finish (LookupDone addrs err) c' else Again i m c'
      | None \<Rightarrow> Finish (LookupDone addrs err) c')"

definition legacyLookupRound ::
  "dnsEnv \<Rightarrow> 'c clientOps \<Rightarrow> string option \<Rightarrow> dns_rule list \<Rightarrow> string \<Rightarrow> DNSQueryOptions \<Rightarrow> nat option \<Rightarrow>
   InboundContext \<Rightarrow> 'c \<Rightarrow> (lookupOutcome, 'c) round" where
  "legacyLookupRound N C tag rules domain options ruleIndex m c =
     (let (transport, rule, m', dnsOptions) = matchDNS N rules False ruleIndex True m options;
          lookup = limitedLookup N C tag domain transport rule m' dnsOptions c
      in case rule of
        None \<Rightarrow> lookup
      | Some (i, r) \<Rightarrow> (case dnsRule_Action r of
          Some (RuleActionReject method noDrop) \<Rightarrow>
            Finish (LookupReturn (DRejectedError (deRejectError N method noDrop))) c
        | Some (RuleActionPredefined rcode answer ns extra) \<Rightarrow>
            (if rcode \<noteq> RcodeSuccess then Finish (LookupDone [] (Some (DRcodeError rcode))) c
             else Finish (LookupDone (predefinedAddresses N answer) None) c)
        | _ \<Rightarrow> lookup))"

lemma limitedLookup_again:
  "limitedLookup N C tag domain t rule m o' c = Again i m' c' \<Longrightarrow> \<exists>r. rule = Some (i, r)"
  by (auto simp: limitedLookup_def Let_def split: prod.splits option.splits if_splits)

lemma legacyLookupRound_again:
  assumes "legacyLookupRound N C tag rules domain options ruleIndex m c = Again i m' c'"
  shows "length rules - nextRule (Some i) < length rules - nextRule ruleIndex"
proof -
  obtain t rule m1 o1 where md: "matchDNS N rules False ruleIndex True m options = (t, rule, m1, o1)"
    by (cases "matchDNS N rules False ruleIndex True m options") auto
  from assms md obtain r where "rule = Some (i, r)"
    by (auto simp: legacyLookupRound_def Let_def dest!: limitedLookup_again
        split: option.splits rule_action.splits if_splits prod.splits)
  with md matchDNS_next show ?thesis by blast
qed

function legacyLookup ::
  "dnsEnv \<Rightarrow> 'c clientOps \<Rightarrow> string option \<Rightarrow> dns_rule list \<Rightarrow> string \<Rightarrow> DNSQueryOptions \<Rightarrow> nat option \<Rightarrow>
   InboundContext \<Rightarrow> 'c \<Rightarrow> lookupOutcome \<times> 'c" where
  "legacyLookup N C tag rules domain options ruleIndex m c =
     (case legacyLookupRound N C tag rules domain options ruleIndex m c of
        Finish out c' \<Rightarrow> (out, c')
      | Again i m' c' \<Rightarrow> legacyLookup N C tag rules domain options (Some i) m' c')"
  by pat_completeness auto
termination
  by (relation "measure (\<lambda>(N, C, tag, rules, domain, options, ruleIndex, m, c). length rules - nextRule ruleIndex)")
    (auto dest: legacyLookupRound_again)

declare legacyLookup.simps [simp del]

definition printResult :: "string \<Rightarrow> addr list \<Rightarrow> dnsError option \<Rightarrow> dnsError option" where
  "printResult domain addrs err =
     (let err = (if err = None \<and> addrs = [] then Some (DErr (ENew ''empty result'')) else err)
      in map_option (\<lambda>e. DCause e (''lookup '' @ domain)) err)"

definition router_Lookup ::
  "dnsEnv \<Rightarrow> 'c clientOps \<Rightarrow> string option \<Rightarrow> InboundContext \<Rightarrow> string \<Rightarrow> DNSQueryOptions \<Rightarrow> 'c dnsRuntime \<Rightarrow>
   (addr list \<times> dnsError option) \<times> 'c dnsRuntime" where
  "router_Lookup N C tag m0 domain options rt =
     (if closing (rtRouter rt) then (([], Some (DErr (ENew ''dns router closed''))), rt)
      else
        let m = m0\<lparr>Destination := noSocksaddr, Domain := FqdnToDomain N domain, DNSResponse := None,
                   DestinationAddressMatchFromResponse := False\<rparr>;
            (out, c') =
              (case qoTransport options of
                 Some transport \<Rightarrow>
                   (let ((addrs, err), c') = cLookup C (rtClient rt) tag (Some transport) domain
                          (withDefaultStrategy N options) None
                    in (LookupDone addrs err, c'))
               | None \<Rightarrow>
                   if \<not> legacyDNSMode (rtRouter rt) then
                     (let ((addrs, err), c') = lookupWithRules N C tag (runtimeRules (rtRouter rt)) domain options m
                            (rtClient rt)
                      in (LookupDone addrs err, c'))
                   else legacyLookup N C tag (runtimeRules (rtRouter rt)) domain options None m (rtClient rt));
            rt' = rt\<lparr>rtClient := c'\<rparr>
        in case out of
          LookupReturn e \<Rightarrow> (([], Some e), rt')
        | LookupDone addrs err \<Rightarrow> ((addrs, printResult domain addrs err), rt'))"

section \<open>Caches\<close>

text \<open>\<^verbatim>\<open>ClearCache\<close> (the platform's cache is outside the model), and the reverse lookup, where \<open>get\<close> is the
  look-up of the cache library in the entries added.\<close>

definition router_ClearCache :: "'c clientOps \<Rightarrow> 'c dnsRuntime \<Rightarrow> 'c dnsRuntime" where
  "router_ClearCache C rt = rt\<lparr>rtClient := cClearCache C (rtClient rt),
     rtReverse := map_option (\<lambda>_. []) (rtReverse rt)\<rparr>"

definition LookupReverseMapping ::
  "((addr \<times> string \<times> uint32) list \<Rightarrow> addr \<Rightarrow> string option) \<Rightarrow> 'c dnsRuntime \<Rightarrow> addr \<Rightarrow> string option" where
  "LookupReverseMapping get rt ip = (case rtReverse rt of None \<Rightarrow> None | Some entries \<Rightarrow> get entries ip)"

end
