(* ===== verification/Bytes.thy ===== *)
theory Bytes
  imports Prelude
begin

text \<open>
  The parts of Go's \<^verbatim>\<open>encoding/binary\<close> and \<^verbatim>\<open>io\<close> that the binary formats of the repository use: big-endian
  integers, unsigned varints and reading from a byte buffer, with their round trips.
\<close>

section \<open>Big-endian integers\<close>

text \<open>The last \<open>n\<close> bytes of an integer, most significant first, and the integer of such a list.\<close>

primrec bytesBE :: "nat \<Rightarrow> 'a::len word \<Rightarrow> bytes" where
  "bytesBE 0 w = []"
| "bytesBE (Suc n) w = ucast (drop_bit (8 * n) w) # bytesBE n w"

definition appendByte :: "'a::len word \<Rightarrow> byte \<Rightarrow> 'a word" where
  "appendByte acc b = push_bit 8 acc OR ucast b"

definition wordBE :: "bytes \<Rightarrow> 'a::len word" where
  "wordBE bs = foldl appendByte 0 bs"

lemma length_bytesBE [simp]: "length (bytesBE n w) = n"
  by (induction n) auto

lemma foldl_bytesBE:
  "foldl appendByte acc (bytesBE n w) = push_bit (8 * n) acc OR take_bit (8 * n) (w :: 'a::len word)"
proof (induction n arbitrary: acc)
  case (Suc n)
  have "push_bit (8 * n) (appendByte acc (ucast (drop_bit (8 * n) w))) OR take_bit (8 * n) w =
      push_bit (8 * Suc n) acc OR take_bit (8 * Suc n) w"
    by (rule bit_word_eqI)
      (auto simp: appendByte_def bit_simps algebra_simps)
  then show ?case by (simp add: Suc)
qed simp

lemma wordBE_bytesBE [simp]:
  "LENGTH('a) = 8 * n \<Longrightarrow> wordBE (bytesBE n (w :: 'a::len word)) = w"
  by (simp add: wordBE_def foldl_bytesBE take_bit_word_eq_self)

lemma wordBE_snoc: "wordBE (bs @ [b]) = appendByte (wordBE bs) b"
  by (simp add: wordBE_def)

lemma bytesBE_snoc: "bytesBE (Suc n) w = bytesBE n (drop_bit 8 w) @ [ucast w]"
  by (induction n) (auto simp: drop_bit_drop_bit algebra_simps)

lemma bit_wordBE_high: "bit (wordBE bs :: 'a::len word) i \<Longrightarrow> i < 8 * length bs"
proof (induction bs arbitrary: i rule: rev_induct)
  case (snoc b bs)
  then show ?case by (cases "i < 8") (auto simp: wordBE_snoc appendByte_def bit_simps dest!: snoc.IH dest: bit_imp_le_length)
qed (simp add: wordBE_def)

lemma bytesBE_wordBE [simp]:
  "8 * length bs \<le> LENGTH('a) \<Longrightarrow> bytesBE (length bs) (wordBE bs :: 'a::len word) = bs"
proof (induction bs rule: rev_induct)
  case (snoc b bs)
  have "drop_bit 8 (wordBE (bs @ [b]) :: 'a word) = wordBE bs"
    using snoc.prems
    by (intro bit_word_eqI) (auto simp: wordBE_snoc appendByte_def bit_simps dest: bit_imp_le_length bit_wordBE_high)
  moreover have "(ucast (wordBE (bs @ [b]) :: 'a word) :: byte) = b"
    using snoc.prems by (intro bit_word_eqI) (auto simp: wordBE_snoc appendByte_def bit_simps)
  moreover have "bytesBE (length bs) (wordBE bs :: 'a word) = bs" using snoc by simp
  ultimately show ?case by (simp add: bytesBE_snoc del: bytesBE.simps)
qed simp

section \<open>Reading\<close>

text \<open>A reader over a buffer: \<^verbatim>\<open>io.ReadFull\<close> and \<^verbatim>\<open>binary.Read\<close> of a big-endian integer.\<close>

type_synonym 'a reader = "bytes \<Rightarrow> (goerror, 'a \<times> bytes) result"

definition readFull :: "nat \<Rightarrow> bytes reader" where
  "readFull n bs =
     (if n \<le> length bs then Ok (take n bs, drop n bs)
      else Err (EOther (if bs = [] then ''EOF'' else ''unexpected EOF'')))"

definition readBE :: "nat \<Rightarrow> 'a::len word reader" where
  "readBE n bs = bindR (readFull n bs) (\<lambda>(x, rest). Ok (wordBE x, rest))"

lemma readFull_append [simp]: "length xs = n \<Longrightarrow> readFull n (xs @ rest) = Ok (xs, rest)"
  by (auto simp: readFull_def)

lemma readFull_all [simp]: "readFull (length xs) (xs @ rest) = Ok (xs, rest)"
  by (auto simp: readFull_def)

lemma readFull_length: "readFull n bs = Ok (x, rest) \<Longrightarrow> bs = x @ rest \<and> length x = n"
  by (auto simp: readFull_def split: if_splits)

lemma readBE_bytesBE [simp]:
  "LENGTH('a) = 8 * n \<Longrightarrow> readBE n (bytesBE n (w :: 'a::len word) @ rest) = Ok (w, rest)"
  by (simp add: readBE_def)

section \<open>Unsigned varints\<close>

text \<open>\<^verbatim>\<open>binary.AppendUvarint\<close> and \<^verbatim>\<open>binary.ReadUvarint\<close>; the latter at its byte number \<open>i\<close> with the bits
  read so far.\<close>

function appendUvarint :: "uint64 \<Rightarrow> bytes" where
  "appendUvarint x = (if x \<ge> 0x80 then (ucast x OR 0x80) # appendUvarint (drop_bit 7 x) else [ucast x])"
  by pat_completeness auto

lemma drop_bit_less: "x \<ge> 0x80 \<Longrightarrow> unat (drop_bit 7 x) < unat (x :: uint64)"
proof -
  assume "x \<ge> 0x80"
  then have "0 < unat x" by (auto simp: word_le_nat_alt)
  then show ?thesis unfolding unat_drop_bit_eq by (simp add: drop_bit_eq_div)
qed

termination appendUvarint
  by (relation "measure unat") (simp_all add: drop_bit_less)

declare appendUvarint.simps [simp del]

fun readUvarintFrom :: "nat \<Rightarrow> uint64 \<Rightarrow> uint64 reader" where
  "readUvarintFrom i x [] =
     Err (EOther (if i > 0 then ''unexpected EOF'' else ''EOF''))"
| "readUvarintFrom i x (b # rest) =
     (if i \<ge> 10 then Err (EOther ''binary: varint overflows a 64-bit integer'')
      else if b < 0x80 then
        (if i = 9 \<and> b > 1 then Err (EOther ''binary: varint overflows a 64-bit integer'')
         else Ok (x OR push_bit (7 * i) (ucast b), rest))
      else readUvarintFrom (Suc i) (x OR push_bit (7 * i) (ucast (b AND 0x7F))) rest)"

definition ReadUvarint :: "uint64 reader" where
  "ReadUvarint bs = readUvarintFrom 0 0 bs"

lemma continuation_byte:
  fixes x :: uint64
  shows "\<not> (ucast x OR 0x80 :: byte) < 0x80"
    and "ucast ((ucast x OR 0x80 :: byte) AND 0x7F) = take_bit 7 x"
proof -
  have bit80: "bit (0x80 :: byte) n \<longleftrightarrow> n = 7" for n
    using bit_exp_iff[of 7 n, where ?'a = byte] by (auto dest: bit_imp_le_length)
  have mask7: "(0x7F :: byte) = mask 7" by (simp add: mask_eq_exp_minus_1)
  have "bit (ucast x OR 0x80 :: byte) 7" by (simp add: bit_simps bit80)
  moreover have "\<not> bit b 7" if "b < 0x80" for b :: byte
  proof -
    have "unat b < 128" using that by (simp add: word_less_nat_alt)
    then have "\<not> bit (unat b) 7" by (simp add: bit_iff_odd)
    then show ?thesis by (simp add: bit_unsigned_iff)
  qed
  ultimately show "\<not> (ucast x OR 0x80 :: byte) < 0x80" by blast
  have ucast_mask: "ucast (b AND mask 7) = (take_bit 7 (ucast b) :: uint64)" for b :: byte
    by (rule bit_word_eqI) (auto simp: bit_simps)
  have "bit (take_bit 7 (ucast (ucast x OR 0x80 :: byte)) :: uint64) n = bit (take_bit 7 x) n" for n
    using bit_or_iff[of "ucast x :: byte" "0x80" n] bit80[of n] by (auto simp: bit_take_bit_iff bit_ucast_iff)
  then show "ucast ((ucast x OR 0x80 :: byte) AND 0x7F) = take_bit 7 x"
    unfolding mask7 ucast_mask by (intro bit_word_eqI) blast
qed

lemma push_take_drop: "push_bit n (take_bit k x) OR push_bit (n + k) (drop_bit k x) = push_bit n (x :: 'a::len word)"
proof (rule bit_word_eqI)
  fix i
  assume "i < LENGTH('a)"
  then show "bit (push_bit n (take_bit k x) OR push_bit (n + k) (drop_bit k x)) i = bit (push_bit n x) i"
    by (cases "i < n + k") (auto simp: bit_simps)
qed

lemma readUvarintFrom_append:
  assumes "unat x < 2 ^ (64 - 7 * i)" and "i \<le> 9"
  shows "readUvarintFrom i acc (appendUvarint x @ rest) = Ok (acc OR push_bit (7 * i) x, rest)"
  using assms
proof (induction x arbitrary: i acc rule: appendUvarint.induct)
  case (1 x)
  show ?case
  proof (cases "x \<ge> 0x80")
    case True
    then have big: "128 \<le> unat x" by (simp add: word_le_nat_alt)
    have "i \<noteq> 9" using big "1.prems" by auto
    then have i: "Suc i \<le> 9" using "1.prems" by simp
    have "64 - 7 * i = (64 - 7 * Suc i) + 7" using i by simp
    then have "(2::nat) ^ (64 - 7 * i) = 2 ^ (64 - 7 * Suc i) * 128" by (simp only: power_add) simp
    then have "unat (drop_bit 7 x) < 2 ^ (64 - 7 * Suc i)"
      using "1.prems"(1) unfolding unat_drop_bit_eq by (simp add: drop_bit_eq_div less_mult_imp_div_less)
    note IH = "1.IH"[OF True this i]
    have "readUvarintFrom i acc (appendUvarint x @ rest) =
        Ok (acc OR push_bit (7 * i) (take_bit 7 x) OR push_bit (7 * Suc i) (drop_bit 7 x), rest)"
      using True i continuation_byte[of x] by (subst appendUvarint.simps) (simp add: IH or.assoc del: mult_Suc_right)
    also have "acc OR push_bit (7 * i) (take_bit 7 x) OR push_bit (7 * Suc i) (drop_bit 7 x) = acc OR push_bit (7 * i) x"
      using push_take_drop[of "7 * i" 7 x] by (simp add: or.assoc add.commute)
    finally show ?thesis .
  next
    case False
    have small: "unat x < 128" using False by (simp add: word_le_nat_alt not_le)
    then have byte: "unat (ucast x :: byte) = unat x" by (simp add: unsigned_ucast_eq take_bit_eq_mod)
    then have "(ucast x :: byte) < 0x80" using small by (simp add: word_less_nat_alt)
    moreover have "\<not> (i = 9 \<and> (ucast x :: byte) > 1)"
      using "1.prems" byte by (auto simp: word_less_nat_alt)
    moreover have "ucast (ucast x :: byte) = x" using byte by (metis of_nat_unat ucast_id)
    ultimately show ?thesis using False "1.prems" by (subst appendUvarint.simps) auto
  qed
qed

lemma ReadUvarint_append [simp]: "ReadUvarint (appendUvarint x @ rest) = Ok (x, rest)"
proof -
  have "unat x < 2 ^ 64" by (rule order_less_le_trans[OF unsigned_less]) simp
  then show ?thesis by (simp add: ReadUvarint_def readUvarintFrom_append)
qed

end
