(* ===== verification/FakeIP.thy ===== *)
theory FakeIP
  imports GoLib Bytes
begin

text \<open>
  The fake address service (\<^verbatim>\<open>dns/transport/fakeip\<close>, \<^verbatim>\<open>adapter/fakeip_metadata.go\<close>): the address store, the
  storage interface it relies on, the in-memory storage, and the metadata saved between runs.  The
  storage is an interface of the sources; its methods are the record \<open>storageOps\<close>, its contract the
  locale \<open>fakeip_storage\<close>.
\<close>

section \<open>Storage\<close>

record FakeIPMetadata =
  Inet4Range :: netprefix
  Inet6Range :: netprefix
  Inet4Current :: addr
  Inet6Current :: addr

record 's storageOps =
  opMetadata :: "'s \<Rightarrow> FakeIPMetadata option \<times> 's"
  opSaveMetadata :: "FakeIPMetadata \<Rightarrow> 's \<Rightarrow> goerror option \<times> 's"
  opSaveMetadataAsync :: "FakeIPMetadata \<Rightarrow> 's \<Rightarrow> 's"
  opStore :: "addr \<Rightarrow> string \<Rightarrow> 's \<Rightarrow> goerror option \<times> 's"
  opLoad :: "addr \<Rightarrow> 's \<Rightarrow> string option"
  opLoadDomain :: "string \<Rightarrow> bool \<Rightarrow> 's \<Rightarrow> addr option"
  opReset :: "'s \<Rightarrow> goerror option \<times> 's"

record MemoryStorage =
  addressCache :: "addr \<rightharpoonup> string"
  domainCache4 :: "string \<rightharpoonup> addr"
  domainCache6 :: "string \<rightharpoonup> addr"

definition NewMemoryStorage :: MemoryStorage where
  "NewMemoryStorage = \<lparr>addressCache = Map.empty, domainCache4 = Map.empty, domainCache6 = Map.empty\<rparr>"

definition memory_FakeIPStore :: "addr \<Rightarrow> string \<Rightarrow> MemoryStorage \<Rightarrow> goerror option \<times> MemoryStorage" where
  "memory_FakeIPStore address domain s =
     (let s1 = (case addressCache s address of
            None \<Rightarrow> s
          | Some oldDomain \<Rightarrow>
              if Is4 address then s\<lparr>domainCache4 := (domainCache4 s)(oldDomain := None)\<rparr>
              else s\<lparr>domainCache6 := (domainCache6 s)(oldDomain := None)\<rparr>);
          s2 = s1\<lparr>addressCache := (addressCache s1)(address \<mapsto> domain)\<rparr>
      in (None,
          if Is4 address then s2\<lparr>domainCache4 := (domainCache4 s2)(domain \<mapsto> address)\<rparr>
          else s2\<lparr>domainCache6 := (domainCache6 s2)(domain \<mapsto> address)\<rparr>))"

definition memory_FakeIPLoad :: "addr \<Rightarrow> MemoryStorage \<Rightarrow> string option" where
  "memory_FakeIPLoad address s = addressCache s address"

definition memory_FakeIPLoadDomain :: "string \<Rightarrow> bool \<Rightarrow> MemoryStorage \<Rightarrow> addr option" where
  "memory_FakeIPLoadDomain domain isIPv6 s =
     (if \<not> isIPv6 then domainCache4 s domain else domainCache6 s domain)"

definition memory_FakeIPReset :: "MemoryStorage \<Rightarrow> goerror option \<times> MemoryStorage" where
  "memory_FakeIPReset s =
     (None, s\<lparr>addressCache := Map.empty, domainCache4 := Map.empty, domainCache6 := Map.empty\<rparr>)"

definition memoryStorage :: "MemoryStorage storageOps" where
  "memoryStorage = \<lparr>opMetadata = (\<lambda>s. (None, s)), opSaveMetadata = (\<lambda>_ s. (None, s)),
     opSaveMetadataAsync = (\<lambda>_ s. s), opStore = memory_FakeIPStore, opLoad = memory_FakeIPLoad,
     opLoadDomain = memory_FakeIPLoadDomain, opReset = memory_FakeIPReset\<rparr>"

section \<open>Store\<close>

record 's Store =
  inet4Range :: netprefix
  inet6Range :: netprefix
  inet4Last :: addr
  inet6Last :: addr
  storage :: "'s option"
  inet4Current :: addr
  inet6Current :: addr

text \<open>\<^verbatim>\<open>Addr.As16\<close>: an IPv4 address is mapped into IPv6.\<close>

fun As16 :: "addr \<Rightarrow> uint128" where
  "As16 NoAddr = 0"
| "As16 (IP4 a) = push_bit 32 0xFFFF OR ucast a"
| "As16 (IP6 a z) = a"

text \<open>Setting bit \<open>i\<close> of the sixteen bytes, counted from the most significant one.\<close>

definition setRawBit :: "nat \<Rightarrow> uint128 \<Rightarrow> uint128" where
  "setRawBit i raw = raw OR push_bit (127 - i) 1"

definition broadcastAddress :: "netprefix \<Rightarrow> addr" where
  "broadcastAddress prefix =
     (let a = pfxAddr prefix;
          bits = (case pfxBits prefix of None \<Rightarrow> 0 | Some n \<Rightarrow> n) + (if Is4 a then 96 else 0);
          raw = fold setRawBit [bits..<128] (As16 a)
      in if Is4 a then IP4 (ucast raw) else IP6 raw [])"

definition NewStore :: "netprefix \<Rightarrow> netprefix \<Rightarrow> 's Store" where
  "NewStore range4 range6 =
     \<lparr>inet4Range = range4, inet6Range = range6,
      inet4Last = (if prefixIsValid range4 then broadcastAddress range4 else NoAddr),
      inet6Last = (if prefixIsValid range6 then broadcastAddress range6 else NoAddr),
      storage = None, inet4Current = NoAddr, inet6Current = NoAddr\<rparr>"

definition store_Start :: "'s storageOps \<Rightarrow> 's \<Rightarrow> 's Store \<Rightarrow> 's Store" where
  "store_Start ops st s =
     (case opMetadata ops st of
        (Some md, st1) \<Rightarrow>
          if Inet4Range md = inet4Range s \<and> Inet6Range md = inet6Range s
          then s\<lparr>inet4Current := Inet4Current md, inet6Current := Inet6Current md, storage := Some st1\<rparr>
          else
            s\<lparr>inet4Current := (if prefixIsValid (inet4Range s) then addrNext (pfxAddr (inet4Range s)) else inet4Current s),
              inet6Current := (if prefixIsValid (inet6Range s) then addrNext (pfxAddr (inet6Range s)) else inet6Current s),
              storage := Some (snd (opReset ops st1))\<rparr>
      | (None, st1) \<Rightarrow>
          s\<lparr>inet4Current := (if prefixIsValid (inet4Range s) then addrNext (pfxAddr (inet4Range s)) else inet4Current s),
            inet6Current := (if prefixIsValid (inet6Range s) then addrNext (pfxAddr (inet6Range s)) else inet6Current s),
            storage := Some (snd (opReset ops st1))\<rparr>)"

definition store_Contains :: "'s Store \<Rightarrow> addr \<Rightarrow> bool" where
  "store_Contains s a \<longleftrightarrow> prefixContains (inet4Range s) a \<or> prefixContains (inet6Range s) a"

definition storeMetadata :: "'s Store \<Rightarrow> FakeIPMetadata" where
  "storeMetadata s = \<lparr>Inet4Range = inet4Range s, Inet6Range = inet6Range s,
     Inet4Current = inet4Current s, Inet6Current = inet6Current s\<rparr>"

definition store_Close :: "'s storageOps \<Rightarrow> 's Store \<Rightarrow> goerror option \<times> 's Store" where
  "store_Close ops s = (case storage s of
     None \<Rightarrow> (None, s)
   | Some st \<Rightarrow> (case opSaveMetadata ops (storeMetadata s) st of (e, st1) \<Rightarrow> (e, s\<lparr>storage := Some st1\<rparr>)))"

definition nextAddress :: "netprefix \<Rightarrow> addr \<Rightarrow> addr \<Rightarrow> addr" where
  "nextAddress rng lst current =
     (let n = addrNext current
      in if n = lst \<or> \<not> prefixContains rng n then addrNext (addrNext (pfxAddr rng)) else n)"

text \<open>The part of \<^verbatim>\<open>Create\<close> that runs under the lock, with its second look at the storage.\<close>

definition store_createLocked ::
  "'s storageOps \<Rightarrow> string \<Rightarrow> bool \<Rightarrow> 's \<Rightarrow> 's Store \<Rightarrow> (goerror, addr) result \<times> 's Store" where
  "store_createLocked ops domain isIPv6 st s =
     (case opLoadDomain ops domain isIPv6 st of
        Some address \<Rightarrow> (Ok address, s)
      | None \<Rightarrow>
          if \<not> addrIsValid (if isIPv6 then inet6Current s else inet4Current s)
          then (Err (ENew (if isIPv6 then ''missing IPv6 fakeip address range'' else ''missing IPv4 fakeip address range'')), s)
          else
            let address = (if isIPv6 then nextAddress (inet6Range s) (inet6Last s) (inet6Current s)
                           else nextAddress (inet4Range s) (inet4Last s) (inet4Current s));
                s1 = (if isIPv6 then s\<lparr>inet6Current := address\<rparr> else s\<lparr>inet4Current := address\<rparr>);
                st1 = snd (opStore ops address domain st);
                st2 = opSaveMetadataAsync ops (storeMetadata s1) st1
            in (Ok address, s1\<lparr>storage := Some st2\<rparr>))"

definition store_Create :: "'s storageOps \<Rightarrow> string \<Rightarrow> bool \<Rightarrow> 's Store \<Rightarrow> (goerror, addr) result \<times> 's Store" where
  "store_Create ops domain isIPv6 s = (case storage s of
     None \<Rightarrow> (Err (EPanic ''nil storage''), s)
   | Some st \<Rightarrow>
       (case opLoadDomain ops domain isIPv6 st of
          Some address \<Rightarrow> (Ok address, s)
        | None \<Rightarrow> store_createLocked ops domain isIPv6 st s))"

definition store_Lookup :: "'s storageOps \<Rightarrow> 's Store \<Rightarrow> addr \<Rightarrow> string option" where
  "store_Lookup ops s a = (case storage s of None \<Rightarrow> None | Some st \<Rightarrow> opLoad ops a st)"

definition store_Reset :: "'s storageOps \<Rightarrow> 's Store \<Rightarrow> goerror option \<times> 's Store" where
  "store_Reset ops s = (case storage s of
     None \<Rightarrow> (Some (EPanic ''nil storage''), s)
   | Some st \<Rightarrow> (case opReset ops st of (e, st1) \<Rightarrow> (e, s\<lparr>storage := Some st1\<rparr>)))"

section \<open>The contract of a storage\<close>

text \<open>
  What the store relies on: the domain index is the inverse of the address index, family by family;
  storing an address for a domain without an address of that family changes the entry of that address
  only; metadata and entries do not interfere; a reset removes every entry.
\<close>

locale fakeip_storage =
  fixes ops :: "'s storageOps" and invar :: "'s \<Rightarrow> bool"
  assumes domain_iff: "invar s \<Longrightarrow> opLoadDomain ops d v6 s = Some a \<longleftrightarrow> opLoad ops a s = Some d \<and> (v6 \<longleftrightarrow> \<not> Is4 a)"
    and store_invar: "invar s \<Longrightarrow> opLoadDomain ops d (\<not> Is4 a) s = None \<Longrightarrow> invar (snd (opStore ops a d s))"
    and store_load: "invar s \<Longrightarrow> opLoadDomain ops d (\<not> Is4 a) s = None \<Longrightarrow>
      opLoad ops b (snd (opStore ops a d s)) = (if b = a then Some d else opLoad ops b s)"
    and async_invar: "invar s \<Longrightarrow> invar (opSaveMetadataAsync ops md s)"
    and async_load: "invar s \<Longrightarrow> opLoad ops b (opSaveMetadataAsync ops md s) = opLoad ops b s"
    and meta_invar: "invar s \<Longrightarrow> invar (snd (opMetadata ops s))"
    and reset_invar: "invar s \<Longrightarrow> invar (snd (opReset ops s))"
    and reset_load: "invar s \<Longrightarrow> opLoad ops b (snd (opReset ops s)) = None"
begin

definition good :: "'s Store \<Rightarrow> bool" where
  "good s \<longleftrightarrow> (case storage s of None \<Rightarrow> False | Some st \<Rightarrow> invar st)"

lemma load_unique: "invar s \<Longrightarrow> opLoad ops a s = Some d \<Longrightarrow> opLoad ops b s = Some d \<Longrightarrow> Is4 a = Is4 b \<Longrightarrow> a = b"
  using domain_iff[of s d "\<not> Is4 a" a] domain_iff[of s d "\<not> Is4 a" b] by auto

lemma start_good: "invar st \<Longrightarrow> good (store_Start ops st s)"
  using meta_invar[of st] by (auto simp: good_def store_Start_def reset_invar split: prod.splits option.splits)

lemma reset_good: "good s \<Longrightarrow> good (snd (store_Reset ops s)) \<and> store_Lookup ops (snd (store_Reset ops s)) a = None"
  using reset_invar reset_load
  by (auto simp: good_def store_Reset_def store_Lookup_def split: prod.splits option.splits) (metis snd_conv)+

end

definition memory_invar :: "MemoryStorage \<Rightarrow> bool" where
  "memory_invar s \<longleftrightarrow> (\<forall>d a. domainCache4 s d = Some a \<longleftrightarrow> addressCache s a = Some d \<and> Is4 a) \<and>
     (\<forall>d a. domainCache6 s d = Some a \<longleftrightarrow> addressCache s a = Some d \<and> \<not> Is4 a)"

lemmas memory_defs = memoryStorage_def memory_invar_def memory_FakeIPStore_def memory_FakeIPLoad_def
  memory_FakeIPLoadDomain_def memory_FakeIPReset_def

lemma memory_store_invar:
  assumes "memory_invar s" and "memory_FakeIPLoadDomain d (\<not> Is4 a) s = None"
  shows "memory_invar (snd (memory_FakeIPStore a d s))"
  using assms
  by (cases "addressCache s a"; cases "Is4 a"; auto simp: memory_defs; metis option.distinct(1) option.inject)

interpretation memory: fakeip_storage memoryStorage memory_invar
proof
  show "memory_invar s \<Longrightarrow> opLoadDomain memoryStorage d v6 s = Some a \<longleftrightarrow>
      opLoad memoryStorage a s = Some d \<and> (v6 \<longleftrightarrow> \<not> Is4 a)" for s d v6 a
    by (auto simp: memory_defs)
  show "memory_invar s \<Longrightarrow> opLoadDomain memoryStorage d (\<not> Is4 a) s = None \<Longrightarrow>
      memory_invar (snd (opStore memoryStorage a d s))" for s d a
    using memory_store_invar[of s d a] by (simp add: memoryStorage_def)
qed (auto simp: memory_defs Let_def split: option.splits)

section \<open>The ring of addresses\<close>

fun addrNat :: "addr \<Rightarrow> nat" where
  "addrNat NoAddr = 0"
| "addrNat (IP4 a) = unat a"
| "addrNat (IP6 a z) = unat a"

text \<open>A range of the given family that has at least one address besides its first two and its last.\<close>

definition ringRange :: "bool \<Rightarrow> netprefix \<Rightarrow> bool" where
  "ringRange v6 rng \<longleftrightarrow>
     (case pfxBits rng of None \<Rightarrow> False | Some n \<Rightarrow> n \<le> BitLen (pfxAddr rng)) \<and>
     \<not> hasZone (pfxAddr rng) \<and> (if v6 then Is6 (pfxAddr rng) else Is4 (pfxAddr rng)) \<and>
     addrNat (pfxAddr rng) + 3 \<le> addrNat (broadcastAddress rng)"

definition inRing :: "netprefix \<Rightarrow> addr \<Rightarrow> bool" where
  "inRing rng x \<longleftrightarrow> addrIsValid x \<and> \<not> hasZone x \<and> (Is4 x \<longleftrightarrow> Is4 (pfxAddr rng)) \<and>
     addrNat (pfxAddr rng) < addrNat x \<and> addrNat x < addrNat (broadcastAddress rng)"

lemma fold_setRawBit:
  "m \<le> 128 \<Longrightarrow> fold setRawBit [m..<128] raw = raw OR mask (128 - m)"
proof (induction "128 - m" arbitrary: m raw)
  case (Suc k)
  then have m: "m < 128" "k = 128 - Suc m" by auto
  have "(raw OR push_bit (127 - m) 1) OR mask (128 - Suc m) = raw OR mask (128 - m)"
    using m by (intro bit_word_eqI) (auto simp: bit_simps)
  then show ?case using Suc.hyps(1)[OF m(2)] m(1) by (simp add: upt_conv_Cons setRawBit_def)
qed simp

lemma broadcast_IP4: "n \<le> 32 \<Longrightarrow> broadcastAddress \<lparr>pfxAddr = IP4 b, pfxBits = Some n\<rparr> = IP4 (b OR mask (32 - n))"
proof -
  assume n: "n \<le> 32"
  have "ucast (push_bit 32 h OR ucast b OR mask (32 - n) :: uint128) = b OR mask (32 - n)" for h
    by (intro bit_word_eqI) (auto simp: bit_simps)
  from this[of "0xFFFF"] show ?thesis using n by (simp add: broadcastAddress_def fold_setRawBit or.assoc)
qed

lemma broadcast_IP6: "n \<le> 128 \<Longrightarrow> broadcastAddress \<lparr>pfxAddr = IP6 b [], pfxBits = Some n\<rparr> = IP6 (b OR mask (128 - n)) []"
  by (simp add: broadcastAddress_def fold_setRawBit)

lemma word_in_prefix:
  fixes b x :: "'a::len word"
  assumes "unat b \<le> unat x" and "unat x \<le> unat (b OR mask k)"
  shows "drop_bit k x = drop_bit k b"
proof -
  have mono: "unat (drop_bit k y) \<le> unat (drop_bit k z)" if "unat y \<le> unat z" for y z :: "'a word"
    using that unfolding unat_drop_bit_eq by (simp add: drop_bit_eq_div div_le_mono)
  have "drop_bit k (b OR mask k) = drop_bit k b"
    by (rule bit_word_eqI) (auto simp: bit_simps)
  then show ?thesis
    using mono[OF assms(1)] mono[OF assms(2)] by (simp add: word_eq_iff_unsigned[where ?'a = nat])
qed

lemma unat_Suc_word:
  fixes x y :: "'a::len word"
  assumes "unat x < unat y"
  shows "unat (x + 1) = Suc (unat x)"
proof -
  have "Suc (unat x) < 2 ^ LENGTH('a)"
    using assms by (meson Suc_leI le_less_trans unsigned_less)
  then show ?thesis by (simp add: unat_word_ariths take_bit_eq_mod)
qed

text \<open>The arithmetic of one step, on words: no sum wraps around, and the result stays in the prefix.\<close>

lemma ring_step:
  fixes b x :: "'a::len word"
  assumes "unat b + 3 \<le> unat (b OR mask k)" and "unat b < unat x" and "unat x < unat (b OR mask k)"
  shows "unat (x + 1) = Suc (unat x)" and "drop_bit k (x + 1) = drop_bit k b" and "x + 1 \<noteq> 0"
    and "unat (b + 1 + 1) = unat b + 2" and "drop_bit k (b + 1 + 1) = drop_bit k b" and "b + 1 \<noteq> 0" and "b + 1 + 1 \<noteq> 0"
    and "(x + 1 = b OR mask k) = (Suc (unat x) = unat (b OR mask k))"
proof -
  show x: "unat (x + 1) = Suc (unat x)" using assms(3) by (rule unat_Suc_word)
  have b1: "unat (b + 1) = Suc (unat b)" by (rule unat_Suc_word[of _ "b OR mask k"]) (use assms in linarith)
  show b2: "unat (b + 1 + 1) = unat b + 2"
    by (subst unat_Suc_word[of _ "b OR mask k"]) (use assms b1 in linarith)+
  show "drop_bit k (x + 1) = drop_bit k b" by (rule word_in_prefix) (use assms x in linarith)+
  show "drop_bit k (b + 1 + 1) = drop_bit k b" by (rule word_in_prefix) (use assms b2 in linarith)+
  show "x + 1 \<noteq> 0" using x by (metis Suc_neq_Zero unsigned_0)
  show "b + 1 \<noteq> 0" using b1 by (metis Suc_neq_Zero unsigned_0)
  show "b + 1 + 1 \<noteq> 0" using b2 by (metis add_is_0 unsigned_0 zero_neq_numeral)
  show "(x + 1 = b OR mask k) = (Suc (unat x) = unat (b OR mask k))"
    by (simp add: word_eq_iff_unsigned[where ?'a = nat] x del: unat_eq_0)
qed

text \<open>One step on the ring: the next address, or back to the third one before the last is reached.\<close>

lemma nextAddress_ring:
  assumes "ringRange v6 rng" and "inRing rng c"
  shows "inRing rng (nextAddress rng (broadcastAddress rng) c)"
    and "prefixContains rng (nextAddress rng (broadcastAddress rng) c)"
    and "addrNat (nextAddress rng (broadcastAddress rng) c) =
      (if Suc (addrNat c) = addrNat (broadcastAddress rng) then addrNat (pfxAddr rng) + 2 else Suc (addrNat c))"
proof -
  let ?n = "nextAddress rng (broadcastAddress rng) c"
  have "inRing rng ?n \<and> prefixContains rng ?n \<and> addrNat ?n =
      (if Suc (addrNat c) = addrNat (broadcastAddress rng) then addrNat (pfxAddr rng) + 2 else Suc (addrNat c))"
  proof (cases "pfxAddr rng")
    case NoAddr
    then show ?thesis using assms(1) by (auto simp: ringRange_def split: if_splits)
  next
    case (IP4 b)
    then obtain n where rng: "rng = \<lparr>pfxAddr = IP4 b, pfxBits = Some n\<rparr>" and n: "n \<le> 32"
      using assms(1) by (cases rng) (auto simp: ringRange_def split: option.splits)
    obtain x where c: "c = IP4 x" using assms(2) by (cases c) (auto simp: inRing_def rng addrIsValid_def)
    note bc = broadcast_IP4[OF n, of b]
    from ring_step[of b "32 - n" x] assms show ?thesis
      unfolding rng c nextAddress_def bc
      by (auto simp: ringRange_def inRing_def bc prefixContains_def maskHigh_def addrIsValid_def Let_def)
  next
    case (IP6 b z)
    then obtain n where rng: "rng = \<lparr>pfxAddr = IP6 b [], pfxBits = Some n\<rparr>" and n: "n \<le> 128"
      using assms(1) by (cases rng) (auto simp: ringRange_def split: option.splits)
    obtain x where c: "c = IP6 x []" using assms(2) by (cases c) (auto simp: inRing_def rng addrIsValid_def)
    note bc = broadcast_IP6[OF n, of b]
    from ring_step[of b "128 - n" x] assms show ?thesis
      unfolding rng c nextAddress_def bc
      by (auto simp: ringRange_def inRing_def bc prefixContains_def maskHigh_def addrIsValid_def Let_def)
  qed
  then show "inRing rng ?n" "prefixContains rng ?n"
    "addrNat ?n = (if Suc (addrNat c) = addrNat (broadcastAddress rng) then addrNat (pfxAddr rng) + 2 else Suc (addrNat c))"
    by simp_all
qed

section \<open>Creating addresses\<close>

definition familyOk :: "bool \<Rightarrow> netprefix \<Rightarrow> addr \<Rightarrow> addr \<Rightarrow> bool" where
  "familyOk v6 rng lst cur \<longleftrightarrow> \<not> prefixIsValid rng \<and> cur = NoAddr \<or>
     ringRange v6 rng \<and> lst = broadcastAddress rng \<and> inRing rng cur"

definition storeOk :: "'s Store \<Rightarrow> bool" where
  "storeOk s \<longleftrightarrow> familyOk False (inet4Range s) (inet4Last s) (inet4Current s) \<and>
     familyOk True (inet6Range s) (inet6Last s) (inet6Current s)"

definition rangeOf :: "bool \<Rightarrow> 's Store \<Rightarrow> netprefix" where
  "rangeOf v6 s = (if v6 then inet6Range s else inet4Range s)"

definition currentOf :: "bool \<Rightarrow> 's Store \<Rightarrow> addr" where
  "currentOf v6 s = (if v6 then inet6Current s else inet4Current s)"

lemma familyOk_next:
  assumes "familyOk v6 rng lst cur" and "addrIsValid cur"
  shows "familyOk v6 rng lst (nextAddress rng lst cur)" and "Is4 (nextAddress rng lst cur) \<longleftrightarrow> \<not> v6"
    and "prefixContains rng (nextAddress rng lst cur)"
    and "addrNat (pfxAddr rng) + 2 \<le> addrNat (nextAddress rng lst cur)"
proof -
  have ring: "ringRange v6 rng" "lst = broadcastAddress rng" "inRing rng cur"
    using assms by (auto simp: familyOk_def addrIsValid_def)
  note next_ = nextAddress_ring[OF ring(1,3)]
  show "familyOk v6 rng lst (nextAddress rng lst cur)" "prefixContains rng (nextAddress rng lst cur)"
    using ring next_ by (simp_all add: familyOk_def)
  show "Is4 (nextAddress rng lst cur) \<longleftrightarrow> \<not> v6"
    using next_(1) ring(1,2) by (cases "pfxAddr rng") (auto simp: inRing_def ringRange_def split: if_splits)
  show "addrNat (pfxAddr rng) + 2 \<le> addrNat (nextAddress rng lst cur)"
    using next_(3) ring by (auto simp: inRing_def)
qed

lemma store_Start_ok:
  assumes "\<And>v6. let rng = (if v6 then range6 else range4) in prefixIsValid rng \<longrightarrow> ringRange v6 rng"
    and "opMetadata ops st = (None, st')"
  shows "storeOk (store_Start ops st (NewStore range4 range6))"
proof -
  have first: "inRing rng (addrNext (pfxAddr rng))" if "ringRange v6 rng" for v6 rng
  proof (cases "pfxAddr rng")
    case (IP4 b)
    with that have "unat (b + 1) = Suc (unat b)" "addrNat (broadcastAddress rng) \<ge> unat b + 3"
      using unat_Suc_word[of b "b OR mask (32 - the (pfxBits rng))"] broadcast_IP4[of "the (pfxBits rng)" b]
      by (cases rng; auto simp: ringRange_def split: option.splits if_splits)+
    then show ?thesis using IP4 by (auto simp: inRing_def addrIsValid_def dest: arg_cong[of _ 0 unat])
  next
    case (IP6 b z)
    with that have "unat (b + 1) = Suc (unat b)" "addrNat (broadcastAddress rng) \<ge> unat b + 3" "z = []"
      using unat_Suc_word[of b "b OR mask (128 - the (pfxBits rng))"] broadcast_IP6[of "the (pfxBits rng)" b]
      by (cases rng; auto simp: ringRange_def split: option.splits if_splits)+
    then show ?thesis using IP6 by (auto simp: inRing_def addrIsValid_def dest: arg_cong[of _ 0 unat])
  qed (use that in \<open>auto simp: ringRange_def split: if_splits\<close>)
  show ?thesis
    using assms(1)[of False] assms(1)[of True] first[of False range4] first[of True range6]
    by (auto simp: store_Start_def assms(2) NewStore_def storeOk_def familyOk_def)
qed

context fakeip_storage
begin

lemma create_existing:
  assumes "good s" and "store_Lookup ops s a = Some d" and "v6 \<longleftrightarrow> \<not> Is4 a"
  shows "store_Create ops d v6 s = (Ok a, s)"
proof -
  obtain st where st: "storage s = Some st" "invar st" using assms(1) by (auto simp: good_def split: option.splits)
  then have "opLoadDomain ops d v6 st = Some a" using assms domain_iff by (simp add: store_Lookup_def)
  then show ?thesis by (simp add: store_Create_def st)
qed

text \<open>The three outcomes of \<^verbatim>\<open>Create\<close>.\<close>

lemma create_cases [consumes 2]:
  assumes "good s" and "storeOk s"
  obtains (existing) a where "store_Create ops d v6 s = (Ok a, s)" "store_Lookup ops s a = Some d" "v6 \<longleftrightarrow> \<not> Is4 a"
  | (missing) e where "store_Create ops d v6 s = (Err e, s)" "currentOf v6 s = NoAddr"
  | (fresh) a s' where "store_Create ops d v6 s = (Ok a, s')" "good s'" "storeOk s'"
      "\<And>b. store_Lookup ops s' b = (if b = a then Some d else store_Lookup ops s b)"
      "currentOf v6 s' = a" "currentOf (\<not> v6) s' = currentOf (\<not> v6) s"
      "ringRange v6 (rangeOf v6 s)" "inRing (rangeOf v6 s) (currentOf v6 s)"
      "a = nextAddress (rangeOf v6 s) (broadcastAddress (rangeOf v6 s)) (currentOf v6 s)"
      "v6 \<longleftrightarrow> \<not> Is4 a" "\<And>w. rangeOf w s' = rangeOf w s"
proof -
  obtain st where st: "storage s = Some st" "invar st" using assms(1) by (auto simp: good_def split: option.splits)
  show thesis
  proof (cases "opLoadDomain ops d v6 st")
    case (Some a)
    then have "opLoad ops a st = Some d \<and> (v6 \<longleftrightarrow> \<not> Is4 a)" using domain_iff[OF st(2)] by simp
    then show thesis using Some by (intro existing[of a]) (simp_all add: store_Create_def st store_Lookup_def)
  next
    case None
    note create = store_Create_def st None store_createLocked_def
    show thesis
    proof (cases "addrIsValid (currentOf v6 s)")
      case False
      then show thesis by (intro missing) (auto simp: create currentOf_def addrIsValid_def)
    next
      case True
      define lst where "lst = (if v6 then inet6Last s else inet4Last s)"
      define a where "a = nextAddress (rangeOf v6 s) lst (currentOf v6 s)"
      define s1 where "s1 = (if v6 then s\<lparr>inet6Current := a\<rparr> else s\<lparr>inet4Current := a\<rparr>)"
      define st1 where "st1 = snd (opStore ops a d st)"
      define st2 where "st2 = opSaveMetadataAsync ops (storeMetadata s1) st1"
      have fam: "familyOk v6 (rangeOf v6 s) lst (currentOf v6 s)"
        using assms(2) by (simp add: storeOk_def rangeOf_def currentOf_def lst_def)
      note a = familyOk_next[OF fam True, folded a_def]
      have eq: "store_Create ops d v6 s = (Ok a, s1\<lparr>storage := Some st2\<rparr>)"
        using True by (simp add: create a_def s1_def st1_def st2_def Let_def rangeOf_def currentOf_def lst_def)
      have st1: "invar st1" "\<And>b. opLoad ops b st1 = (if b = a then Some d else opLoad ops b st)"
        using store_invar[OF st(2), of d a] store_load[OF st(2), of d a] None a(2) by (simp_all add: st1_def)
      have ring: "ringRange v6 (rangeOf v6 s)" "lst = broadcastAddress (rangeOf v6 s)" "inRing (rangeOf v6 s) (currentOf v6 s)"
        using fam True by (auto simp: familyOk_def addrIsValid_def)
      show thesis
      proof (rule fresh[OF eq])
        show "good (s1\<lparr>storage := Some st2\<rparr>)" by (simp add: good_def st2_def async_invar st1)
        show "storeOk (s1\<lparr>storage := Some st2\<rparr>)"
          using assms(2) a(1) by (auto simp: storeOk_def s1_def lst_def rangeOf_def)
        show "store_Lookup ops (s1\<lparr>storage := Some st2\<rparr>) b = (if b = a then Some d else store_Lookup ops s b)" for b
          by (simp add: store_Lookup_def st2_def async_load st1 st)
        show "a = nextAddress (rangeOf v6 s) (broadcastAddress (rangeOf v6 s)) (currentOf v6 s)"
          by (simp add: a_def ring(2))
      qed (use ring a in \<open>auto simp: rangeOf_def currentOf_def s1_def\<close>)
    qed
  qed
qed

end

definition createAll :: "'s storageOps \<Rightarrow> bool \<Rightarrow> string list \<Rightarrow> 's Store \<Rightarrow> 's Store" where
  "createAll ops v6 ds s = fold (\<lambda>d s. snd (store_Create ops d v6 s)) ds s"

text \<open>The number of addresses a range hands out before it starts again.\<close>

definition capacity :: "netprefix \<Rightarrow> nat" where
  "capacity rng = addrNat (broadcastAddress rng) - addrNat (pfxAddr rng) - 2"

text \<open>The position of an address on the ring.\<close>

definition atPos :: "netprefix \<Rightarrow> nat \<Rightarrow> addr \<Rightarrow> bool" where
  "atPos rng p x \<longleftrightarrow> addrNat x = addrNat (pfxAddr rng) + 2 + p mod capacity rng"

lemma capacity_pos: "ringRange v6 rng \<Longrightarrow> 0 < capacity rng"
  by (auto simp: ringRange_def capacity_def)

lemma next_pos:
  assumes "ringRange v6 rng" and "inRing rng c" and "atPos rng p c"
  shows "atPos rng (Suc p) (nextAddress rng (broadcastAddress rng) c)"
proof -
  have cap: "addrNat (broadcastAddress rng) = addrNat (pfxAddr rng) + 2 + capacity rng" "0 < capacity rng"
    using assms(1) by (auto simp: ringRange_def capacity_def)
  show ?thesis
    using nextAddress_ring(3)[OF assms(1,2)] assms(3) cap by (auto simp: atPos_def mod_Suc)
qed

lemma atPos_other: "atPos rng p x \<Longrightarrow> atPos rng (p + k) x \<Longrightarrow> 0 < k \<Longrightarrow> k < capacity rng \<Longrightarrow> False"
proof -
  assume "atPos rng p x" "atPos rng (p + k) x" "0 < k" "k < capacity rng"
  then have "(p + k) mod capacity rng = p mod capacity rng" by (simp add: atPos_def)
  then have "capacity rng dvd k" using mod_eq_dvd_iff_nat[of p "p + k" "capacity rng"] by simp
  then show False using \<open>0 < k\<close> \<open>k < capacity rng\<close> by (auto dest: dvd_imp_le)
qed

context fakeip_storage
begin

lemma create_lookup:
  assumes "good s" and "storeOk s" and "store_Create ops d v6 s = (Ok a, s')"
  shows "good s' \<and> storeOk s' \<and> store_Lookup ops s' a = Some d \<and> (v6 \<longleftrightarrow> \<not> Is4 a) \<and>
    (\<forall>b. b \<noteq> a \<longrightarrow> store_Lookup ops s' b = store_Lookup ops s b)"
  using assms(1,2)
proof (cases rule: create_cases[where d = d and ?v6.0 = v6])
  case (fresh b s'')
  have "b = a" "s'' = s'" using assms(3) fresh(1) by simp_all
  then show ?thesis using fresh(2,3,4,10) by simp
qed (use assms in auto)

text \<open>Creating further addresses of a family, starting \<open>j\<close> steps after \<open>a\<close>, leaves \<open>a\<close> alone until the ring
  comes round to it.\<close>

lemma createAll_keeps:
  assumes "good s" and "storeOk s" and "ringRange v6 (rangeOf v6 s)"
    and "atPos (rangeOf v6 s) p a" and "atPos (rangeOf v6 s) (p + j) (currentOf v6 s)"
    and "j + length ds < capacity (rangeOf v6 s)" and "store_Lookup ops s a = Some d"
  shows "store_Lookup ops (createAll ops v6 ds s) a = Some d"
  using assms
proof (induction ds arbitrary: s j)
  case (Cons e ds)
  from Cons.prems(1,2) show ?case
  proof (cases rule: create_cases[where d = e and ?v6.0 = v6])
    case (existing b)
    then show ?thesis using Cons.IH[of s j] Cons.prems by (simp add: createAll_def)
  next
    case (missing x)
    then show ?thesis using Cons.IH[of s j] Cons.prems by (simp add: createAll_def)
  next
    case (fresh b s')
    have pos: "atPos (rangeOf v6 s) (p + Suc j) b"
      using next_pos[OF fresh(7,8) Cons.prems(5)] fresh(9) by simp
    then have "b \<noteq> a" using atPos_other[OF Cons.prems(4), of "Suc j"] Cons.prems(6) by auto
    then have "store_Lookup ops s' a = Some d" using fresh(4) Cons.prems(7) by simp
    then have "store_Lookup ops (createAll ops v6 ds s') a = Some d"
      using Cons.IH[of s' "Suc j"] Cons.prems(3,4,6) fresh(2,3,5,11) pos by simp
    then show ?thesis using fresh(1) by (simp add: createAll_def)
  qed
qed (simp add: createAll_def)

lemma no_early_reuse:
  assumes "good s" and "storeOk s" and "\<And>b. (v6 \<longleftrightarrow> \<not> Is4 b) \<Longrightarrow> store_Lookup ops s b \<noteq> Some d"
    and "store_Create ops d v6 s = (Ok a, s1)" and "length ds < capacity (rangeOf v6 s)"
  shows "store_Lookup ops (createAll ops v6 ds s1) a = Some d"
  using assms(1,2)
proof (cases rule: create_cases[where d = d and ?v6.0 = v6])
  case (fresh b s')
  have s1: "s' = s1" "b = a" using assms(4) fresh(1) by simp_all
  note next_ = nextAddress_ring[OF fresh(7,8), folded fresh(9)]
  have "addrNat (pfxAddr (rangeOf v6 s)) + 2 \<le> addrNat a" "addrNat a < addrNat (broadcastAddress (rangeOf v6 s))"
    using next_ fresh(8) s1 by (auto simp: inRing_def)
  then have pos: "atPos (rangeOf v6 s) (addrNat a - addrNat (pfxAddr (rangeOf v6 s)) - 2) a"
    by (auto simp: atPos_def capacity_def)
  show ?thesis
    using createAll_keeps[of s1 v6 "addrNat a - addrNat (pfxAddr (rangeOf v6 s)) - 2" a 0 ds d]
      fresh(2,3,4,5,7,11) pos s1 assms(5) by simp
qed (use assms in auto)

end

section \<open>Metadata\<close>

text \<open>\<^verbatim>\<open>MarshalBinary\<close> and \<^verbatim>\<open>UnmarshalBinary\<close> of \<^verbatim>\<open>netip.Addr\<close> and \<^verbatim>\<open>netip.Prefix\<close>; the bits of an invalid prefix
  are written as 255.\<close>

definition charByte :: "char \<Rightarrow> byte" where "charByte c = of_nat (of_char c)"
definition byteChar :: "byte \<Rightarrow> char" where "byteChar b = char_of (unat b)"

text \<open>\<^verbatim>\<open>netip.Addr.AsSlice\<close>.\<close>

fun AsSlice :: "addr \<Rightarrow> bytes" where
  "AsSlice NoAddr = []"
| "AsSlice (IP4 a) = bytesBE 4 a"
| "AsSlice (IP6 a z) = bytesBE 16 a"

text \<open>An address that its bytes determine: without a zone, and not an IPv4 address in IPv6 form.\<close>

fun plainAddr :: "addr \<Rightarrow> bool" where
  "plainAddr NoAddr = False"
| "plainAddr (IP4 a) = True"
| "plainAddr (IP6 a z) = (z = [] \<and> drop_bit 32 a \<noteq> 0xFFFF)"

fun addrMarshal :: "addr \<Rightarrow> bytes" where
  "addrMarshal NoAddr = []"
| "addrMarshal (IP4 a) = bytesBE 4 a"
| "addrMarshal (IP6 a z) = bytesBE 16 a @ map charByte z"

definition addrUnmarshal :: "bytes \<Rightarrow> (goerror, addr) result" where
  "addrUnmarshal b =
     (if length b = 0 then Ok NoAddr
      else if length b = 4 then Ok (IP4 (wordBE b))
      else if length b = 16 then Ok (IP6 (wordBE b) [])
      else if length b > 16 then Ok (IP6 (wordBE (take 16 b)) (map byteChar (drop 16 b)))
      else Err (EOther ''unexpected slice size''))"

definition prefixBitsByte :: "netprefix \<Rightarrow> byte" where
  "prefixBitsByte p = (case pfxBits p of None \<Rightarrow> 255 | Some n \<Rightarrow> of_nat n)"

definition prefixMarshal :: "netprefix \<Rightarrow> bytes" where
  "prefixMarshal p =
     addrMarshal (case pfxAddr p of IP6 w z \<Rightarrow> IP6 w [] | a \<Rightarrow> a) @ [prefixBitsByte p]"

definition prefixUnmarshal :: "bytes \<Rightarrow> (goerror, netprefix) result" where
  "prefixUnmarshal b =
     (if length b < 1 then Err (EOther ''unexpected slice size'')
      else bindR (addrUnmarshal (butlast b)) (\<lambda>a. Ok (PrefixFrom a (unat (last b)))))"

definition writeElement :: "bytes \<Rightarrow> bytes" where
  "writeElement data = bytesBE 2 (of_nat (length data) :: uint16) @ data"

definition FakeIPMetadata_MarshalBinary :: "FakeIPMetadata \<Rightarrow> bytes" where
  "FakeIPMetadata_MarshalBinary m =
     writeElement (prefixMarshal (Inet4Range m)) @ writeElement (prefixMarshal (Inet6Range m)) @
     writeElement (addrMarshal (Inet4Current m)) @ writeElement (addrMarshal (Inet6Current m))"

text \<open>A length that cannot be read panics (\<^verbatim>\<open>common.Must\<close>), a short element is an error.\<close>

definition readElement :: "bytes reader" where
  "readElement bs = (case readBE 2 bs :: (goerror, uint16 \<times> bytes) result of
     Inl e \<Rightarrow> Err (EPanic ''EOF'')
   | Inr (len, rest) \<Rightarrow>
       (case readFull (unat len) rest of Inl e \<Rightarrow> Err e | Inr (x, rest1) \<Rightarrow> Ok (x, rest1)))"

definition FakeIPMetadata_UnmarshalBinary :: "bytes \<Rightarrow> (goerror, FakeIPMetadata) result" where
  "FakeIPMetadata_UnmarshalBinary data =
     bindR (readElement data) (\<lambda>(e1, r1). bindR (prefixUnmarshal e1) (\<lambda>p4.
     bindR (readElement r1) (\<lambda>(e2, r2). bindR (prefixUnmarshal e2) (\<lambda>p6.
     bindR (readElement r2) (\<lambda>(e3, r3). bindR (addrUnmarshal e3) (\<lambda>a4.
     bindR (readElement r3) (\<lambda>(e4, r4). bindR (addrUnmarshal e4) (\<lambda>a6.
       Ok \<lparr>Inet4Range = p4, Inet6Range = p6, Inet4Current = a4, Inet6Current = a6\<rparr>))))))))"

lemma byteChar_charByte [simp]: "byteChar (charByte c) = c"
proof -
  have "(of_char c :: nat) < 256" by simp
  then show ?thesis by (simp add: byteChar_def charByte_def unat_of_nat take_bit_eq_mod)
qed

lemma addr_roundtrip [simp]: "addrUnmarshal (addrMarshal a) = Ok a"
proof (cases a)
  case (IP6 w z)
  then show ?thesis by (cases z) (simp_all add: addrUnmarshal_def comp_def)
qed (simp_all add: addrUnmarshal_def)

text \<open>The prefixes \<^verbatim>\<open>netip.PrefixFrom\<close> makes: an address without a zone and, unless the prefix is invalid, at most as
  many bits as the address has.\<close>

definition wf_prefix :: "netprefix \<Rightarrow> bool" where
  "wf_prefix p \<longleftrightarrow> \<not> hasZone (pfxAddr p) \<and>
     (case pfxBits p of None \<Rightarrow> True | Some n \<Rightarrow> addrIsValid (pfxAddr p) \<and> n \<le> BitLen (pfxAddr p))"

lemma wf_prefix_From: "wf_prefix (PrefixFrom a n)"
  by (cases a) (simp_all add: wf_prefix_def PrefixFrom_def addrIsValid_def)

lemma PrefixFrom_bits [simp]:
  assumes "wf_prefix p"
  shows "PrefixFrom (pfxAddr p) (unat (prefixBitsByte p)) = p"
proof -
  have "BitLen (pfxAddr p) \<le> 128" by (cases "pfxAddr p") simp_all
  then show ?thesis
    using assms
    by (cases p; cases "pfxAddr p"; cases "pfxBits p")
      (auto simp: PrefixFrom_def wf_prefix_def addrIsValid_def unat_of_nat take_bit_eq_mod prefixBitsByte_def)
qed

lemma prefix_roundtrip [simp]:
  assumes "wf_prefix p"
  shows "prefixUnmarshal (prefixMarshal p) = Ok p"
proof -
  have "prefixMarshal p = addrMarshal (pfxAddr p) @ [prefixBitsByte p]"
    using assms by (auto simp: prefixMarshal_def wf_prefix_def split: addr.split)
  then show ?thesis using assms by (simp add: prefixUnmarshal_def)
qed

lemma length_prefixMarshal: "length (prefixMarshal p) \<le> 17"
  by (auto simp: prefixMarshal_def split: addr.split)

lemma readElement_write [simp]:
  "length x < 65536 \<Longrightarrow> readElement (writeElement x @ rest) = Ok (x, rest)"
  by (simp add: readElement_def writeElement_def unat_of_nat take_bit_eq_mod)

lemma readElement_last [simp]: "length x < 65536 \<Longrightarrow> readElement (writeElement x) = Ok (x, [])"
  using readElement_write[of x "[]"] by simp

lemma create_fresh:
  assumes "memory.good s" and "storeOk s" and "\<And>b. (v6 \<longleftrightarrow> \<not> Is4 b) \<Longrightarrow> store_Lookup memoryStorage s b \<noteq> Some d"
    and "store_Create memoryStorage d v6 s = (Ok a, s')"
  shows "store_Lookup memoryStorage s' a = Some d \<and> (v6 \<longleftrightarrow> \<not> Is4 a) \<and> store_Contains s' a \<and>
    addrNat (pfxAddr (rangeOf v6 s)) + 2 \<le> addrNat a \<and> addrNat a < addrNat (broadcastAddress (rangeOf v6 s)) \<and>
    (\<forall>b. b \<noteq> a \<longrightarrow> store_Lookup memoryStorage s' b = store_Lookup memoryStorage s b)"
  using assms(1,2)
proof (cases rule: memory.create_cases[where d = d and ?v6.0 = v6])
  case (fresh b s'')
  have s': "s'' = s'" "b = a" using assms(4) fresh(1) by simp_all
  note next_ = nextAddress_ring[OF fresh(7,8), folded fresh(9), unfolded s'(2)]
  have "store_Contains s' a"
    using next_(2) fresh(11)[of v6] s'(1) by (auto simp: store_Contains_def rangeOf_def split: if_splits)
  moreover have "addrNat (pfxAddr (rangeOf v6 s)) + 2 \<le> addrNat a" "addrNat a < addrNat (broadcastAddress (rangeOf v6 s))"
    using next_ fresh(8) by (auto simp: inRing_def)
  ultimately show ?thesis using fresh(4,10) s' by simp
qed (use assms in auto)

section \<open>Properties\<close>

text \<open>
  C20: Round trip of the fake addresses.  On the in-memory storage, an address that \<^verbatim>\<open>Create\<close> returns for a domain is of
  the requested family, lies in the configured range (neither of its first two addresses nor the last one), and
  \<^verbatim>\<open>Lookup\<close> gives the domain back; the entries of all other addresses are as before.
\<close>

theorem fakeip_create_lookup:
  assumes "memory.good s" and "storeOk s" and "\<And>b. (v6 \<longleftrightarrow> \<not> Is4 b) \<Longrightarrow> store_Lookup memoryStorage s b \<noteq> Some d"
    and "store_Create memoryStorage d v6 s = (Ok a, s')"
  shows "store_Lookup memoryStorage s' a = Some d \<and> (v6 \<longleftrightarrow> \<not> Is4 a) \<and> store_Contains s' a \<and>
    addrNat (pfxAddr (rangeOf v6 s)) + 2 \<le> addrNat a \<and> addrNat a < addrNat (broadcastAddress (rangeOf v6 s)) \<and>
    (\<forall>b. b \<noteq> a \<longrightarrow> store_Lookup memoryStorage s' b = store_Lookup memoryStorage s b)"
  using assms by (rule create_fresh)

text \<open>The store of the documentation's example ranges, freshly started.\<close>

definition exampleRange4 :: netprefix where
  "exampleRange4 = PrefixFrom (IP4 0xC6120000) 15"

definition exampleStore :: "MemoryStorage Store" where
  "exampleStore = store_Start memoryStorage NewMemoryStorage (NewStore exampleRange4 noPrefix)"

lemma exampleStore_ok: "memory.good exampleStore" "storeOk exampleStore" "store_Lookup memoryStorage exampleStore b = None"
proof -
  have bc: "broadcastAddress exampleRange4 = IP4 0xC613FFFF"
    using broadcast_IP4[of 15 "0xC6120000"] by (simp add: exampleRange4_def PrefixFrom_def addrIsValid_def mask_eq_exp_minus_1)
  have "memory_invar NewMemoryStorage" by (simp add: memory_invar_def NewMemoryStorage_def)
  then show "memory.good exampleStore" unfolding exampleStore_def by (rule memory.start_good)
  have "ringRange False exampleRange4"
    by (simp add: ringRange_def bc) (simp add: exampleRange4_def PrefixFrom_def addrIsValid_def)
  then show "storeOk exampleStore"
    unfolding exampleStore_def
    by (intro store_Start_ok[of noPrefix exampleRange4 memoryStorage _ NewMemoryStorage])
      (auto simp: memoryStorage_def noPrefix_def prefixIsValid_def split: if_splits)
  show "store_Lookup memoryStorage exampleStore b = None"
    by (simp add: exampleStore_def store_Start_def memory_defs store_Lookup_def NewStore_def)
qed

lemma exampleStore_create:
  "store_Create memoryStorage ''example.org'' False exampleStore =
   (Ok (IP4 0xC6120002), snd (store_Create memoryStorage ''example.org'' False exampleStore))"
proof -
  have bc: "broadcastAddress exampleRange4 = IP4 0xC613FFFF"
    using broadcast_IP4[of 15 "0xC6120000"] by (simp add: exampleRange4_def PrefixFrom_def addrIsValid_def mask_eq_exp_minus_1)
  show ?thesis
    by (simp add: exampleStore_def store_Start_def NewStore_def store_Create_def store_createLocked_def memory_defs
        NewMemoryStorage_def nextAddress_def bc prefixIsValid_def)
      (simp add: exampleRange4_def PrefixFrom_def prefixContains_def addrIsValid_def maskHigh_def Let_def)
qed

theorem fakeip_create_lookup_witness:
  "store_Lookup memoryStorage (snd (store_Create memoryStorage ''example.org'' False exampleStore)) (IP4 0xC6120002) =
   Some ''example.org''"
  using fakeip_create_lookup[OF exampleStore_ok(1,2) _ exampleStore_create] exampleStore_ok(3) by simp

text \<open>
  C19: Addresses are not reused early.  After a domain without an address was given one, it keeps it while
  fewer further addresses are created than the range can hand out: only when every other address of the
  ring has been used again is the oldest entry replaced.
\<close>

theorem fakeip_no_early_reuse:
  assumes "memory.good s" and "storeOk s" and "\<And>b. (v6 \<longleftrightarrow> \<not> Is4 b) \<Longrightarrow> store_Lookup memoryStorage s b \<noteq> Some d"
    and "store_Create memoryStorage d v6 s = (Ok a, s1)" and "length ds < capacity (rangeOf v6 s)"
  shows "store_Lookup memoryStorage (createAll memoryStorage v6 ds s1) a = Some d"
  using assms by (rule memory.no_early_reuse)

theorem fakeip_no_early_reuse_witness:
  "store_Lookup memoryStorage (createAll memoryStorage False (replicate 100000 ''x'')
     (snd (store_Create memoryStorage ''example.org'' False exampleStore))) (IP4 0xC6120002) = Some ''example.org''"
proof -
  have bc: "broadcastAddress exampleRange4 = IP4 0xC613FFFF"
    using broadcast_IP4[of 15 "0xC6120000"] by (simp add: exampleRange4_def PrefixFrom_def addrIsValid_def mask_eq_exp_minus_1)
  have rng: "rangeOf False exampleStore = exampleRange4"
    by (simp add: rangeOf_def exampleStore_def store_Start_def NewStore_def memoryStorage_def)
  have "100000 < capacity (rangeOf False exampleStore)"
    unfolding rng capacity_def bc by (simp add: exampleRange4_def PrefixFrom_def addrIsValid_def)
  then show ?thesis
    using fakeip_no_early_reuse[OF exampleStore_ok(1,2) _ exampleStore_create, of "replicate 100000 ''x''"] exampleStore_ok(3)
    by simp
qed

text \<open>
  C22: The saved metadata is read back as it was written: \<^verbatim>\<open>UnmarshalBinary\<close> inverts \<^verbatim>\<open>MarshalBinary\<close> for the
  prefixes that \<^verbatim>\<open>netip\<close> builds and addresses with a zone shorter than 65520 bytes.
\<close>

theorem fakeip_metadata_roundtrip:
  assumes "wf_prefix (Inet4Range md)" and "wf_prefix (Inet6Range md)"
    and "length (addrMarshal (Inet4Current md)) < 65536" and "length (addrMarshal (Inet6Current md)) < 65536"
  shows "FakeIPMetadata_UnmarshalBinary (FakeIPMetadata_MarshalBinary md) = Ok md"
proof -
  have "length (prefixMarshal p) < 65536" for p using length_prefixMarshal[of p] by simp
  then show ?thesis
    using assms by (simp add: FakeIPMetadata_UnmarshalBinary_def FakeIPMetadata_MarshalBinary_def)
qed

theorem fakeip_metadata_roundtrip_witness:
  "FakeIPMetadata_UnmarshalBinary (FakeIPMetadata_MarshalBinary
     \<lparr>Inet4Range = exampleRange4, Inet6Range = PrefixFrom NoAddr 0, Inet4Current = IP4 0xC6120007, Inet6Current = NoAddr\<rparr>) =
   Ok \<lparr>Inet4Range = exampleRange4, Inet6Range = PrefixFrom NoAddr 0, Inet4Current = IP4 0xC6120007, Inet6Current = NoAddr\<rparr>"
  by (rule fakeip_metadata_roundtrip) (simp_all add: exampleRange4_def wf_prefix_From)

text \<open>A range of two addresses has none to hand out: the wrap-around step leaves the range.\<close>

lemma small_range_escapes:
  "fst (store_Create memoryStorage ''example.org'' False
     (store_Start memoryStorage NewMemoryStorage (NewStore (PrefixFrom (IP4 0xC6120000) 31) noPrefix))) = Ok (IP4 0xC6120002) \<and>
   \<not> prefixContains (PrefixFrom (IP4 0xC6120000) 31) (IP4 0xC6120002)"
  by (simp add: store_Start_def NewStore_def store_Create_def store_createLocked_def memory_defs NewMemoryStorage_def
      nextAddress_def prefixIsValid_def PrefixFrom_def prefixContains_def addrIsValid_def maskHigh_def Let_def)

end
