(* ===== verification/DNSClient.thy ===== *)
theory DNSClient
  imports DNSRouter FakeIP
begin

text \<open>
  The DNS client (\<^verbatim>\<open>dns/client.go\<close>, \<^verbatim>\<open>dns/extension_edns0_subnet.go\<close>): exchanging a message with a transport, the
  cache of answers in memory or in a store, optimistic answers with their refresh in the background, the
  store of rejected answers, time-to-live handling and EDNS0 options, and the fixed answers.

  Time is the clock in nanoseconds; a call of a transport says when it ends.  The lock that lets equal queries
  wait for each other is a parameter that tells how waiting ended.  A refresh in the background is a task of
  the state that runs later as a step of its own.  Reading messages of the wire format, the EDNS0 helpers of
  the DNS library, the cache library and the stores are parameters.
\<close>

section \<open>Records and time-to-live\<close>

definition TypeOPT :: uint16 where "TypeOPT = 41"
definition TypeCNAME :: uint16 where "TypeCNAME = 5"
definition second :: int where "second = 1000000000"

fun extractNegativeTTL :: "RR list \<Rightarrow> uint32 option" where
  "extractNegativeTTL [] = None"
| "extractNegativeTTL (r # rs) = (case rrData r of
     RData_SOA soaMinimum \<Rightarrow> Some (if rrTtl r < soaMinimum then rrTtl r else soaMinimum)
   | _ \<Rightarrow> extractNegativeTTL rs)"

text \<open>The body of the loop of \<^verbatim>\<open>computeTimeToLive\<close> over all records.\<close>

definition shorterTTL :: "RR \<Rightarrow> uint32 \<Rightarrow> uint32" where
  "shorterTTL r timeToLive =
     (if rrType r = TypeOPT then timeToLive
      else if timeToLive = 0 \<or> rrTtl r > 0 \<and> rrTtl r < timeToLive then rrTtl r else timeToLive)"

definition allRecords :: "dnsMsg \<Rightarrow> RR list" where
  "allRecords m = msgAnswer m @ msgNs m @ msgExtra m"

definition computeTimeToLive :: "dnsMsg \<Rightarrow> uint32" where
  "computeTimeToLive response =
     (case (if msgAnswer response = [] then extractNegativeTTL (msgNs response) else None) of
        Some soaTTL \<Rightarrow> soaTTL
      | None \<Rightarrow> fold shorterTTL (allRecords response) 0)"

definition setTTL :: "uint32 \<Rightarrow> RR \<Rightarrow> RR" where
  "setTTL ttl r = (if rrType r = TypeOPT then r else r\<lparr>rrTtl := ttl\<rparr>)"

definition normalizeTTL :: "uint32 \<Rightarrow> dnsMsg \<Rightarrow> dnsMsg" where
  "normalizeTTL ttl m = m\<lparr>msgAnswer := map (setTTL ttl) (msgAnswer m), msgNs := map (setTTL ttl) (msgNs m),
     msgExtra := map (setTTL ttl) (msgExtra m)\<rparr>"

text \<open>Address hints of the wrong family leave an HTTPS record.\<close>

definition filterHints :: "uint8 \<Rightarrow> RR \<Rightarrow> RR" where
  "filterHints strategy r = (case rrData r of
     RData_HTTPS vs \<Rightarrow> r\<lparr>rrData := RData_HTTPS (filter (\<lambda>v. case v of
         SVCBIPv6Hint _ \<Rightarrow> strategy \<noteq> DomainStrategyIPv4Only
       | SVCBIPv4Hint _ \<Rightarrow> strategy = DomainStrategyIPv4Only
       | SVCBOther \<Rightarrow> True) vs)\<rparr>
   | _ \<Rightarrow> r)"

definition applyResponseOptions :: "Question \<Rightarrow> DNSQueryOptions \<Rightarrow> dnsMsg \<Rightarrow> dnsMsg \<times> uint32" where
  "applyResponseOptions question options response =
     (let r1 = (if qType question = TypeHTTPS \<and>
                   (qoStrategy options = DomainStrategyIPv4Only \<or> qoStrategy options = DomainStrategyIPv6Only)
                then response\<lparr>msgAnswer := map (filterHints (qoStrategy options)) (msgAnswer response)\<rparr>
                else response);
          ttl = (case qoRewriteTTL options of None \<Rightarrow> computeTimeToLive r1 | Some t \<Rightarrow> t)
      in (normalizeTTL ttl r1, ttl))"

section \<open>Fixed answers\<close>

definition fixedHeader :: "uint16 \<Rightarrow> int \<Rightarrow> Question list \<Rightarrow> dnsMsg" where
  "fixedHeader i rcode qs = \<lparr>msgId = i, msgResponse = True, msgAuthoritative = True, msgRecursionDesired = True,
     msgRecursionAvailable = True, msgRcode = rcode, msgQuestion = qs, msgAnswer = [], msgNs = [], msgExtra = []\<rparr>"

definition FixedResponseStatus :: "dnsMsg \<Rightarrow> int \<Rightarrow> dnsMsg" where
  "FixedResponseStatus message rcode = fixedHeader (msgId message) rcode (msgQuestion message)"

definition fixedAddress :: "Question \<Rightarrow> uint32 \<Rightarrow> addr \<Rightarrow> RR list" where
  "fixedAddress question timeToLive address =
     (if Is4 address \<and> qType question = TypeA
      then [\<lparr>rrName = qName question, rrType = TypeA, rrClass = ClassINET, rrTtl = timeToLive, rrData = RData_A (AsSlice address)\<rparr>]
      else if Is6 address \<and> qType question = TypeAAAA
      then [\<lparr>rrName = qName question, rrType = TypeAAAA, rrClass = ClassINET, rrTtl = timeToLive, rrData = RData_AAAA (AsSlice address)\<rparr>]
      else [])"

definition FixedResponse :: "uint16 \<Rightarrow> Question \<Rightarrow> addr list \<Rightarrow> uint32 \<Rightarrow> dnsMsg" where
  "FixedResponse i question addresses timeToLive =
     (fixedHeader i RcodeSuccess [question])\<lparr>msgAnswer := concat (map (fixedAddress question timeToLive) addresses)\<rparr>"

definition FixedResponseCNAME :: "uint16 \<Rightarrow> Question \<Rightarrow> string \<Rightarrow> uint32 \<Rightarrow> dnsMsg" where
  "FixedResponseCNAME i question target timeToLive =
     (fixedHeader i RcodeSuccess [question])\<lparr>msgAnswer := [\<lparr>rrName = qName question, rrType = TypeCNAME,
        rrClass = ClassINET, rrTtl = timeToLive, rrData = RData_CNAME target\<rparr>]\<rparr>"

text \<open>The header of TXT and MX answers carries the type of an address record.\<close>

definition FixedResponseTXT :: "uint16 \<Rightarrow> Question \<Rightarrow> string list \<Rightarrow> uint32 \<Rightarrow> dnsMsg" where
  "FixedResponseTXT i question texts timeToLive =
     (fixedHeader i RcodeSuccess [question])\<lparr>msgAnswer := [\<lparr>rrName = qName question, rrType = TypeA,
        rrClass = ClassINET, rrTtl = timeToLive, rrData = RData_TXT texts\<rparr>]\<rparr>"

definition FixedResponseMX :: "uint16 \<Rightarrow> Question \<Rightarrow> (uint16 \<times> string) list \<Rightarrow> uint32 \<Rightarrow> dnsMsg" where
  "FixedResponseMX i question mxs timeToLive =
     (fixedHeader i RcodeSuccess [question])\<lparr>msgAnswer := map (\<lambda>(pref, host). \<lparr>rrName = qName question,
        rrType = TypeA, rrClass = ClassINET, rrTtl = timeToLive, rrData = RData_MX pref host\<rparr>) mxs\<rparr>"

section \<open>The client subnet\<close>

fun isSubnet :: "ednsOption \<Rightarrow> bool" where
  "isSubnet (EDNS0_SUBNET _ _ _) = True"
| "isSubnet _ = False"

fun optOptions :: "rdata \<Rightarrow> ednsOption list option" where
  "optOptions (RData_OPT os) = Some os"
| "optOptions _ = None"

definition hasSubnet :: "RR \<Rightarrow> bool" where
  "hasSubnet r = (case optOptions (rrData r) of None \<Rightarrow> False | Some os \<Rightarrow> list_ex isSubnet os)"

definition subnetOption :: "netprefix \<Rightarrow> ednsOption" where
  "subnetOption p = EDNS0_SUBNET (if Is4 (pfxAddr p) then 1 else 2)
     (case pfxBits p of None \<Rightarrow> 255 | Some n \<Rightarrow> of_nat n) (AsSlice (pfxAddr p))"

fun replaceFirst :: "('a \<Rightarrow> bool) \<Rightarrow> ('a \<Rightarrow> 'a) \<Rightarrow> 'a list \<Rightarrow> 'a list" where
  "replaceFirst P f [] = []"
| "replaceFirst P f (x # xs) = (if P x then f x # xs else x # replaceFirst P f xs)"

definition mapOptions :: "(ednsOption list \<Rightarrow> ednsOption list) \<Rightarrow> RR \<Rightarrow> RR" where
  "mapOptions f r = (case optOptions (rrData r) of None \<Rightarrow> r | Some os \<Rightarrow> r\<lparr>rrData := RData_OPT (f os)\<rparr>)"

text \<open>
  \<^verbatim>\<open>SetClientSubnet\<close>: the loop ends at the first OPT record with a subnet option; otherwise the variable
  \<^verbatim>\<open>optRecord\<close> holds the last record if that is an OPT record, and nil if it is another one.
\<close>

definition SetClientSubnet :: "dnsMsg \<Rightarrow> netprefix \<Rightarrow> dnsMsg" where
  "SetClientSubnet message clientSubnet =
     (let extra = msgExtra message; option = subnetOption clientSubnet
      in if list_ex hasSubnet extra
         then message\<lparr>msgExtra := replaceFirst hasSubnet (mapOptions (replaceFirst isSubnet (\<lambda>_. option))) extra\<rparr>
         else if extra \<noteq> [] \<and> optOptions (rrData (last extra)) \<noteq> None
         then message\<lparr>msgExtra := butlast extra @ [mapOptions (\<lambda>os. os @ [option]) (last extra)]\<rparr>
         else message\<lparr>msgExtra := extra @ [\<lparr>rrName = ''.'', rrType = TypeOPT, rrClass = 0, rrTtl = 0,
                rrData = RData_OPT [option]\<rparr>]\<rparr>)"

section \<open>State and surroundings\<close>

type_synonym dnsCacheKey = "Question \<times> string"

record clientConfig =
  ccTimeout :: int
  ccDisableCache :: bool
  ccDisableExpire :: bool
  ccOptimisticTimeout :: int
  ccClientSubnet :: netprefix
  ccRDRC :: bool
  ccDNSCache :: bool

text \<open>A refresh that has been started in the background.\<close>

record refreshTask =
  rtTransport :: dnsTransport
  rtQuestion :: Question
  rtMessage :: dnsMsg
  rtOptions :: DNSQueryOptions
  rtChecker :: responseCheck

record 's clientState =
  clNow :: int
  clCache :: "(dnsCacheKey, dnsMsg \<times> int) gomap option"
  clStore :: 's
  clRefreshing :: "dnsCacheKey list"
  clTasks :: "refreshTask list"

datatype lockOutcome = LockFree | LockReleased | LockCancelled

text \<open>
  The parameters: the transport's \<^verbatim>\<open>Exchange\<close> at a time, with a timeout; waiting for an equal query; what the
  cache keeps when it is full; the two stores; packing and unpacking messages; the EDNS0 helpers.
\<close>

record 's clientWorld =
  cwExchange :: "int \<Rightarrow> dnsTransport \<Rightarrow> int \<Rightarrow> dnsMsg \<Rightarrow> (dnsError, dnsMsg) result \<times> int"
  cwLock :: "int \<Rightarrow> dnsCacheKey \<Rightarrow> lockOutcome"
  cwKeep :: "(dnsCacheKey, dnsMsg \<times> int) gomap \<Rightarrow> (dnsCacheKey, dnsMsg \<times> int) gomap"
  cwLoadRDRC :: "'s \<Rightarrow> int \<Rightarrow> string \<Rightarrow> string \<Rightarrow> uint16 \<Rightarrow> bool"
  cwSaveRDRC :: "'s \<Rightarrow> int \<Rightarrow> string \<Rightarrow> string \<Rightarrow> uint16 \<Rightarrow> 's"
  cwLoadDNSCache :: "'s \<Rightarrow> int \<Rightarrow> string \<Rightarrow> string \<Rightarrow> uint16 \<Rightarrow> (bytes \<times> int) option"
  cwSaveDNSCache :: "'s \<Rightarrow> string \<Rightarrow> string \<Rightarrow> uint16 \<Rightarrow> bytes \<Rightarrow> int \<Rightarrow> 's"
  cwClearDNSCache :: "'s \<Rightarrow> 's"
  cwPack :: "dnsMsg \<Rightarrow> bytes option"
  cwUnpack :: "bytes \<Rightarrow> dnsMsg option"
  cwIsEdns0 :: "dnsMsg \<Rightarrow> RR option"
  cwVersion :: "RR \<Rightarrow> uint8"
  cwSetEdns0 :: "dnsMsg \<Rightarrow> RR \<Rightarrow> dnsMsg"

text \<open>\<^verbatim>\<open>NewClient\<close> and \<^verbatim>\<open>Start\<close>: without a store, and unless caching is disabled, the cache is in memory.\<close>

definition initializeMemoryCache :: "clientConfig \<Rightarrow> 's clientState \<Rightarrow> 's clientState" where
  "initializeMemoryCache K c = (if ccDisableCache K \<or> clCache c \<noteq> None then c else c\<lparr>clCache := Some []\<rparr>)"

definition client_Start :: "clientConfig \<Rightarrow> 's clientState \<Rightarrow> 's clientState" where
  "client_Start K c = (if ccDNSCache K then c else initializeMemoryCache K c)"

section \<open>The cache\<close>

text \<open>Without expiry the cache ignores the time that is kept with an entry.\<close>

definition storeCache ::
  "'s clientWorld \<Rightarrow> clientConfig \<Rightarrow> dnsTransport \<Rightarrow> Question \<Rightarrow> dnsMsg \<Rightarrow> uint32 \<Rightarrow> 's clientState \<Rightarrow> 's clientState" where
  "storeCache W K transport question message timeToLive c =
     (if timeToLive = 0 then c
      else if ccDNSCache K then (case cwPack W message of
          None \<Rightarrow> c
        | Some packed \<Rightarrow> c\<lparr>clStore := cwSaveDNSCache W (clStore c) (trTag transport) (qName question) (qType question)
            packed (clNow c + second * uint timeToLive)\<rparr>)
      else case clCache c of
          None \<Rightarrow> c
        | Some cache \<Rightarrow> c\<lparr>clCache := Some (cwKeep W (AList.update (question, trTag transport)
            (message, clNow c + second * uint timeToLive) cache))\<rparr>)"

text \<open>
  What a cached message with its time of expiry is worth now: the message with the seconds left, and whether
  it is stale.  The conversion of the duration through a floating point number is taken to be exact.
\<close>

definition freshness :: "clientConfig \<Rightarrow> int \<Rightarrow> dnsMsg \<Rightarrow> int \<Rightarrow> (dnsMsg \<times> int \<times> bool) option" where
  "freshness K now response expireAt =
     (if now > expireAt
      then if ccOptimisticTimeout K > 0 \<and> now < expireAt + ccOptimisticTimeout K
           then Some (normalizeTTL 1 response, 0, True) else None
      else let nowTTL = max ((expireAt - now) div second) 0
           in Some (normalizeTTL (word_of_int nowTTL) response, nowTTL, False))"

definition loadPersistentResponse ::
  "'s clientWorld \<Rightarrow> clientConfig \<Rightarrow> Question \<Rightarrow> dnsTransport \<Rightarrow> 's clientState \<Rightarrow> (dnsMsg \<times> int \<times> bool) option" where
  "loadPersistentResponse W K question transport c =
     (case cwLoadDNSCache W (clStore c) (clNow c) (trTag transport) (qName question) (qType question) of
        None \<Rightarrow> None
      | Some (rawMessage, expireAt) \<Rightarrow> (case cwUnpack W rawMessage of
          None \<Rightarrow> None
        | Some response \<Rightarrow> if ccDisableExpire K then Some (response, 0, False)
            else freshness K (clNow c) response expireAt))"

definition loadResponse ::
  "'s clientWorld \<Rightarrow> clientConfig \<Rightarrow> Question \<Rightarrow> dnsTransport \<Rightarrow> 's clientState \<Rightarrow>
   (dnsMsg \<times> int \<times> bool) option \<times> 's clientState" where
  "loadResponse W K question transport c =
     (if ccDNSCache K then (loadPersistentResponse W K question transport c, c)
      else case clCache c of
        None \<Rightarrow> (None, c)
      | Some cache \<Rightarrow> (case map_of cache (question, trTag transport) of
          None \<Rightarrow> (None, c)
        | Some (response, expireAt) \<Rightarrow>
            if ccDisableExpire K then (Some (response, 0, False), c)
            else (case freshness K (clNow c) response expireAt of
              None \<Rightarrow> (None, c\<lparr>clCache := Some (AList.delete (question, trTag transport) cache)\<rparr>)
            | Some r \<Rightarrow> (Some r, c))))"

definition client_ClearCache :: "'s clientWorld \<Rightarrow> clientConfig \<Rightarrow> 's clientState \<Rightarrow> 's clientState" where
  "client_ClearCache W K c =
     (let c1 = (case clCache c of None \<Rightarrow> c | Some _ \<Rightarrow> c\<lparr>clCache := Some []\<rparr>)
      in if ccDNSCache K then c1\<lparr>clStore := cwClearDNSCache W (clStore c1)\<rparr> else c1)"

section \<open>Exchange\<close>

definition prepareExchangeMessage :: "clientConfig \<Rightarrow> dnsMsg \<Rightarrow> DNSQueryOptions \<Rightarrow> dnsMsg" where
  "prepareExchangeMessage K message options =
     (let clientSubnet = (if prefixIsValid (qoClientSubnet options) then qoClientSubnet options else ccClientSubnet K)
      in if prefixIsValid clientSubnet then SetClientSubnet message clientSubnet else message)"

definition stripDNSPadding :: "dnsMsg \<Rightarrow> dnsMsg" where
  "stripDNSPadding response = response\<lparr>msgExtra := map (mapOptions (filter (\<lambda>it. case it of
     EDNS0_PADDING _ \<Rightarrow> False | _ \<Rightarrow> True))) (msgExtra response)\<rparr>"

text \<open>\<^verbatim>\<open>errors.As(err, &rcodeError)\<close>.\<close>

fun asRcodeError :: "dnsError \<Rightarrow> int option" where
  "asRcodeError (DRcodeError rcode) = Some rcode"
| "asRcodeError (DCause e _) = asRcodeError e"
| "asRcodeError (DRejectedError (Some e)) = asRcodeError e"
| "asRcodeError (DJoined es) = fold (\<lambda>e found. case found of None \<Rightarrow> asRcodeError e | Some r \<Rightarrow> Some r) es None"
| "asRcodeError _ = None"

definition exchangeToTransport ::
  "'s clientWorld \<Rightarrow> clientConfig \<Rightarrow> int \<Rightarrow> dnsTransport \<Rightarrow> dnsMsg \<Rightarrow> int \<Rightarrow> (dnsError, dnsMsg) result \<times> int" where
  "exchangeToTransport W K now transport message timeout =
     (let (r, now') = cwExchange W now transport (if timeout = 0 then ccTimeout K else timeout) message
      in (case r of
            Inr response \<Rightarrow> Inr (stripDNSPadding response)
          | Inl e \<Rightarrow> (case asRcodeError e of
              Some rcode \<Rightarrow> Inr (FixedResponseStatus message rcode) | None \<Rightarrow> Inl e), now'))"

definition cacheableRcode :: "dnsMsg \<Rightarrow> bool" where
  "cacheableRcode response \<longleftrightarrow> msgRcode response = RcodeSuccess \<or> msgRcode response = RcodeNameError"

definition isRejected :: "responseCheck \<Rightarrow> dnsMsg \<Rightarrow> bool" where
  "isRejected check response = (case check of
     None \<Rightarrow> False | Some ok \<Rightarrow> \<not> cacheableRcode response \<or> \<not> ok response)"

definition backgroundRefreshDNS ::
  "dnsTransport \<Rightarrow> Question \<Rightarrow> dnsMsg \<Rightarrow> DNSQueryOptions \<Rightarrow> responseCheck \<Rightarrow> 's clientState \<Rightarrow> 's clientState" where
  "backgroundRefreshDNS transport question message options check c =
     (let key = (question, trTag transport)
      in if key \<in> set (clRefreshing c) then c
      else c\<lparr>clRefreshing := key # clRefreshing c, clTasks := clTasks c @ [\<lparr>rtTransport = transport,
             rtQuestion = question, rtMessage = message, rtOptions = options, rtChecker = check\<rparr>]\<rparr>)"

text \<open>The goroutine of \<^verbatim>\<open>backgroundRefreshDNS\<close>, run for one task.\<close>

definition refreshDNS ::
  "'s clientWorld \<Rightarrow> clientConfig \<Rightarrow> refreshTask \<Rightarrow> 's clientState \<Rightarrow> 's clientState" where
  "refreshDNS W K t c =
     (let transport = rtTransport t; question = rtQuestion t;
          (r, now') = exchangeToTransport W K (clNow c) transport (rtMessage t) (qoTimeout (rtOptions t));
          c1 = c\<lparr>clNow := now', clTasks := remove1 t (clTasks c),
                 clRefreshing := removeAll (question, trTag transport) (clRefreshing c)\<rparr>
      in case r of
        Inl e \<Rightarrow> c1
      | Inr response \<Rightarrow>
          if isRejected (rtChecker t) response
          then (if ccRDRC K then c1\<lparr>clStore := cwSaveRDRC W (clStore c1) now' (trTag transport) (qName question) (qType question)\<rparr> else c1)
          else if rtChecker t = None \<and> \<not> cacheableRcode response then c1
          else let (response', ttl) = applyResponseOptions question (rtOptions t) response
               in storeCache W K transport question response' ttl c1)"

definition isSimpleRequest :: "dnsMsg \<Rightarrow> DNSQueryOptions \<Rightarrow> bool" where
  "isSimpleRequest message options \<longleftrightarrow> length (msgQuestion message) = 1 \<and> msgNs message = [] \<and>
     (case msgExtra message of
        [] \<Rightarrow> True
      | [r] \<Rightarrow> rrType r = TypeOPT \<and> rrClass r > 0 \<and> rrTtl r = 0 \<and> optOptions (rrData r) = Some []
      | _ \<Rightarrow> False) \<and>
     \<not> prefixIsValid (qoClientSubnet options)"

text \<open>An OPT record that the request does not know about is dropped, or rewritten to a version it knows.\<close>

definition adaptEdns0 :: "'s clientWorld \<Rightarrow> dnsMsg \<Rightarrow> dnsMsg \<Rightarrow> dnsMsg" where
  "adaptEdns0 W request response = (case cwIsEdns0 W response of
     None \<Rightarrow> response
   | Some optRecord \<Rightarrow>
       let stripped = response\<lparr>msgExtra := filter (\<lambda>it. rrType it \<noteq> TypeOPT) (msgExtra response)\<rparr>
       in (case cwIsEdns0 W request of
         None \<Rightarrow> stripped
       | Some ropt \<Rightarrow> if cwVersion W ropt < cwVersion W optRecord then cwSetEdns0 W stripped optRecord else response))"

text \<open>The part of \<^verbatim>\<open>Exchange\<close> that asks the transport.\<close>

definition exchangeUncached ::
  "'s clientWorld \<Rightarrow> clientConfig \<Rightarrow> bool \<Rightarrow> 's clientState \<Rightarrow> string option \<Rightarrow> dnsTransport \<Rightarrow> dnsMsg \<Rightarrow> Question \<Rightarrow>
   DNSQueryOptions \<Rightarrow> responseCheck \<Rightarrow> (dnsMsg option \<times> dnsError option) \<times> 's clientState" where
  "exchangeUncached W K disableCache c tag transport message question options check =
     (if tag = Some (trTag transport)
      then ((None, Some (DErr (ENew (''DNS query loopback in transport['' @ trTag transport @ '']'')))), c)
      else if \<not> disableCache \<and> check \<noteq> None \<and> ccRDRC K \<and>
        cwLoadRDRC W (clStore c) (clNow c) (trTag transport) (qName question) (qType question)
      then ((None, Some DErrResponseRejectedCached), c)
      else
        let (r, now') = exchangeToTransport W K (clNow c) transport message (qoTimeout options);
            c1 = c\<lparr>clNow := now'\<rparr>
        in case r of
          Inl e \<Rightarrow> ((None, Some e), c1)
        | Inr response \<Rightarrow>
            let noCache = disableCache \<or> \<not> cacheableRcode response
            in if isRejected check response
            then ((Some response, Some DErrResponseRejected),
                  if \<not> noCache \<and> ccRDRC K
                  then c1\<lparr>clStore := cwSaveRDRC W (clStore c1) now' (trTag transport) (qName question) (qType question)\<rparr>
                  else c1)
            else
              let (response', ttl) = applyResponseOptions question options response;
                  c2 = (if noCache then c1 else storeCache W K transport question response' ttl c1)
              in ((Some (adaptEdns0 W message (response'\<lparr>msgId := msgId message\<rparr>)), None), c2))"

definition nilDereference :: dnsError where
  "nilDereference = DErr (EPanic ''invalid memory address or nil pointer dereference'')"

definition client_Exchange ::
  "'s clientWorld \<Rightarrow> clientConfig \<Rightarrow> 's clientState \<Rightarrow> string option \<Rightarrow> dnsTransport option \<Rightarrow> dnsMsg \<Rightarrow>
   DNSQueryOptions \<Rightarrow> responseCheck \<Rightarrow> (dnsMsg option \<times> dnsError option) \<times> 's clientState" where
  "client_Exchange W K c tag transport message options check = (case msgQuestion message of
     [] \<Rightarrow> ((Some (FixedResponseStatus message RcodeFormatError), None), c)
   | question # _ \<Rightarrow>
       if qType question = TypeA \<and> qoStrategy options = DomainStrategyIPv6Only \<or>
          qType question = TypeAAAA \<and> qoStrategy options = DomainStrategyIPv4Only
       then ((Some (FixedResponseStatus message RcodeSuccess), None), c)
       else case transport of
         None \<Rightarrow> ((None, Some nilDereference), c)
       | Some tr \<Rightarrow>
           let message' = prepareExchangeMessage K message options;
               disableCache = (\<not> isSimpleRequest message' options \<or> ccDisableCache K \<or> qoDisableCache options)
           in if disableCache then exchangeUncached W K True c tag tr message' question options check
           else if cwLock W (clNow c) (question, trTag tr) = LockCancelled then ((None, Some DContextErr), c)
           else (case loadResponse W K question tr c of
             (Some (response, ttl, isStale), c1) \<Rightarrow>
               if isStale \<and> \<not> qoDisableOptimisticCache options
               then ((Some (response\<lparr>msgId := msgId message'\<rparr>), None),
                     backgroundRefreshDNS tr question message' options check c1)
               else if \<not> isStale then ((Some (response\<lparr>msgId := msgId message'\<rparr>), None), c1)
               else exchangeUncached W K False c1 tag tr message' question options check
           | (None, c1) \<Rightarrow> exchangeUncached W K False c1 tag tr message' question options check))"

section \<open>Lookup\<close>

definition MessageToAddresses :: "dnsEnv \<Rightarrow> dnsMsg \<Rightarrow> addr list" where
  "MessageToAddresses N response = DNSResponseAddresses (deEnv N) (Some response)"

definition addressesOf :: "dnsEnv \<Rightarrow> dnsMsg \<Rightarrow> addr list \<times> dnsError option" where
  "addressesOf N response =
     (if msgRcode response \<noteq> RcodeSuccess then ([], Some (DRcodeError (msgRcode response)))
      else (MessageToAddresses N response, None))"

definition questionCache ::
  "'s clientWorld \<Rightarrow> clientConfig \<Rightarrow> dnsEnv \<Rightarrow> 's clientState \<Rightarrow> dnsTransport \<Rightarrow> dnsMsg \<Rightarrow> DNSQueryOptions \<Rightarrow>
   responseCheck \<Rightarrow> (addr list \<times> dnsError option) \<times> 's clientState" where
  "questionCache W K N c transport message options check =
     (let question = hd (msgQuestion message)
      in case loadResponse W K question transport c of
        (None, c1) \<Rightarrow> (([], Some DErrNotCached), c1)
      | (Some (response, ttl, isStale), c1) \<Rightarrow>
          if isStale \<and> qoDisableOptimisticCache options then (([], Some DErrNotCached), c1)
          else (addressesOf N response,
                if isStale then backgroundRefreshDNS transport question (prepareExchangeMessage K message options) options check c1
                else c1))"

definition lookupToExchange ::
  "'s clientWorld \<Rightarrow> clientConfig \<Rightarrow> dnsEnv \<Rightarrow> 's clientState \<Rightarrow> string option \<Rightarrow> dnsTransport option \<Rightarrow> string \<Rightarrow> uint16 \<Rightarrow>
   DNSQueryOptions \<Rightarrow> responseCheck \<Rightarrow> (addr list \<times> dnsError option) \<times> 's clientState" where
  "lookupToExchange W K N c tag transport name ty options check =
     (let message = \<lparr>msgId = 0, msgResponse = False, msgAuthoritative = False, msgRecursionDesired = True,
            msgRecursionAvailable = False, msgRcode = RcodeSuccess,
            msgQuestion = [\<lparr>qName = name, qType = ty, qClass = ClassINET\<rparr>], msgAnswer = [], msgNs = [], msgExtra = []\<rparr>;
          exchange = (\<lambda>c1. case client_Exchange W K c1 tag transport message options check of
             ((response, Some e), c2) \<Rightarrow> (([], Some e), c2)
           | ((Some response, None), c2) \<Rightarrow> (addressesOf N response, c2)
           | ((None, None), c2) \<Rightarrow> (([], Some nilDereference), c2))
      in if ccDisableCache K \<or> qoDisableCache options then exchange c
      else case transport of
        None \<Rightarrow> if ccDNSCache K \<or> clCache c \<noteq> None then (([], Some nilDereference), c) else exchange c
      | Some tr \<Rightarrow> (case questionCache W K N c tr message options check of
          ((_, Some DErrNotCached), c1) \<Rightarrow> exchange c1
        | r \<Rightarrow> r))"

definition client_Lookup ::
  "'s clientWorld \<Rightarrow> clientConfig \<Rightarrow> dnsEnv \<Rightarrow> 's clientState \<Rightarrow> string option \<Rightarrow> dnsTransport option \<Rightarrow> string \<Rightarrow>
   DNSQueryOptions \<Rightarrow> responseCheck \<Rightarrow> (addr list \<times> dnsError option) \<times> 's clientState" where
  "client_Lookup W K N c tag transport domain options check =
     (let dnsName = deFqdn N (FqdnToDomain N domain);
          strategy = (if qoLookupStrategy options \<noteq> DomainStrategyAsIS then qoLookupStrategy options else qoStrategy options);
          lookupOptions = (if qoLookupStrategy options \<noteq> DomainStrategyAsIS then options\<lparr>qoStrategy := strategy\<rparr> else options)
      in if strategy = DomainStrategyIPv4Only
         then lookupToExchange W K N c tag transport dnsName TypeA lookupOptions check
         else if strategy = DomainStrategyIPv6Only
         then lookupToExchange W K N c tag transport dnsName TypeAAAA lookupOptions check
         else
           let ((response4, err4), c1) = lookupToExchange W K N c tag transport dnsName TypeA lookupOptions check;
               ((response6, err6), c2) = lookupToExchange W K N c1 tag transport dnsName TypeAAAA lookupOptions check
           in if response4 = [] \<and> response6 = [] then (([], groupError [err4, err6]), c2)
              else ((sortAddresses response4 response6 strategy, None), c2))"

text \<open>The client as the DNS router uses it.\<close>

definition clientOf :: "'s clientWorld \<Rightarrow> clientConfig \<Rightarrow> dnsEnv \<Rightarrow> 's clientState clientOps" where
  "clientOf W K N = \<lparr>cExchange = client_Exchange W K, cLookup = client_Lookup W K N, cClearCache = client_ClearCache W K\<rparr>"

end
