(* ===== verification/FakeIPRouting.thy ===== *)
theory FakeIPRouting
  imports RouteCorrect FakeIP
begin

text \<open>The router together with the fake address store: a connection to an address the store has created is
  routed by the domain it stands for.\<close>

text \<open>The store as the router sees it through the transport manager.\<close>

definition fakeStore :: "MemoryStorage Store \<Rightarrow> fakeipStore" where
  "fakeStore s = \<lparr>storeContains = store_Contains s, storeLookup = store_Lookup memoryStorage s\<rparr>"

text \<open>The context after the fake address was replaced.\<close>

definition restored :: "string \<Rightarrow> InboundContext \<Rightarrow> InboundContext" where
  "restored d m = m\<lparr>OriginDestination := Destination m,
     Destination := \<lparr>Addr = NoAddr, Port = Port (Destination m), Fqdn = d\<rparr>, mdFakeIP := True\<rparr>"

lemma prepared_Destination [simp]: "Destination (searchNeighbor R (searchProcessInfo R m)) = Destination m"
proof -
  have "Destination (searchProcessInfo R m) = Destination m"
    by (simp add: searchProcessInfo_def Let_def split: option.split sum.split)
  moreover have "Destination (searchNeighbor R n) = Destination n" for n
    by (simp add: searchNeighbor_def Let_def split: option.split)
  ultimately show ?thesis by simp
qed

text \<open>
  C21: A connection to a fake address is routed by its domain.  When the store gave the address to a domain that
  had none, the rule loop works on the context whose destination is that domain with the original port: with rules
  whose actions end the loop, the first rule that matches this context is selected, and the original address is
  kept as origin destination.
\<close>

theorem fakeip_routed_by_domain:
  assumes "memory.good s" and "storeOk s" and "\<And>b. (v6 \<longleftrightarrow> \<not> Is4 b) \<Longrightarrow> store_Lookup memoryStorage s b \<noteq> Some d"
    and "store_Create memoryStorage d v6 s = (Ok a, s')" and "d \<noteq> []"
    and "fakeIP R = Some (fakeStore s')" and "Addr (Destination m) = a"
    and "\<forall>r \<in> set rules. terminal r"
  shows "mrError (matchRule R rules pre sb inp sr rds m) = None \<and>
    mrSelected (matchRule R rules pre sb inp sr rds m) =
      find (\<lambda>(i, r). fst (rule_Match (ruleEnv R) r (ResetRuleCache
        (setIPVersion R (restored d (searchNeighbor R (searchProcessInfo R m))))))) (enumerate 0 rules)"
proof -
  note created = create_fresh[OF assms(1-4)]
  have "addrIsValid a" using created by (cases a) (auto simp: store_Contains_def prefixContains_def addrIsValid_def
      split: option.splits dest: samePrefix.elims)
  then have "resolveFakeIP R (searchNeighbor R (searchProcessInfo R m)) =
      Ok (restored d (searchNeighbor R (searchProcessInfo R m)))"
    using created assms(5-7) by (simp add: resolveFakeIP_def inFakeRange_def fakeStore_def restored_def)
  then show ?thesis
    using matchLoop_find[OF assms(8), of R pre sb inp 0 "startState (setIPVersion R (restored d (searchNeighbor R (searchProcessInfo R m)))) sr rds"]
    by (auto simp: matchRule_def startState_def split: prod.splits sum.splits)
qed

theorem fakeip_routed_by_domain_witness:
  "mrSelected (matchRule
     (exampleRouter\<lparr>fakeIP := Some (fakeStore (snd (store_Create memoryStorage ''example.org'' False exampleStore)))\<rparr>)
     [allRule (RuleActionRoute ''proxy'' noRouteOptions)] False False StreamInput [] []
     (exampleContext\<lparr>Destination := \<lparr>Addr = IP4 0xC6120002, Port = 443, Fqdn = []\<rparr>\<rparr>)) =
   Some (0, allRule (RuleActionRoute ''proxy'' noRouteOptions))"
  using fakeip_routed_by_domain[OF exampleStore_ok(1,2) _ exampleStore_create, where
      R = "exampleRouter\<lparr>fakeIP := Some (fakeStore (snd (store_Create memoryStorage ''example.org'' False exampleStore)))\<rparr>"
      and rules = "[allRule (RuleActionRoute ''proxy'' noRouteOptions)]"
      and m = "exampleContext\<lparr>Destination := \<lparr>Addr = IP4 0xC6120002, Port = 443, Fqdn = []\<rparr>\<rparr>"] exampleStore_ok(3)
  by (simp add: terminal_def)

end
