(* ===== verification/FakeIPServer.thy ===== *)
theory FakeIPServer
  imports DNSClient FakeIPRouting
begin

text \<open>
  The DNS server that answers with fake addresses (\<^verbatim>\<open>dns/transport/fakeip/fakeip.go\<close>), on top of the store, and what
  its answers are worth: the address in the answer leads back to the domain that was asked for.
\<close>

record 's fakeIPTransport =
  ftStore :: "'s Store"
  ftInet4Enabled :: bool
  ftInet6Enabled :: bool

definition DefaultDNSTTL :: uint32 where "DefaultDNSTTL = 600"

definition fakeIP_NewTransport :: "netprefix \<Rightarrow> netprefix \<Rightarrow> (goerror, 's fakeIPTransport) result" where
  "fakeIP_NewTransport range4 range6 =
     (if \<not> prefixIsValid range4 \<and> \<not> prefixIsValid range6
      then Err (ENew ''at least one of inet4_range or inet6_range must be set'')
      else Ok \<lparr>ftStore = NewStore range4 range6, ftInet4Enabled = prefixIsValid range4, ftInet6Enabled = prefixIsValid range6\<rparr>)"

definition fakeIP_Exchange ::
  "'s storageOps \<Rightarrow> dnsEnv \<Rightarrow> 's fakeIPTransport \<Rightarrow> dnsMsg \<Rightarrow> (goerror, dnsMsg) result \<times> 's fakeIPTransport" where
  "fakeIP_Exchange ops N t message = (case msgQuestion message of
     [] \<Rightarrow> (Err (EPanic ''index out of range''), t)
   | question # _ \<Rightarrow>
       if qType question \<noteq> TypeA \<and> qType question \<noteq> TypeAAAA
       then (Err (ENew ''only IP queries are supported by fakeip''), t)
       else if qType question = TypeA \<and> \<not> ftInet4Enabled t \<or> qType question = TypeAAAA \<and> \<not> ftInet6Enabled t
       then (Ok (FixedResponseStatus message RcodeSuccess), t)
       else (case store_Create ops (FqdnToDomain N (qName question)) (qType question = TypeAAAA) (ftStore t) of
         (Inl e, s) \<Rightarrow> (Err e, t\<lparr>ftStore := s\<rparr>)
       | (Inr address, s) \<Rightarrow> (Ok (FixedResponse (msgId message) question [address] DefaultDNSTTL), t\<lparr>ftStore := s\<rparr>)))"

text \<open>
  The address in the answer to a query for a new domain is the one that the store has created for it, of the
  family that was asked for, and the store finds the domain under it.  Reading an address from its bytes is a
  function of a library; it inverts \<^verbatim>\<open>AsSlice\<close> on the addresses that their bytes determine, and the ranges of the
  store have only such addresses.
\<close>

lemma fakeIP_answer_leads_back:
  assumes "memory.good (ftStore t)" "storeOk (ftStore t)"
    and "\<And>b. (qType question = TypeAAAA \<longleftrightarrow> \<not> Is4 b) \<Longrightarrow>
      store_Lookup memoryStorage (ftStore t) b \<noteq> Some (FqdnToDomain N (qName question))"
    and "msgQuestion message = question # rest" "msgAnswer response \<noteq> []"
    and "fakeIP_Exchange memoryStorage N t message = (Ok response, t')"
    and "\<And>a. plainAddr a \<Longrightarrow> AddrFromIP (deEnv N) (AsSlice a) = a"
    and "\<And>a s. store_Create memoryStorage (FqdnToDomain N (qName question)) (qType question = TypeAAAA) (ftStore t) = (Inr a, s) \<Longrightarrow>
      plainAddr a"
  shows "\<exists>a. MessageToAddresses N response = [a] \<and> (qType question = TypeAAAA \<longleftrightarrow> \<not> Is4 a) \<and>
    store_Lookup memoryStorage (ftStore t') a = Some (FqdnToDomain N (qName question))"
proof -
  have q: "qType question = TypeA \<or> qType question = TypeAAAA"
    and "\<not> (qType question = TypeA \<and> \<not> ftInet4Enabled t \<or> qType question = TypeAAAA \<and> \<not> ftInet6Enabled t)"
    using assms(4-6) by (auto simp: fakeIP_Exchange_def FixedResponseStatus_def fixedHeader_def split: if_splits)
  with assms(4,6) obtain a s where c: "store_Create memoryStorage (FqdnToDomain N (qName question)) (qType question = TypeAAAA) (ftStore t) = (Inr a, s)"
    and r: "response = FixedResponse (msgId message) question [a] DefaultDNSTTL" "t' = t\<lparr>ftStore := s\<rparr>"
    by (auto simp: fakeIP_Exchange_def split: sum.splits prod.splits)
  note created = create_fresh[OF assms(1-3) c]
  from assms(5) r have "msgAnswer response = fixedAddress question DefaultDNSTTL a" "fixedAddress question DefaultDNSTTL a \<noteq> []"
    by (simp_all add: FixedResponse_def)
  then have "MessageToAddresses N response = [a]" "(qType question = TypeAAAA \<longleftrightarrow> \<not> Is4 a)"
    using r(1) q assms(7)[OF assms(8)[OF c]] assms(8)[OF c]
    by (cases a; auto simp: MessageToAddresses_def DNSResponseAddresses_def recordAddresses_def fixedAddress_def
        FixedResponse_def fixedHeader_def RcodeSuccess_def addrIsValid_def TypeA_def TypeAAAA_def split: if_splits)+
  with created r(2) show ?thesis by auto
qed

end
