(* ===== verification/Tracker.thy ===== *)
theory Tracker
  imports RuleItems "HOL-Library.Multiset" "HOL-Library.Signed_Division"
begin

text \<open>
  The traffic tracker of the v2board service (\<^verbatim>\<open>service/v2board/tracker.go\<close>, \<^verbatim>\<open>rate_limit.go\<close>): users, limits and
  traffic counters of a node, the online addresses with the device limit, blocking rules, and the
  snapshot that is reported to the panel.  Counters are shared between the node and open connections, so they
  live in an explicit store of cells.  Counters are 64-bit integers with their wrap-around; the clock
  is an argument.
\<close>

type_synonym int64 = "64 word"

section \<open>Counters\<close>

record userCounter =
  upload :: int64
  download :: int64
  active :: "32 word"

type_synonym cref = nat

record counterStore =
  cells :: "cref \<Rightarrow> userCounter"
  allocated :: cref
  limiters :: nat

definition zeroCounter :: userCounter where
  "zeroCounter = \<lparr>upload = 0, download = 0, active = 0\<rparr>"

definition newCounter :: "counterStore \<Rightarrow> cref \<times> counterStore" where
  "newCounter st = (allocated st,
     st\<lparr>cells := (cells st)(allocated st := zeroCounter), allocated := Suc (allocated st)\<rparr>)"

definition addTraffic :: "cref \<Rightarrow> int64 \<Rightarrow> int64 \<Rightarrow> counterStore \<Rightarrow> counterStore" where
  "addTraffic c up down st = st\<lparr>cells := (cells st)(c :=
     (cells st c)\<lparr>upload := upload (cells st c) + up, download := download (cells st c) + down\<rparr>)\<rparr>"

definition addActive :: "cref \<Rightarrow> 32 word \<Rightarrow> counterStore \<Rightarrow> counterStore" where
  "addActive c k st = st\<lparr>cells := (cells st)(c := (cells st c)\<lparr>active := active (cells st c) + k\<rparr>)\<rparr>"

section \<open>Rate limits\<close>

text \<open>\<^verbatim>\<open>rate.Limiter\<close>: its identity and its burst.\<close>

record rateLimiter =
  limiterId :: nat
  Burst :: int

definition speedLimitBytesPerSecond :: "int \<Rightarrow> int" where
  "speedLimitBytesPerSecond speedLimitMbps =
     (if speedLimitMbps \<le> 0 then 0
      else let bytesPerSecond = sint (word_of_int speedLimitMbps * 1000 * 1000 :: int64) sdiv 8
           in if bytesPerSecond > 2 ^ 63 - 1 then 2 ^ 63 - 1 else bytesPerSecond)"

definition newRateLimiter :: "nat \<Rightarrow> int \<Rightarrow> rateLimiter option" where
  "newRateLimiter i speedLimitMbps =
     (let bytesPerSecond = speedLimitBytesPerSecond speedLimitMbps
      in if bytesPerSecond \<le> 0 then None else Some \<lparr>limiterId = i, Burst = bytesPerSecond\<rparr>)"

text \<open>\<^verbatim>\<open>waitRate\<close>: the chunks for which \<^verbatim>\<open>WaitN\<close> has been called, in reverse, are an argument of the waiting and
  a result.\<close>

function waitRateLoop :: "(int list \<Rightarrow> int \<Rightarrow> goerror option) \<Rightarrow> int \<Rightarrow> int list \<Rightarrow> int \<Rightarrow> goerror option \<times> int list" where
  "waitRateLoop waitN burst waited n =
     (if burst \<le> 0 \<or> n \<le> 0 then (None, waited)
      else let chunk = min n burst
           in case waitN waited chunk of
                Some e \<Rightarrow> (Some e, waited)
              | None \<Rightarrow> waitRateLoop waitN burst (chunk # waited) (n - chunk))"
  by pat_completeness auto

termination waitRateLoop
  by (relation "measure (\<lambda>(_, _, _, n). nat n)") auto

declare waitRateLoop.simps [simp del]

definition waitRate :: "(int list \<Rightarrow> int \<Rightarrow> goerror option) \<Rightarrow> rateLimiter option \<Rightarrow> int \<Rightarrow> goerror option \<times> int list" where
  "waitRate waitN limiter n = (case limiter of
     None \<Rightarrow> (None, [])
   | Some l \<Rightarrow> if n \<le> 0 then (None, []) else waitRateLoop waitN (Burst l) [] n)"

definition mergeRateError :: "goerror option \<Rightarrow> goerror option \<Rightarrow> goerror option" where
  "mergeRateError ioErr rateErr = (if ioErr \<noteq> None then ioErr else rateErr)"

text \<open>The reads and writes of a rate limited connection: the result of the wrapped call, then the wait.\<close>

definition rateLimited ::
  "(int list \<Rightarrow> int \<Rightarrow> goerror option) \<Rightarrow> rateLimiter option \<Rightarrow> int \<times> goerror option \<Rightarrow> int \<times> goerror option" where
  "rateLimited waitN limiter r =
     (let (n, err) = r in (n, if n > 0 then mergeRateError err (fst (waitRate waitN limiter n)) else err))"

section \<open>Users\<close>

record UserInfo =
  uiID :: int
  uiUUID :: string
  uiUsername :: string
  uiLabel :: string
  uiSpeedLimit :: int
  uiDeviceLimit :: int

definition normalizeNodeType :: "string \<Rightarrow> string" where
  "normalizeNodeType nodeType =
     (let t = ToLower (TrimSpace nodeType)
      in if t = ''v2ray'' then ''vmess''
         else if t = ''ss'' then ''shadowsocks''
         else if t \<in> {''naiveproxy'', ''naive_proxy'', ''naive-proxy''} then ''naive''
         else if t = ''deepbwork'' then ''vmess''
         else if t = ''trojan_tidalab'' then ''trojan''
         else if t = ''shadowsocks_tidalab'' then ''shadowsocks''
         else t)"

definition userTrackerKey :: "string \<Rightarrow> UserInfo \<Rightarrow> string" where
  "userTrackerKey nodeType user =
     (if normalizeNodeType nodeType \<in> {''mieru'', ''naive''} \<and> uiUsername user \<noteq> [] then uiUsername user
      else if uiUUID user \<noteq> [] then uiUUID user
      else if uiLabel user \<noteq> [] then uiLabel user
      else if uiID user > 0 then ''user-'' @ intToString (uiID user)
      else [])"

record userLimit =
  speed :: int
  device :: int
  limiter :: "rateLimiter option"

definition noLimit :: userLimit where
  "noLimit = \<lparr>speed = 0, device = 0, limiter = None\<rparr>"

section \<open>Blocking rules\<close>

record nodeRules =
  domainRegex :: "(string \<Rightarrow> bool) list"
  domainSuffix :: "string list"
  domainFull :: "string list"
  domainKeyword :: "string list"
  ipPrefixes :: "netprefix list"
  ipPrivate :: bool
  ports :: "(uint16 \<times> uint16) list"
  protocol :: "string list"

definition noRules :: nodeRules where
  "noRules = \<lparr>domainRegex = [], domainSuffix = [], domainFull = [], domainKeyword = [], ipPrefixes = [],
     ipPrivate = False, ports = [], protocol = []\<rparr>"

text \<open>Parsers and methods of other packages: regular expressions, the textual syntax of addresses, and the methods of
  \<^verbatim>\<open>Socksaddr\<close>.\<close>

record trackerEnv =
  regexpCompile :: "string \<Rightarrow> (goerror, string \<Rightarrow> bool) result"
  ParsePrefix :: "string \<Rightarrow> (goerror, netprefix) result"
  ParseAddr :: "string \<Rightarrow> (goerror, addr) result"
  saUnwrap :: "Socksaddr \<Rightarrow> Socksaddr"
  saAddrString :: "Socksaddr \<Rightarrow> string"
  saIsIPAddr :: "Socksaddr \<Rightarrow> bool"
  addrText :: "addr \<Rightarrow> string"
  saNetwork :: "Socksaddr \<Rightarrow> string"

record ServerRoute =
  srID :: int
  srMatch :: "string list"
  srAction :: string

definition normalizeDomainRuleValue :: "string \<Rightarrow> string" where
  "normalizeDomainRuleValue value = Trim (ToLower (TrimSpace value)) ''.''"

definition addProtocolRule :: "string \<Rightarrow> nodeRules \<Rightarrow> nodeRules" where
  "addProtocolRule item r = (let i = TrimSpace item in if i \<noteq> [] then r\<lparr>protocol := protocol r @ [i]\<rparr> else r)"

definition addKeyword :: "string \<Rightarrow> nodeRules \<Rightarrow> nodeRules" where
  "addKeyword value r = (let k = normalizeDomainRuleValue value
     in if k \<noteq> [] then r\<lparr>domainKeyword := domainKeyword r @ [k]\<rparr> else r)"

definition addDomainBlockRule :: "trackerEnv \<Rightarrow> int \<Rightarrow> string \<Rightarrow> nodeRules \<Rightarrow> (goerror, nodeRules) result" where
  "addDomainBlockRule E routeID item0 r =
     (let item = TrimSpace item0 in
      if item = [] then Ok r
      else case CutPrefix item ''protocol:'' of Some p \<Rightarrow> Ok (addProtocolRule p r)
      | None \<Rightarrow> (case CutPrefix item ''regexp:'' of
          Some pattern0 \<Rightarrow>
            (let pattern = TrimSpace pattern0 in
             if pattern = [] then Ok r
             else bindR (withCause (''v2board route '' @ intToString routeID @ '': compile regexp'') (regexpCompile E pattern))
                    (\<lambda>matcher. Ok (r\<lparr>domainRegex := domainRegex r @ [matcher]\<rparr>)))
      | None \<Rightarrow> (case CutPrefix item ''domain:'' of
          Some d0 \<Rightarrow> (let d = normalizeDomainRuleValue d0
                     in Ok (if d \<noteq> [] then r\<lparr>domainSuffix := domainSuffix r @ [d]\<rparr> else r))
      | None \<Rightarrow> (case CutPrefix item ''full:'' of
          Some d0 \<Rightarrow> (let d = normalizeDomainRuleValue d0
                     in Ok (if d \<noteq> [] then r\<lparr>domainFull := domainFull r @ [d]\<rparr> else r))
      | None \<Rightarrow> (case CutPrefix item ''keyword:'' of
          Some k \<Rightarrow> Ok (addKeyword k r)
      | None \<Rightarrow> (case CutPrefix item ''geosite:'' of
          Some _ \<Rightarrow> Ok r
      | None \<Rightarrow> Ok (addKeyword item r)))))))"

definition addIPBlockRule :: "trackerEnv \<Rightarrow> int \<Rightarrow> string \<Rightarrow> nodeRules \<Rightarrow> (goerror, nodeRules) result" where
  "addIPBlockRule E routeID item0 r =
     (let item = TrimSpace item0 in
      if item = [] then Ok r
      else case CutPrefix (ToLower item) ''geoip:'' of
        Some code \<Rightarrow> Ok (if code = ''private'' then r\<lparr>ipPrivate := True\<rparr> else r)
      | None \<Rightarrow> (case ParsePrefix E item of
          Inr prefix \<Rightarrow> Ok (r\<lparr>ipPrefixes := ipPrefixes r @ [prefix]\<rparr>)
        | Inl _ \<Rightarrow>
            bindR (withCause (''v2board route '' @ intToString routeID @ '': parse ip/cidr'') (ParseAddr E item))
              (\<lambda>a. Ok (r\<lparr>ipPrefixes := ipPrefixes r @ [PrefixFrom a (BitLen a)]\<rparr>))))"

definition parseRulePort :: "string \<Rightarrow> (goerror, uint16) result" where
  "parseRulePort value =
     (if value = [] then Err (ENew ''empty port'')
      else case ParseUint value 16 of
        None \<Rightarrow> Err (EOther ''strconv.ParseUint'')
      | Some port \<Rightarrow> if port = 0 then Err (ENew ''port must be greater than zero'') else Ok (of_nat port))"

definition addPortBlockRule :: "int \<Rightarrow> string \<Rightarrow> nodeRules \<Rightarrow> (goerror, nodeRules) result" where
  "addPortBlockRule routeID item0 r =
     (let item = TrimSpace item0; label = ''v2board route '' @ intToString routeID @ '': parse port'' in
      if item = [] then Ok r
      else
        let (startText, endText) = (case IndexAny item ''-:'' of
              Some i \<Rightarrow> (TrimSpace (take i item), TrimSpace (drop (Suc i) item))
            | None \<Rightarrow> (item, item))
        in bindR (withCause label (parseRulePort startText)) (\<lambda>start.
           bindR (withCause label (parseRulePort endText)) (\<lambda>end.
             if start > end then Err (ENew (''v2board route '' @ intToString routeID @ '': invalid port range''))
             else Ok (r\<lparr>ports := ports r @ [(start, end)]\<rparr>))))"

fun foldR :: "('a \<Rightarrow> 'b \<Rightarrow> (goerror, 'b) result) \<Rightarrow> 'a list \<Rightarrow> 'b \<Rightarrow> (goerror, 'b) result" where
  "foldR f [] b = Ok b"
| "foldR f (x # xs) b = bindR (f x b) (foldR f xs)"

definition addRoute :: "trackerEnv \<Rightarrow> ServerRoute \<Rightarrow> nodeRules \<Rightarrow> (goerror, nodeRules) result" where
  "addRoute E route r =
     (let action = ToLower (TrimSpace (srAction route)) in
      if action = ''block'' then foldR (addDomainBlockRule E (srID route)) (srMatch route) r
      else if action = ''block_ip'' then foldR (addIPBlockRule E (srID route)) (srMatch route) r
      else if action = ''block_port'' then foldR (addPortBlockRule (srID route)) (srMatch route) r
      else if action = ''protocol'' then Ok (fold addProtocolRule (srMatch route) r)
      else Ok r)"

definition buildNodeRules :: "trackerEnv \<Rightarrow> ServerRoute list \<Rightarrow> (goerror, nodeRules) result" where
  "buildNodeRules E routes = foldR (addRoute E) routes noRules"

definition nodeRules_blocks :: "trackerEnv \<Rightarrow> nodeRules \<Rightarrow> Socksaddr \<Rightarrow> string \<Rightarrow> bool" where
  "nodeRules_blocks E r destination0 proto =
     (let destination = saUnwrap E destination0;
          domain = normalizeDomainRuleValue (saAddrString E destination)
      in if list_ex (\<lambda>matcher. matcher domain) (domainRegex r) then True
         else if domain \<in> set (domainFull r) then True
         else if list_ex (\<lambda>suffix. domain = suffix \<or> HasSuffix domain (''.'' @ suffix)) (domainSuffix r) then True
         else if list_ex (\<lambda>keyword. Contains domain keyword) (domainKeyword r) then True
         else if saIsIPAddr E destination \<and> list_ex (\<lambda>p. prefixContains p (Addr destination)) (ipPrefixes r) then True
         else if saIsIPAddr E destination \<and> ipPrivate r \<and> IsPrivate (Addr destination) then True
         else if list_ex (\<lambda>(start, end). Port destination \<ge> start \<and> Port destination \<le> end) (ports r) then True
         else if proto = [] then False
         else TrimSpace proto \<in> set (protocol r))"

section \<open>The state of a node\<close>

text \<open>
  \<^verbatim>\<open>nodeTraffic\<close>.  Every operation holds the node's mutex for its whole body, so each is one atomic step.
  A set of strings is a list without duplicates; the zero time is \<^term>\<open>None\<close>.
\<close>

record nodeTraffic =
  nodeID :: int
  users :: "(string, int) gomap"
  limits :: "(string, userLimit) gomap"
  counters :: "(string, cref) gomap"
  pending :: "(int, cref list) gomap"
  online :: "(string, string list) gomap"
  previous :: "(string, string list) gomap"
  alive :: "(int, int) gomap"
  aliveAt :: "int option"
  aliveTTL :: int
  rules :: nodeRules

definition emptyNode :: nodeTraffic where
  "emptyNode = \<lparr>nodeID = 0, users = [], limits = [], counters = [], pending = [], online = [], previous = [],
     alive = [], aliveAt = None, aliveTTL = 0, rules = noRules\<rparr>"

definition defaultAliveListTTL :: int where
  "defaultAliveListTTL = 60 * 10 ^ 9"

definition maxRestoredAliveIPsPerUser :: nat where
  "maxRestoredAliveIPsPerUser = 256"

definition normalizeAliveListTTL :: "int \<Rightarrow> int" where
  "normalizeAliveListTTL ttl = (if ttl \<le> 0 then defaultAliveListTTL else ttl)"

text \<open>\<^verbatim>\<open>time.Time.Sub\<close> saturates at the range of a duration.\<close>

definition timeSub :: "int \<Rightarrow> int \<Rightarrow> int" where
  "timeSub t u = max (- (2 ^ 63)) (min (2 ^ 63 - 1) (t - u))"

definition aliveListFresh :: "nodeTraffic \<Rightarrow> int \<Rightarrow> bool" where
  "aliveListFresh n now = (case aliveAt n of
     None \<Rightarrow> False
   | Some t \<Rightarrow> timeSub now t \<le> normalizeAliveListTTL (aliveTTL n))"

subsection \<open>Updating users\<close>

definition appendPendingCounter :: "(int, cref list) gomap \<Rightarrow> int \<Rightarrow> cref \<Rightarrow> (int, cref list) gomap" where
  "appendPendingCounter values uid counter =
     (if uid \<le> 0 then values else AList.update uid (getd [] values uid @ [counter]) values)"

definition clonePendingCounters :: "(int, cref list) gomap \<Rightarrow> (int, cref list) gomap" where
  "clonePendingCounters values = filter (\<lambda>(uid, cs). cs \<noteq> []) values"

definition updatedUserLimit :: "nodeTraffic \<Rightarrow> string \<Rightarrow> UserInfo \<Rightarrow> counterStore \<Rightarrow> userLimit \<times> counterStore" where
  "updatedUserLimit n key user st =
     (let nextLimit = \<lparr>speed = uiSpeedLimit user, device = uiDeviceLimit user, limiter = None\<rparr>;
          existing = getd noLimit (limits n) key
      in if uiSpeedLimit user \<le> 0 then (nextLimit, st)
         else if speed existing = uiSpeedLimit user \<and> limiter existing \<noteq> None
           then (nextLimit\<lparr>limiter := limiter existing\<rparr>, st)
         else (nextLimit\<lparr>limiter := newRateLimiter (limiters st) (uiSpeedLimit user)\<rparr>,
               st\<lparr>limiters := Suc (limiters st)\<rparr>))"

text \<open>The counter of a user: the existing one when the key still belongs to the same user, else a new one,
  with the existing one kept as pending for the user it belonged to.\<close>

definition carryCounter :: "nodeTraffic \<Rightarrow> string \<Rightarrow> int \<Rightarrow> nodeTraffic \<times> counterStore \<Rightarrow> nodeTraffic \<times> counterStore" where
  "carryCounter n key uid s =
     (let (next, st) = s; (fresh, st') = newCounter st in
      case map_of (counters n) key of
        Some existing \<Rightarrow>
          if getd 0 (users n) key = uid then (next\<lparr>counters := AList.update key existing (counters next)\<rparr>, st)
          else (next\<lparr>pending := appendPendingCounter (pending next) (getd 0 (users n) key) existing,
                     counters := AList.update key fresh (counters next)\<rparr>, st')
      | None \<Rightarrow> (next\<lparr>counters := AList.update key fresh (counters next)\<rparr>, st'))"

definition carrySet :: "bool \<Rightarrow> (string, string list) gomap \<Rightarrow> string \<Rightarrow> (string, string list) gomap \<Rightarrow> (string, string list) gomap" where
  "carrySet sameUser old key next = (case map_of old key of
     Some existing \<Rightarrow> if sameUser then AList.update key existing next else next
   | None \<Rightarrow> next)"

definition updateUser :: "string \<Rightarrow> nodeTraffic \<Rightarrow> UserInfo \<Rightarrow> nodeTraffic \<times> counterStore \<Rightarrow> nodeTraffic \<times> counterStore" where
  "updateUser nodeType n user s =
     (let key = userTrackerKey nodeType user; sameUser = (getd 0 (users n) key = uiID user) in
      if key = [] then s
      else let (next, st) = carryCounter n key (uiID user) s;
               (limit, st') = updatedUserLimit n key user st
           in (next\<lparr>users := AList.update key (uiID user) (users next),
                    online := carrySet sameUser (online n) key (online next),
                    previous := carrySet sameUser (previous n) key (previous next),
                    limits := AList.update key limit (limits next)\<rparr>, st'))"

definition retireCounter :: "nodeTraffic \<Rightarrow> string \<times> cref \<Rightarrow> nodeTraffic \<Rightarrow> nodeTraffic" where
  "retireCounter n = (\<lambda>(key, counter) next.
     if map_of (counters next) key \<noteq> None then next
     else next\<lparr>pending := appendPendingCounter (pending next) (getd 0 (users n) key) counter\<rparr>)"

definition updateUsersWithAliveStateForNodeType ::
  "string \<Rightarrow> int \<Rightarrow> UserInfo list \<Rightarrow> (int, int) gomap \<Rightarrow> int option \<Rightarrow> int \<Rightarrow> nodeRules
   \<Rightarrow> nodeTraffic \<times> counterStore \<Rightarrow> nodeTraffic \<times> counterStore" where
  "updateUsersWithAliveStateForNodeType nodeType i us al at ttl rs s =
     (let (n, st) = s;
          start = \<lparr>nodeID = i, users = [], limits = [], counters = [], pending = clonePendingCounters (pending n),
                   online = [], previous = [], alive = al, aliveAt = at,
                   aliveTTL = normalizeAliveListTTL ttl, rules = rs\<rparr>;
          (next, st') = fold (updateUser nodeType n) us (start, st)
      in (fold (retireCounter n) (counters n) next, st'))"

definition updateAliveListWithState :: "(int, int) gomap \<Rightarrow> int option \<Rightarrow> int \<Rightarrow> nodeTraffic \<Rightarrow> nodeTraffic" where
  "updateAliveListWithState al at ttl n = n\<lparr>alive := al, aliveAt := at, aliveTTL := normalizeAliveListTTL ttl\<rparr>"

definition node_counter :: "nodeTraffic \<Rightarrow> string \<Rightarrow> cref option" where
  "node_counter n user = (case map_of (users n) user of None \<Rightarrow> None | Some _ \<Rightarrow> map_of (counters n) user)"

definition speedLimiter :: "nodeTraffic \<Rightarrow> string \<Rightarrow> rateLimiter option" where
  "speedLimiter n user = limiter (getd noLimit (limits n) user)"

subsection \<open>Online addresses\<close>

text \<open>The entry that a one-step \<^verbatim>\<open>range\<close> loop over a non-empty map visits is left open by the language: \<^verbatim>\<open>pick\<close>
  picks its position.\<close>

definition addOnlineIPWithLimit :: "(string list \<Rightarrow> nat) \<Rightarrow> string list \<Rightarrow> string \<Rightarrow> nat \<Rightarrow> string list" where
  "addOnlineIPWithLimit pick ips ip limit =
     (if limit = 0 then List.insert ip ips
      else if ip \<notin> set ips \<and> length ips \<ge> limit
        then List.insert ip (remove1 (ips ! (pick ips mod length ips)) ips)
      else List.insert ip ips)"

definition exceedsDeviceLimitLocked :: "nodeTraffic \<Rightarrow> int \<Rightarrow> string \<Rightarrow> int \<Rightarrow> string \<Rightarrow> bool" where
  "exceedsDeviceLimitLocked n now user uid ip =
     (let limit = device (getd noLimit (limits n) user);
          current = getd [] (online n) user; before = getd [] (previous n) user;
          localNew = length (filter (\<lambda>i. i \<notin> set before) current);
          remoteAlive = (if aliveListFresh n now then getd 0 (alive n) uid else 0)
      in if limit \<le> 0 then False
         else if ip \<in> set current then False
         else if ip \<in> set before then False
         else remoteAlive + int localNew \<ge> limit)"

definition markOnline :: "(string list \<Rightarrow> nat) \<Rightarrow> int \<Rightarrow> string \<Rightarrow> string \<Rightarrow> nodeTraffic \<Rightarrow> bool \<times> nodeTraffic" where
  "markOnline pick now user ip n =
     (if ip = [] \<or> ip = ''<invalid IP>'' then (True, n)
      else case map_of (users n) user of
        None \<Rightarrow> (False, n)
      | Some uid \<Rightarrow>
          if exceedsDeviceLimitLocked n now user uid ip then (False, n)
          else (True, n\<lparr>online := AList.update user
                  (addOnlineIPWithLimit pick (getd [] (online n) user) ip maxRestoredAliveIPsPerUser) (online n)\<rparr>))"

definition restoredIP :: "string \<Rightarrow> string" where
  "restoredIP value = (case LastIndexByte value (CHR ''_'') of
     Some index \<Rightarrow> if index > 0 then take index value else value
   | None \<Rightarrow> value)"

definition restoreAliveOf :: "(string list \<Rightarrow> nat) \<Rightarrow> int \<times> string list \<Rightarrow> nodeTraffic \<Rightarrow> nodeTraffic" where
  "restoreAliveOf pick = (\<lambda>(uid, values) n.
     case find (\<lambda>(user, userID). userID = uid) (users n) of
       None \<Rightarrow> n
     | Some (user, _) \<Rightarrow> n\<lparr>online := AList.update user
         (fold (\<lambda>value ips. let ip = restoredIP value
                  in if ip \<noteq> [] then addOnlineIPWithLimit pick ips ip maxRestoredAliveIPsPerUser else ips)
            values (getd [] (online n) user)) (online n)\<rparr>)"

definition restoreAlive :: "(string list \<Rightarrow> nat) \<Rightarrow> (int, string list) gomap \<Rightarrow> nodeTraffic \<Rightarrow> nodeTraffic" where
  "restoreAlive pick al n = fold (restoreAliveOf pick) al n"

subsection \<open>Snapshots\<close>

record trafficTotal =
  totalUpload :: int64
  totalDownload :: int64

record UserTraffic =
  UID :: int
  Upload :: int64
  Download :: int64

definition noTotal :: trafficTotal where
  "noTotal = \<lparr>totalUpload = 0, totalDownload = 0\<rparr>"

type_synonym totals = "(int, trafficTotal) gomap"

definition addCounterSnapshot :: "int \<Rightarrow> cref \<Rightarrow> totals \<times> counterStore \<Rightarrow> (int64 \<times> int64) \<times> totals \<times> counterStore" where
  "addCounterSnapshot uid c s =
     (let (tot, st) = s; up = upload (cells st c); down = download (cells st c); tt = getd noTotal tot uid in
      if uid \<le> 0 then ((0, 0), tot, st)
      else ((up, down),
            AList.update uid \<lparr>totalUpload = totalUpload tt + up, totalDownload = totalDownload tt + down\<rparr> tot,
            st\<lparr>cells := (cells st)(c := (cells st c)\<lparr>upload := 0, download := 0\<rparr>)\<rparr>))"

definition isActive :: "counterStore \<Rightarrow> cref \<Rightarrow> bool" where
  "isActive st c \<longleftrightarrow> sint (active (cells st c)) > 0"

definition snapshotPending :: "int \<times> cref list \<Rightarrow> (int, cref list) gomap \<times> totals \<times> counterStore \<Rightarrow> (int, cref list) gomap \<times> totals \<times> counterStore" where
  "snapshotPending = (\<lambda>(uid, cs) (pend, s).
     let (tot, st) = fold (\<lambda>c s. snd (addCounterSnapshot uid c s)) cs s; remaining = filter (isActive st) cs
     in (if remaining \<noteq> [] then AList.update uid remaining pend else AList.delete uid pend, tot, st))"

record snapshotState =
  ssAlive :: "(int, string list) gomap"
  ssPrevious :: "(string, string list) gomap"
  ssOnline :: "(string, string list) gomap"
  ssTotals :: totals
  ssStore :: counterStore

definition snapshotCounter :: "nodeTraffic \<Rightarrow> int \<Rightarrow> string \<times> cref \<Rightarrow> snapshotState \<Rightarrow> snapshotState" where
  "snapshotCounter n onlineMin = (\<lambda>(user, c) s.
     case map_of (users n) user of
       None \<Rightarrow> s
     | Some uid \<Rightarrow>
         let ((up, down), tot, st) = addCounterSnapshot uid c (ssTotals s, ssStore s);
             ips = getd [] (ssOnline s) user
         in s\<lparr>ssAlive := (if sint (up + down) \<ge> onlineMin \<and> ips \<noteq> []
                then AList.update uid (getd [] (ssAlive s) uid @ map (\<lambda>ip. ip @ ''_'' @ intToString (nodeID n)) ips) (ssAlive s)
                else ssAlive s),
              ssPrevious := (if ips \<noteq> [] then AList.update user ips (ssPrevious s) else ssPrevious s),
              ssOnline := AList.delete user (ssOnline s),
              ssTotals := tot, ssStore := st\<rparr>)"

definition reportable :: "int \<Rightarrow> trafficTotal \<Rightarrow> bool" where
  "reportable trafficMin tt =
     (let amount = sint (totalUpload tt + totalDownload tt) in amount \<ge> trafficMin \<and> amount > 0)"

definition snapshot ::
  "int \<Rightarrow> int \<Rightarrow> nodeTraffic \<times> counterStore
   \<Rightarrow> (UserTraffic list \<times> (int, string list) gomap) \<times> nodeTraffic \<times> counterStore" where
  "snapshot trafficMin onlineMin s =
     (let (n, st) = s;
          (pend, tot, st1) = fold snapshotPending (pending n) (pending n, [], st);
          e = fold (snapshotCounter n onlineMin) (counters n)
                \<lparr>ssAlive = [], ssPrevious = [], ssOnline = online n, ssTotals = tot, ssStore = st1\<rparr>;
          traffic = map (\<lambda>(uid, tt). \<lparr>UID = uid, Upload = totalUpload tt, Download = totalDownload tt\<rparr>)
                      (filter (\<lambda>(uid, tt). reportable trafficMin tt) (ssTotals e))
      in ((traffic, ssAlive e),
          n\<lparr>pending := pend, previous := ssPrevious e, online := ssOnline e\<rparr>, ssStore e))"

definition counterForUIDLocked :: "int \<Rightarrow> nodeTraffic \<times> counterStore \<Rightarrow> cref option \<times> nodeTraffic \<times> counterStore" where
  "counterForUIDLocked uid s =
     (let (n, st) = s in
      if uid \<le> 0 then (None, n, st)
      else case find (\<lambda>(user, userID). userID = uid \<and> map_of (counters n) user \<noteq> None) (users n) of
        Some (user, _) \<Rightarrow> (map_of (counters n) user, n, st)
      | None \<Rightarrow> (case getd [] (pending n) uid of
          c # _ \<Rightarrow> (Some c, n, st)
        | [] \<Rightarrow> let (c, st') = newCounter st
                in (Some c, n\<lparr>pending := appendPendingCounter (pending n) uid c\<rparr>, st')))"

definition restoreEntry :: "UserTraffic \<Rightarrow> nodeTraffic \<times> counterStore \<Rightarrow> nodeTraffic \<times> counterStore" where
  "restoreEntry entry s =
     (case counterForUIDLocked (UID entry) s of
        (None, n, st) \<Rightarrow> (n, st)
      | (Some c, n, st) \<Rightarrow> (n, addTraffic c (Upload entry) (Download entry) st))"

definition restoreTraffic :: "UserTraffic list \<Rightarrow> nodeTraffic \<times> counterStore \<Rightarrow> nodeTraffic \<times> counterStore" where
  "restoreTraffic traffic s = fold restoreEntry traffic s"

section \<open>The tracker\<close>

text \<open>The nodes by inbound tag, with the store that the counters live in.\<close>

record TrafficTracker =
  nodes :: "(string, nodeTraffic) gomap"
  store :: counterStore

definition onNode :: "string \<Rightarrow> (nodeTraffic \<times> counterStore \<Rightarrow> nodeTraffic \<times> counterStore) \<Rightarrow> TrafficTracker \<Rightarrow> TrafficTracker" where
  "onNode tag f t = (case map_of (nodes t) tag of
     None \<Rightarrow> t
   | Some n \<Rightarrow> (let (n', st) = f (n, store t) in \<lparr>nodes = AList.update tag n' (nodes t), store = st\<rparr>))"

definition updateNode ::
  "string \<Rightarrow> string \<Rightarrow> int \<Rightarrow> UserInfo list \<Rightarrow> (int, int) gomap \<Rightarrow> int option \<Rightarrow> int \<Rightarrow> nodeRules \<Rightarrow> TrafficTracker \<Rightarrow> TrafficTracker" where
  "updateNode tag nodeType i us al at ttl rs t =
     (let n = getd emptyNode (nodes t) tag;
          (n', st) = updateUsersWithAliveStateForNodeType nodeType i us al at ttl rs (n, store t)
      in \<lparr>nodes = AList.update tag n' (nodes t), store = st\<rparr>)"

definition updateAliveList :: "string \<Rightarrow> (int, int) gomap \<Rightarrow> int option \<Rightarrow> int \<Rightarrow> TrafficTracker \<Rightarrow> TrafficTracker" where
  "updateAliveList tag al at ttl t = onNode tag (map_prod (updateAliveListWithState al at ttl) id) t"

definition DeleteNode :: "string \<Rightarrow> TrafficTracker \<Rightarrow> TrafficTracker" where
  "DeleteNode tag t = t\<lparr>nodes := AList.delete tag (nodes t)\<rparr>"

definition Snapshot :: "string \<Rightarrow> int \<Rightarrow> int \<Rightarrow> TrafficTracker \<Rightarrow> (UserTraffic list \<times> (int, string list) gomap) \<times> TrafficTracker" where
  "Snapshot tag trafficMin onlineMin t = (case map_of (nodes t) tag of
     None \<Rightarrow> (([], []), t)
   | Some n \<Rightarrow> (let (r, n', st) = snapshot trafficMin onlineMin (n, store t)
               in (r, \<lparr>nodes = AList.update tag n' (nodes t), store = st\<rparr>)))"

definition RestoreTraffic :: "string \<Rightarrow> UserTraffic list \<Rightarrow> TrafficTracker \<Rightarrow> TrafficTracker" where
  "RestoreTraffic tag traffic t = (if traffic = [] then t else onNode tag (restoreTraffic traffic) t)"

definition RestoreAlive :: "(string list \<Rightarrow> nat) \<Rightarrow> string \<Rightarrow> (int, string list) gomap \<Rightarrow> TrafficTracker \<Rightarrow> TrafficTracker" where
  "RestoreAlive pick tag al t = (if al = [] then t else onNode tag (map_prod (restoreAlive pick al) id) t)"

definition tracker_match :: "TrafficTracker \<Rightarrow> InboundContext \<Rightarrow> (nodeTraffic \<times> cref) option" where
  "tracker_match t md =
     (if Inbound md = [] \<or> User md = [] then None
      else case map_of (nodes t) (Inbound md) of
        None \<Rightarrow> None
      | Some n \<Rightarrow> map_option (Pair n) (node_counter n (User md)))"

text \<open>What becomes of a routed connection: passed through untracked, closed, or counted by a counter and
  possibly rate limited.\<close>

datatype tracked = Untracked | Closed | Tracked cref "rateLimiter option"

definition admit ::
  "trackerEnv \<Rightarrow> (string list \<Rightarrow> nat) \<Rightarrow> int \<Rightarrow> InboundContext \<Rightarrow> string \<Rightarrow> cref \<Rightarrow> nodeTraffic \<times> counterStore
   \<Rightarrow> tracked \<times> nodeTraffic \<times> counterStore" where
  "admit E pick now md proto c s =
     (let (n, st) = s in
      if nodeRules_blocks E (rules n) (Destination md) proto then (Closed, n, st)
      else let (ok, n') = markOnline pick now (User md) (addrText E (Addr (Source md))) n
           in if \<not> ok then (Closed, n', st)
              else (Tracked c (speedLimiter n' (User md)), n', addActive c 1 st))"

definition routed ::
  "trackerEnv \<Rightarrow> (string list \<Rightarrow> nat) \<Rightarrow> int \<Rightarrow> string \<Rightarrow> InboundContext \<Rightarrow> TrafficTracker \<Rightarrow> tracked \<times> TrafficTracker" where
  "routed E pick now proto md t = (case tracker_match t md of
     None \<Rightarrow> (Untracked, t)
   | Some (n, c) \<Rightarrow>
       (let (r, n', st) = admit E pick now md proto c (n, store t)
        in (r, \<lparr>nodes = AList.update (Inbound md) n' (nodes t), store = st\<rparr>)))"

definition RoutedConnection where
  "RoutedConnection E pick now md t = routed E pick now (Protocol md) md t"

definition RoutedPacketConnection where
  "RoutedPacketConnection E pick now md t =
     routed E pick now (if Protocol md = [] then saNetwork E (Destination md) else Protocol md) md t"

text \<open>Closing a tracked connection; \<^verbatim>\<open>sync.Once\<close> is the flag that it has been closed before.\<close>

definition trackedConn_Close :: "cref \<times> bool \<Rightarrow> counterStore \<Rightarrow> (cref \<times> bool) \<times> counterStore" where
  "trackedConn_Close = (\<lambda>(c, once) st. ((c, True), if once then st else addActive c (- 1) st))"


section \<open>The registry of trackers\<close>

text \<open>
  One tracker per router, shared by the services of that router and counted by references.  Routers are named by their
  key, trackers by a number; the state has the registry and the tracker list of every router.
\<close>

type_synonym trackerId = nat

record trackerRegistry =
  trackers :: "(nat, trackerId \<times> int) gomap"
  routerTrackers :: "nat \<Rightarrow> trackerId list"
  nextTracker :: trackerId

definition AppendTracker :: "nat \<Rightarrow> trackerId \<Rightarrow> trackerRegistry \<Rightarrow> trackerRegistry" where
  "AppendTracker key tracker g = g\<lparr>routerTrackers := (routerTrackers g)(key := routerTrackers g key @ [tracker])\<rparr>"

definition RemoveTracker :: "nat \<Rightarrow> trackerId \<Rightarrow> trackerRegistry \<Rightarrow> trackerRegistry" where
  "RemoveTracker key tracker g = g\<lparr>routerTrackers := (routerTrackers g)(key := remove1 tracker (routerTrackers g key))\<rparr>"

definition retainTrafficTracker :: "nat \<Rightarrow> trackerRegistry \<Rightarrow> trackerId \<times> trackerRegistry" where
  "retainTrafficTracker key g = (case map_of (trackers g) key of
     Some (tracker, refs) \<Rightarrow> (tracker, g\<lparr>trackers := AList.update key (tracker, refs + 1) (trackers g)\<rparr>)
   | None \<Rightarrow>
       (let tracker = nextTracker g in
        (tracker, AppendTracker key tracker
           (g\<lparr>trackers := AList.update key (tracker, 1) (trackers g), nextTracker := Suc tracker\<rparr>))))"

definition releaseTrafficTracker :: "nat \<Rightarrow> trackerId option \<Rightarrow> trackerRegistry \<Rightarrow> trackerRegistry" where
  "releaseTrafficTracker key tracker g = (case tracker of
     None \<Rightarrow> g
   | Some t \<Rightarrow> (case map_of (trackers g) key of
       None \<Rightarrow> g
     | Some (existing, refs) \<Rightarrow>
         if existing \<noteq> t then g
         else if refs - 1 > 0 then g\<lparr>trackers := AList.update key (t, refs - 1) (trackers g)\<rparr>
         else RemoveTracker key t (g\<lparr>trackers := AList.delete key (trackers g)\<rparr>)))"

text \<open>A registered tracker is referenced and in the list of its router exactly once, any other tracker of the registry
  nowhere.\<close>

definition registryOk :: "trackerRegistry \<Rightarrow> bool" where
  "registryOk g \<longleftrightarrow> (\<forall>key t. count_list (routerTrackers g key) t > 0 \<longrightarrow> t < nextTracker g)
     \<and> (\<forall>key t refs. map_of (trackers g) key = Some (t, refs) \<longrightarrow>
          refs > 0 \<and> t < nextTracker g \<and> count_list (routerTrackers g key) t = 1)"

lemma count_list_remove1: "count_list (remove1 x xs) y = count_list xs y - (if x = y then 1 else 0)"
  by (induction xs) auto

lemma registryOk_retain: "registryOk g \<Longrightarrow> registryOk (snd (retainTrafficTracker key g))"
  by (auto simp: registryOk_def retainTrafficTracker_def AppendTracker_def Let_def less_Suc_eq intro: less_imp_le split: option.split if_splits)

lemma registryOk_release: "registryOk g \<Longrightarrow> registryOk (releaseTrafficTracker key tracker g)"
  by (auto simp: registryOk_def releaseTrafficTracker_def RemoveTracker_def count_list_remove1 split: option.split if_splits)

lemma release_retain:
  assumes "registryOk g" "map_of (trackers g) key = None" "retainTrafficTracker key g = (t, g')"
  shows "count_list (routerTrackers g' key) t = 1"
    and "count_list (routerTrackers (releaseTrafficTracker key (Some t) g') key) t = 0"
    and "map_of (trackers (releaseTrafficTracker key (Some t) g')) key = None"
proof -
  have fresh: "count_list (routerTrackers g key) (nextTracker g) = 0"
    using assms(1) unfolding registryOk_def by blast
  have t: "t = nextTracker g" "g' = AppendTracker key t (g\<lparr>trackers := AList.update key (t, 1) (trackers g), nextTracker := Suc t\<rparr>)"
    using assms(2,3) by (auto simp: retainTrafficTracker_def Let_def)
  show "count_list (routerTrackers g' key) t = 1" using fresh by (simp add: t AppendTracker_def)
  show "count_list (routerTrackers (releaseTrafficTracker key (Some t) g') key) t = 0"
    "map_of (trackers (releaseTrafficTracker key (Some t) g')) key = None"
    using fresh by (simp_all add: t AppendTracker_def RemoveTracker_def releaseTrafficTracker_def count_list_remove1)
qed

end
