(* ===== verification/TrackerCorrect.thy ===== *)
theory TrackerCorrect
  imports Tracker
begin

text \<open>
  Correctness of the traffic tracker: the traffic that is outstanding for a user of the panel, what each operation
  does to it, and the conservation of traffic over every sequence of operations.
\<close>

section \<open>Outstanding traffic\<close>

datatype direction = Up | Down

fun bytesOf :: "direction \<Rightarrow> userCounter \<Rightarrow> int64" where
  "bytesOf Up c = upload c"
| "bytesOf Down c = download c"

fun entryBytes :: "direction \<Rightarrow> UserTraffic \<Rightarrow> int64" where
  "entryBytes Up e = Upload e"
| "entryBytes Down e = Download e"

fun totalBytes :: "direction \<Rightarrow> trafficTotal \<Rightarrow> int64" where
  "totalBytes Up t = totalUpload t"
| "totalBytes Down t = totalDownload t"

text \<open>The counters whose traffic will be reported for a user: the current ones and the pending ones.\<close>

definition current :: "nodeTraffic \<Rightarrow> int \<Rightarrow> cref set" where
  "current n uid = {c. \<exists>user. map_of (users n) user = Some uid \<and> map_of (counters n) user = Some c}"

definition owned :: "nodeTraffic \<Rightarrow> int \<Rightarrow> cref set" where
  "owned n uid = set (getd [] (pending n) uid) \<union> current n uid"

definition outstanding :: "direction \<Rightarrow> nodeTraffic \<Rightarrow> counterStore \<Rightarrow> int \<Rightarrow> int64" where
  "outstanding d n st uid = (\<Sum>c \<in> owned n uid. bytesOf d (cells st c))"

definition nodeOk :: "nodeTraffic \<Rightarrow> counterStore \<Rightarrow> bool" where
  "nodeOk n st \<longleftrightarrow> wf_map (users n) \<and> wf_map (counters n) \<and> wf_map (pending n)
     \<and> dom (map_of (users n)) = dom (map_of (counters n))
     \<and> (\<forall>uid c. c \<in> owned n uid \<longrightarrow> c < allocated st)
     \<and> (\<forall>uid \<le> 0. getd [] (pending n) uid = [])
     \<and> (\<forall>uid uid' c. c \<in> owned n uid \<longrightarrow> c \<in> owned n uid' \<longrightarrow> uid = uid')"

lemma finite_current [simp]: "finite (current n uid)"
proof (rule finite_subset)
  show "current n uid \<subseteq> ran (map_of (counters n))" by (auto simp: current_def ran_def)
qed (simp add: finite_ran finite_dom_map_of)

lemma finite_owned [simp]: "finite (owned n uid)"
  by (simp add: owned_def)

lemma nodeOkD:
  assumes "nodeOk n st"
  shows "wf_map (users n)" "wf_map (counters n)" "wf_map (pending n)"
    "dom (map_of (users n)) = dom (map_of (counters n))"
    "c \<in> owned n uid \<Longrightarrow> c < allocated st"
    "uid \<le> 0 \<Longrightarrow> getd [] (pending n) uid = []"
    "c \<in> owned n uid \<Longrightarrow> c \<in> owned n uid' \<Longrightarrow> uid = uid'"
  using assms unfolding nodeOk_def by blast+

lemma owned_pending: "c \<in> set (getd [] (pending n) uid) \<Longrightarrow> c \<in> owned n uid"
  by (simp add: owned_def)

lemma owned_current: "map_of (users n) user = Some uid \<Longrightarrow> map_of (counters n) user = Some c \<Longrightarrow> c \<in> owned n uid"
  by (auto simp: owned_def current_def)

lemma nodeOk_empty [simp]: "nodeOk emptyNode st"
  by (simp add: nodeOk_def emptyNode_def owned_def current_def)

section \<open>Pending counters\<close>

lemma getd_appendPending:
  "set (getd [] (appendPendingCounter p uid c) u) = set (getd [] p u) \<union> (if u = uid \<and> uid > 0 then {c} else {})"
  by (simp add: appendPendingCounter_def)

lemma wf_appendPending [simp]: "wf_map p \<Longrightarrow> wf_map (appendPendingCounter p uid c)"
  by (simp add: appendPendingCounter_def)

lemma wf_map_filter [simp]: "wf_map m \<Longrightarrow> wf_map (filter P m)"
  by (induction m) (auto simp: wf_map_def)

lemma map_of_filter_wf:
  "wf_map m \<Longrightarrow> map_of (filter P m) k = (case map_of m k of None \<Rightarrow> None | Some v \<Rightarrow> if P (k, v) then Some v else None)"
  by (induction m) (auto simp: wf_map_def map_of_eq_None_iff split: option.splits)

lemma getd_clonePending [simp]: "wf_map p \<Longrightarrow> getd [] (clonePendingCounters p) u = getd [] p u"
  by (simp add: clonePendingCounters_def getd_def map_of_filter_wf split: option.split)

section \<open>Updating users\<close>

text \<open>What the loop over the new users keeps: counters of the old node stay with the user they belonged to, as pending or
  as current ones, until their key has been passed over, and every other counter is new and empty.\<close>

definition carried :: "nodeTraffic \<Rightarrow> counterStore \<Rightarrow> nodeTraffic \<times> counterStore \<Rightarrow> bool" where
  "carried n st = (\<lambda>(nx, st').
     wf_map (users nx) \<and> wf_map (counters nx) \<and> wf_map (pending nx)
     \<and> dom (map_of (users nx)) = dom (map_of (counters nx))
     \<and> allocated st \<le> allocated st'
     \<and> (\<forall>c < allocated st. cells st' c = cells st c)
     \<and> (\<forall>c. allocated st \<le> c \<longrightarrow> c < allocated st' \<longrightarrow> cells st' c = zeroCounter)
     \<and> (\<forall>uid. set (getd [] (pending nx) uid) \<subseteq> (if uid > 0 then owned n uid else {}))
     \<and> (\<forall>uid. set (getd [] (pending n) uid) \<subseteq> set (getd [] (pending nx) uid))
     \<and> (\<forall>user c. map_of (counters nx) user = Some c \<longrightarrow>
          (c < allocated st \<and> map_of (counters n) user = Some c \<and> map_of (users nx) user = map_of (users n) user)
          \<or> (allocated st \<le> c \<and> c < allocated st'
             \<and> (\<forall>user'. map_of (counters nx) user' = Some c \<longrightarrow> user' = user)))
     \<and> (\<forall>user uid c. uid > 0 \<longrightarrow> map_of (users n) user = Some uid \<longrightarrow> map_of (counters n) user = Some c \<longrightarrow>
          c \<in> set (getd [] (pending nx) uid) \<or> map_of (counters nx) user = None
          \<or> (map_of (counters nx) user = Some c \<and> map_of (users nx) user = Some uid)))"


lemma updatedUserLimit_store [simp]:
  "cells (snd (updatedUserLimit n key user st)) = cells st"
  "allocated (snd (updatedUserLimit n key user st)) = allocated st"
  by (simp_all add: updatedUserLimit_def Let_def)

text \<open>The step for one user, as far as counters are concerned.\<close>

definition carryTo :: "nodeTraffic \<Rightarrow> string \<Rightarrow> int \<Rightarrow> nodeTraffic \<times> counterStore \<Rightarrow> cref \<Rightarrow> nodeTraffic \<times> counterStore \<Rightarrow> bool" where
  "carryTo n key uid = (\<lambda>(nx, st) c (nx', st').
     users nx' = AList.update key uid (users nx) \<and> counters nx' = AList.update key c (counters nx)
     \<and> (if map_of (counters n) key = Some c \<and> map_of (users n) key = Some uid
        then pending nx' = pending nx \<and> cells st' = cells st \<and> allocated st' = allocated st
        else c = allocated st \<and> allocated st' = Suc c \<and> cells st' = (cells st)(c := zeroCounter)
          \<and> pending nx' = (case map_of (counters n) key of
              None \<Rightarrow> pending nx | Some e \<Rightarrow> appendPendingCounter (pending nx) (getd 0 (users n) key) e)
          \<and> (map_of (counters n) key \<noteq> None \<longrightarrow> map_of (users n) key \<noteq> Some uid)))"

lemma updateUser_carryTo:
  assumes ok: "nodeOk n st0" and key: "userTrackerKey nodeType user \<noteq> []" and le: "allocated st0 \<le> allocated st"
  shows "\<exists>c. carryTo n (userTrackerKey nodeType user) (uiID user) (nx, st) c (updateUser nodeType n user (nx, st))"
proof -
  let ?key = "userTrackerKey nodeType user"
  have dom: "map_of (users n) ?key \<noteq> None" if "map_of (counters n) ?key = Some e" for e
    using nodeOkD(4)[OF ok] that by (metis domIff option.distinct(1))
  show ?thesis
  proof (cases "map_of (counters n) ?key")
    case None
    then show ?thesis using key
      by (intro exI[of _ "allocated st"])
         (simp add: carryTo_def updateUser_def carryCounter_def newCounter_def Let_def split_beta)
  next
    case (Some e)
    with dom obtain u where u: "map_of (users n) ?key = Some u" by blast
    have "e < allocated st"
      using nodeOkD(5)[OF ok owned_current[OF u Some]] le by simp
    then show ?thesis
      using Some u key
      by (intro exI[of _ "if u = uiID user then e else allocated st"])
         (simp add: carryTo_def updateUser_def carryCounter_def newCounter_def Let_def split_beta getd_def)
  qed
qed


lemma carriedD:
  assumes "carried n st (nx, st')"
  shows "wf_map (users nx)" "wf_map (counters nx)" "wf_map (pending nx)"
    "dom (map_of (users nx)) = dom (map_of (counters nx))"
    "allocated st \<le> allocated st'"
    "\<And>c. c < allocated st \<Longrightarrow> cells st' c = cells st c"
    "\<And>c. allocated st \<le> c \<Longrightarrow> c < allocated st' \<Longrightarrow> cells st' c = zeroCounter"
    "\<And>uid. set (getd [] (pending nx) uid) \<subseteq> (if uid > 0 then owned n uid else {})"
    "\<And>uid. set (getd [] (pending n) uid) \<subseteq> set (getd [] (pending nx) uid)"
    "\<And>user c. map_of (counters nx) user = Some c \<Longrightarrow>
       (c < allocated st \<and> map_of (counters n) user = Some c \<and> map_of (users nx) user = map_of (users n) user)
       \<or> (allocated st \<le> c \<and> c < allocated st' \<and> (\<forall>user'. map_of (counters nx) user' = Some c \<longrightarrow> user' = user))"
    "\<And>user uid c. uid > 0 \<Longrightarrow> map_of (users n) user = Some uid \<Longrightarrow> map_of (counters n) user = Some c \<Longrightarrow>
       c \<in> set (getd [] (pending nx) uid) \<or> map_of (counters nx) user = None
       \<or> (map_of (counters nx) user = Some c \<and> map_of (users nx) user = Some uid)"
  using assms unfolding carried_def by simp_all

lemma carriedI:
  assumes "wf_map (users nx)" "wf_map (counters nx)" "wf_map (pending nx)"
    "dom (map_of (users nx)) = dom (map_of (counters nx))"
    "allocated st \<le> allocated st'"
    "\<And>c. c < allocated st \<Longrightarrow> cells st' c = cells st c"
    "\<And>c. allocated st \<le> c \<Longrightarrow> c < allocated st' \<Longrightarrow> cells st' c = zeroCounter"
    "\<And>uid. set (getd [] (pending nx) uid) \<subseteq> (if uid > 0 then owned n uid else {})"
    "\<And>uid. set (getd [] (pending n) uid) \<subseteq> set (getd [] (pending nx) uid)"
    "\<And>user c. map_of (counters nx) user = Some c \<Longrightarrow>
       (c < allocated st \<and> map_of (counters n) user = Some c \<and> map_of (users nx) user = map_of (users n) user)
       \<or> (allocated st \<le> c \<and> c < allocated st' \<and> (\<forall>user'. map_of (counters nx) user' = Some c \<longrightarrow> user' = user))"
    "\<And>user uid c. uid > 0 \<Longrightarrow> map_of (users n) user = Some uid \<Longrightarrow> map_of (counters n) user = Some c \<Longrightarrow>
       c \<in> set (getd [] (pending nx) uid) \<or> map_of (counters nx) user = None
       \<or> (map_of (counters nx) user = Some c \<and> map_of (users nx) user = Some uid)"
  shows "carried n st (nx, st')"
  unfolding carried_def prod.case by (intro conjI allI impI; fact assms)

lemma carried_keep:
  assumes ok: "nodeOk n st0" and inv: "carried n st0 (nx, st)"
    and n: "map_of (counters n) key = Some c" "map_of (users n) key = Some uid"
    and eqs: "users nx' = AList.update key uid (users nx)" "counters nx' = AList.update key c (counters nx)"
      "pending nx' = pending nx" "cells st' = cells st" "allocated st' = allocated st"
  shows "carried n st0 (nx', st')"
proof -
  note D = carriedD[OF inv]
  have c: "c < allocated st0" using nodeOkD(5)[OF ok owned_current[OF n(2,1)]] .
  have old: "(e < allocated st0 \<and> map_of (counters n) user = Some e \<and> map_of (users nx') user = map_of (users n) user)
      \<or> (allocated st0 \<le> e \<and> e < allocated st' \<and> (\<forall>user'. map_of (counters nx') user' = Some e \<longrightarrow> user' = user))"
    if "map_of (counters nx') user = Some e" for user e
  proof (cases "user = key")
    case True
    then show ?thesis using that c n by (simp add: eqs)
  next
    case False
    then show ?thesis using that D(10)[of user e] c by (auto simp: eqs)
  qed
  have cov: "e \<in> set (getd [] (pending nx') u) \<or> map_of (counters nx') user = None
       \<or> (map_of (counters nx') user = Some e \<and> map_of (users nx') user = Some u)"
    if "u > 0" "map_of (users n) user = Some u" "map_of (counters n) user = Some e" for user u e
    using D(11)[OF that] that n by (cases "user = key") (simp_all add: eqs)
  show ?thesis
  proof (rule carriedI)
    show "dom (map_of (users nx')) = dom (map_of (counters nx'))"
      using D(4) by (simp add: eqs)
    show "wf_map (users nx')" "wf_map (counters nx')" "wf_map (pending nx')" "allocated st0 \<le> allocated st'"
      using D(1-3,5) by (simp_all add: eqs)
    show "cells st' c = cells st0 c" if "c < allocated st0" for c
      using D(6)[OF that] by (simp add: eqs)
    show "cells st' c = zeroCounter" if "allocated st0 \<le> c" "c < allocated st'" for c
      using D(7)[of c] that by (simp add: eqs)
    show "set (getd [] (pending nx') u) \<subseteq> (if u > 0 then owned n u else {})" for u
      using D(8)[of u] by (simp add: eqs)
    show "set (getd [] (pending n) u) \<subseteq> set (getd [] (pending nx') u)" for u
      using D(9)[of u] by (simp add: eqs)
  qed (fact old, fact cov)
qed

lemma carried_new:
  assumes ok: "nodeOk n st0" and inv: "carried n st0 (nx, st)"
    and other: "\<And>e. map_of (counters n) key = Some e \<Longrightarrow> map_of (users n) key \<noteq> Some uid"
    and eqs: "users nx' = AList.update key uid (users nx)" "counters nx' = AList.update key (allocated st) (counters nx)"
      "pending nx' = (case map_of (counters n) key of
         None \<Rightarrow> pending nx | Some e \<Rightarrow> appendPendingCounter (pending nx) (getd 0 (users n) key) e)"
      "cells st' = (cells st)(allocated st := zeroCounter)" "allocated st' = Suc (allocated st)"
  shows "carried n st0 (nx', st')"
proof -
  note D = carriedD[OF inv]
  have dom: "\<exists>u. map_of (users n) key = Some u" if "map_of (counters n) key = Some e" for e
    using nodeOkD(4)[OF ok] that by blast
  have pend: "set (getd [] (pending nx') u) = set (getd [] (pending nx) u)
      \<union> {e. u > 0 \<and> map_of (counters n) key = Some e \<and> map_of (users n) key = Some u}" for u
  proof (cases "map_of (counters n) key")
    case None
    then show ?thesis by (simp add: eqs(3))
  next
    case (Some e)
    with dom obtain v where "map_of (users n) key = Some v" by blast
    with Some show ?thesis by (auto simp: eqs(3) getd_appendPending getd_def[of 0])
  qed
  have wf: "wf_map (pending nx')"
    using D(3) by (simp add: eqs(3) split: option.split)
  have sub: "set (getd [] (pending nx') u) \<subseteq> (if u > 0 then owned n u else {})" for u
    using D(8)[of u] by (auto simp: pend intro: owned_current)
  have old: "(e < allocated st0 \<and> map_of (counters n) user = Some e \<and> map_of (users nx') user = map_of (users n) user)
      \<or> (allocated st0 \<le> e \<and> e < allocated st' \<and> (\<forall>user'. map_of (counters nx') user' = Some e \<longrightarrow> user' = user))"
    if "map_of (counters nx') user = Some e" for user e
  proof (cases "user = key")
    case True
    have "map_of (counters nx) u \<noteq> Some (allocated st)" for u
      using D(10)[of u "allocated st"] D(5) by auto
    then show ?thesis using True that D(5) by (simp add: eqs)
  next
    case False
    with that have "map_of (counters nx) user = Some e" by (simp add: eqs(2))
    from D(10)[OF this] False show ?thesis by (elim disjE conjE) (simp_all add: eqs(1,2,5))
  qed
  have cov: "e \<in> set (getd [] (pending nx') u) \<or> map_of (counters nx') user = None
       \<or> (map_of (counters nx') user = Some e \<and> map_of (users nx') user = Some u)"
    if "u > 0" "map_of (users n) user = Some u" "map_of (counters n) user = Some e" for user u e
    using D(11)[OF that] that unfolding pend by (cases "user = key") (simp_all add: eqs, blast)
  show ?thesis
  proof (rule carriedI)
    show "dom (map_of (users nx')) = dom (map_of (counters nx'))"
      using D(4) by (simp add: eqs)
    show "set (getd [] (pending n) u) \<subseteq> set (getd [] (pending nx') u)" for u
      using D(9)[of u] pend[of u] by auto
    show "cells st' c = cells st0 c" if "c < allocated st0" for c
      using D(5,6) that by (simp add: eqs)
    show "cells st' c = zeroCounter" if "allocated st0 \<le> c" "c < allocated st'" for c
      using D(7)[of c] that by (auto simp: eqs less_Suc_eq)
    show "allocated st0 \<le> allocated st'" using D(5) by (simp add: eqs)
    show "wf_map (users nx')" "wf_map (counters nx')" "wf_map (pending nx')"
      using D(1,2) wf by (simp_all add: eqs(1,2))
  qed (fact sub, fact old, fact cov)
qed


lemma carried_loop:
  assumes ok: "nodeOk n st0"
  shows "carried n st0 s \<Longrightarrow> carried n st0 (fold (updateUser nodeType n) us s)"
proof (induction us arbitrary: s)
  case (Cons user us)
  let ?key = "userTrackerKey nodeType user"
  obtain nx st where s: "s = (nx, st)" by (cases s)
  obtain nx' st' where s': "updateUser nodeType n user s = (nx', st')" by (cases "updateUser nodeType n user s")
  have "carried n st0 (nx', st')"
  proof (cases "userTrackerKey nodeType user = []")
    case True
    with s' Cons.prems show ?thesis by (simp add: updateUser_def)
  next
    case False
    have "allocated st0 \<le> allocated st" using Cons.prems carriedD(5) by (simp add: s)
    from updateUser_carryTo[OF ok False this, of nx] obtain c
      where c: "carryTo n (userTrackerKey nodeType user) (uiID user) (nx, st) c (nx', st')"
      using s' s by auto
    show ?thesis
    proof (cases "map_of (counters n) (userTrackerKey nodeType user) = Some c
        \<and> map_of (users n) (userTrackerKey nodeType user) = Some (uiID user)")
      case True
      then show ?thesis
        using c Cons.prems[unfolded s] unfolding carryTo_def prod.case if_P[OF True]
        by (elim conjE) (rule carried_keep[OF ok])
    next
      case False
      have E: "users nx' = AList.update ?key (uiID user) (users nx)"
        "counters nx' = AList.update ?key (allocated st) (counters nx)"
        "pending nx' = (case map_of (counters n) ?key of None \<Rightarrow> pending nx
           | Some e \<Rightarrow> appendPendingCounter (pending nx) (getd 0 (users n) ?key) e)"
        "cells st' = (cells st)(allocated st := zeroCounter)" "allocated st' = Suc (allocated st)"
        "map_of (counters n) ?key \<noteq> None \<longrightarrow> map_of (users n) ?key \<noteq> Some (uiID user)"
        using c unfolding carryTo_def prod.case if_not_P[OF False] by simp_all
      show ?thesis
        by (rule carried_new[OF ok Cons.prems[unfolded s] _ E(1-5)]) (use E(6) in simp)
    qed
  qed
  then show ?case using Cons.IH s' by simp
qed simp

lemma carried_start:
  assumes "nodeOk n st" "users nx = []" "counters nx = []" "pending nx = clonePendingCounters (pending n)"
  shows "carried n st (nx, st)"
proof (rule carriedI)
  show "set (getd [] (pending nx) uid) \<subseteq> (if uid > 0 then owned n uid else {})" for uid
    using assms nodeOkD(3,6)[OF assms(1)] by (auto intro: owned_pending)
  show "wf_map (pending nx)"
    using assms nodeOkD(3)[OF assms(1)] by (simp add: clonePendingCounters_def)
qed (use assms nodeOkD(3)[OF assms(1)] in simp_all)


lemma retire_fold:
  "counters (fold (retireCounter n) l nx) = counters nx"
  "users (fold (retireCounter n) l nx) = users nx"
  "wf_map (pending nx) \<Longrightarrow> wf_map (pending (fold (retireCounter n) l nx))"
  "set (getd [] (pending (fold (retireCounter n) l nx)) uid) = set (getd [] (pending nx) uid)
     \<union> {c. \<exists>key. (key, c) \<in> set l \<and> map_of (counters nx) key = None \<and> getd 0 (users n) key = uid \<and> uid > 0}"
proof (induction l arbitrary: nx)
  case (Cons kc l)
  obtain key c where kc: "kc = (key, c)" by (cases kc)
  have step: "counters (retireCounter n kc nx) = counters nx" "users (retireCounter n kc nx) = users nx"
    "wf_map (pending nx) \<Longrightarrow> wf_map (pending (retireCounter n kc nx))"
    "set (getd [] (pending (retireCounter n kc nx)) uid) = set (getd [] (pending nx) uid)
       \<union> (if map_of (counters nx) key = None \<and> getd 0 (users n) key = uid \<and> uid > 0 then {c} else {})" for nx uid
    by (auto simp: retireCounter_def kc getd_appendPending)
  {
    case 1 show ?case using Cons.IH(1) step(1) by simp
  next
    case 2 show ?case using Cons.IH(2) step(2) by simp
  next
    case 3 then show ?case using Cons.IH(3) step(3) by simp
  next
    case 4 show ?case using Cons.IH(4)[of "retireCounter n kc nx"] step(1,4)[of nx] by (auto simp: kc)
  }
qed simp_all

lemma update_facts:
  assumes ok: "nodeOk n st"
    and upd: "updateUsersWithAliveStateForNodeType nodeType i us al at ttl rs (n, st) = (n', st')"
  obtains nx where "carried n st (nx, st')" "users n' = users nx" "counters n' = counters nx" "wf_map (pending n')"
    "\<forall>uid. set (getd [] (pending n') uid) = set (getd [] (pending nx) uid)
       \<union> {c. \<exists>key. map_of (counters n) key = Some c \<and> map_of (counters nx) key = None
            \<and> map_of (users n) key = Some uid \<and> uid > 0}"
proof -
  define start where "start = \<lparr>nodeID = i, users = [], limits = [], counters = [],
    pending = clonePendingCounters (pending n), online = [], previous = [], alive = al, aliveAt = at,
    aliveTTL = normalizeAliveListTTL ttl, rules = rs\<rparr>"
  obtain nx st1 where loop: "fold (updateUser nodeType n) us (start, st) = (nx, st1)"
    by (cases "fold (updateUser nodeType n) us (start, st)")
  have n': "n' = fold (retireCounter n) (counters n) nx" "st' = st1"
    using upd loop by (simp_all add: updateUsersWithAliveStateForNodeType_def start_def Let_def)
  have car: "carried n st (nx, st')"
    using carried_loop[OF ok carried_start[OF ok, of start], of nodeType us] loop n'(2) by (simp add: start_def)
  have mem: "(key, c) \<in> set (counters n) \<and> getd 0 (users n) key = uid
      \<longleftrightarrow> map_of (counters n) key = Some c \<and> map_of (users n) key = Some uid" for key c uid
  proof -
    have "(key, c) \<in> set (counters n) \<longleftrightarrow> map_of (counters n) key = Some c"
      using nodeOkD(2)[OF ok] by (simp add: wf_map_def)
    moreover have "map_of (counters n) key = Some c \<Longrightarrow> \<exists>u. map_of (users n) key = Some u"
      using nodeOkD(4)[OF ok] by blast
    ultimately show ?thesis by (auto simp: getd_def)
  qed
  have "set (getd [] (pending n') uid) = set (getd [] (pending nx) uid)
       \<union> {c. \<exists>key. map_of (counters n) key = Some c \<and> map_of (counters nx) key = None
            \<and> map_of (users n) key = Some uid \<and> uid > 0}" for uid
    unfolding n'(1) retire_fold(4) using mem by blast
  moreover have "users n' = users nx" "counters n' = counters nx" "wf_map (pending n')"
    unfolding n'(1) by (rule retire_fold(2) retire_fold(1) retire_fold(3)[OF carriedD(3)[OF car]])+
  ultimately show thesis using car by (intro that[of nx]) blast+
qed

lemma update_owned:
  assumes ok: "nodeOk n st"
    and upd: "updateUsersWithAliveStateForNodeType nodeType i us al at ttl rs (n, st) = (n', st')"
  shows "uid > 0 \<Longrightarrow> owned n uid \<subseteq> owned n' uid" (is "_ \<Longrightarrow> ?keep")
    and "owned n' uid \<subseteq> owned n uid \<union> {c. allocated st \<le> c \<and> c < allocated st'}" (is ?new)
    and "allocated st \<le> allocated st'"
    and "c < allocated st \<Longrightarrow> cells st' c = cells st c"
    and "allocated st \<le> c \<Longrightarrow> c < allocated st' \<Longrightarrow> cells st' c = zeroCounter"
    and "nodeOk n' st'"
proof -
  obtain nx where car: "carried n st (nx, st')"
    and eqs: "users n' = users nx" "counters n' = counters nx" and wf: "wf_map (pending n')"
    and pend': "\<forall>uid. set (getd [] (pending n') uid) = set (getd [] (pending nx) uid)
       \<union> {c. \<exists>key. map_of (counters n) key = Some c \<and> map_of (counters nx) key = None
            \<and> map_of (users n) key = Some uid \<and> uid > 0}" by (rule update_facts[OF ok upd])
  note D = carriedD[OF car] and pend = pend'[rule_format]
  show keep: ?keep if "uid > 0"
  proof
    fix c assume "c \<in> owned n uid"
    then consider "c \<in> set (getd [] (pending n) uid)"
      | user where "map_of (users n) user = Some uid" "map_of (counters n) user = Some c"
      by (auto simp: owned_def current_def)
    then show "c \<in> owned n' uid"
    proof cases
      case 1
      then show ?thesis using D(9)[of uid] pend[of uid] by (auto simp: owned_def)
    next
      case (2 user)
      from D(11)[OF that 2] 2 that show ?thesis
        by (auto simp: owned_def current_def pend eqs)
    qed
  qed
  have pend_old: "set (getd [] (pending n') u) \<subseteq> (if u > 0 then owned n u else {})" for u
    using D(8)[of u] pend[of u] by (auto intro: owned_current)
  have cur: "(c \<in> owned n u) \<or> (allocated st \<le> c \<and> c < allocated st')" if "c \<in> current n' u" for c u
  proof -
    from that obtain user where user: "map_of (users nx) user = Some u" "map_of (counters nx) user = Some c"
      by (auto simp: current_def eqs)
    from D(10)[OF user(2)] user(1) show ?thesis by (auto intro: owned_current)
  qed
  show new: "owned n' u \<subseteq> owned n u \<union> {c. allocated st \<le> c \<and> c < allocated st'}" for u
    using pend_old[of u] cur[of _ u] by (auto simp: owned_def[of n'] split: if_splits)
  show "allocated st \<le> allocated st'" by (rule D(5))
  show "c < allocated st \<Longrightarrow> cells st' c = cells st c" by (rule D(6))
  show "allocated st \<le> c \<Longrightarrow> c < allocated st' \<Longrightarrow> cells st' c = zeroCounter" by (rule D(7))
  have bound: "c < allocated st'" if "c \<in> owned n' u" for c u
    using new[of u] that nodeOkD(5)[OF ok, of c u] D(5) by auto
  have disj: "u = v" if "c \<in> owned n' u" "c \<in> owned n' v" for c u v
  proof (cases "c < allocated st")
    case True
    then have "c \<in> owned n u" "c \<in> owned n v" using new[of u] new[of v] that by auto
    then show ?thesis by (rule nodeOkD(7)[OF ok])
  next
    case False
    then have "c \<notin> owned n w" for w using nodeOkD(5)[OF ok] by blast
    then have "c \<notin> set (getd [] (pending n') w)" for w using pend_old[of w] by (auto split: if_splits)
    with that have "c \<in> current n' u" "c \<in> current n' v"
      unfolding owned_def[of n'] by blast+
    then obtain x y where xy: "map_of (users nx) x = Some u" "map_of (counters nx) x = Some c"
      "map_of (users nx) y = Some v" "map_of (counters nx) y = Some c"
      unfolding current_def eqs by blast
    then have "x = y" using D(10)[OF xy(2)] False by blast
    with xy show ?thesis by simp
  qed
  have nonpos: "getd [] (pending n') u = []" if "u \<le> 0" for u
    using pend_old[of u] that by auto
  show "nodeOk n' st'"
    unfolding nodeOk_def using D(1,2,4) wf bound disj nonpos by (simp add: eqs)
qed


lemma outstanding_update:
  assumes ok: "nodeOk n st" and uid: "uid > 0"
    and upd: "updateUsersWithAliveStateForNodeType nodeType i us al at ttl rs (n, st) = (n', st')"
  shows "outstanding d n' st' uid = outstanding d n st uid"
proof -
  note U = update_owned[OF ok upd]
  have "outstanding d n' st' uid = (\<Sum>c \<in> owned n uid. bytesOf d (cells st' c))"
    unfolding outstanding_def
  proof (rule sum.mono_neutral_right)
    show "\<forall>c \<in> owned n' uid - owned n uid. bytesOf d (cells st' c) = 0"
      using U(2)[of uid] U(5) by (cases d) (auto simp: zeroCounter_def)
  qed (use U(1)[OF uid] in simp_all)
  also have "\<dots> = outstanding d n st uid"
    unfolding outstanding_def using U(4) nodeOkD(5)[OF ok] by (intro sum.cong) simp_all
  finally show ?thesis .
qed

section \<open>Snapshots\<close>

text \<open>A snapshot empties the counters of a list of pairs of a user and a counter, one after the other.\<close>

abbreviation sweepOne :: "int \<times> cref \<Rightarrow> totals \<times> counterStore \<Rightarrow> totals \<times> counterStore" where
  "sweepOne \<equiv> \<lambda>(uid, c) s. snd (addCounterSnapshot uid c s)"

abbreviation sweep :: "(int \<times> cref) list \<Rightarrow> totals \<times> counterStore \<Rightarrow> totals \<times> counterStore" where
  "sweep \<equiv> fold sweepOne"

lemma sweepOne_eqs:
  assumes "sweepOne (uid, c) (tot, st) = (tot', st')"
  shows "allocated st' = allocated st" "active (cells st' e) = active (cells st e)"
    "bytesOf d (cells st' e) = (if e = c \<and> uid > 0 then 0 else bytesOf d (cells st e))"
    "totalBytes d (getd noTotal tot' u) = totalBytes d (getd noTotal tot u)
       + (if u = uid \<and> uid > 0 then bytesOf d (cells st c) else 0)"
    "wf_map tot \<Longrightarrow> wf_map tot'"
    "uid > 0 \<or> dom (map_of tot') = dom (map_of tot)" "dom (map_of tot') \<subseteq> dom (map_of tot) \<union> {u. u > 0}"
  using assms by (cases d; auto simp: addCounterSnapshot_def Let_def split: if_splits)+

lemma sweep_eqs:
  assumes "sweep l (tot, st) = (tot', st')"
    and "\<forall>u v c. (u, c) \<in> set l \<longrightarrow> (v, c) \<in> set l \<longrightarrow> u = v"
  shows "allocated st' = allocated st" "active (cells st' e) = active (cells st e)"
    "bytesOf d (cells st' e) = (if \<exists>u > 0. (u, e) \<in> set l then 0 else bytesOf d (cells st e))"
    "u > 0 \<Longrightarrow> totalBytes d (getd noTotal tot' u)
       = totalBytes d (getd noTotal tot u) + (\<Sum>c \<in> {c. (u, c) \<in> set l}. bytesOf d (cells st c))"
    "wf_map tot \<Longrightarrow> wf_map tot'" "dom (map_of tot') \<subseteq> dom (map_of tot) \<union> {u. u > 0}"
proof -
  have "allocated st' = allocated st \<and> active (cells st' e) = active (cells st e)
    \<and> bytesOf d (cells st' e) = (if \<exists>u > 0. (u, e) \<in> set l then 0 else bytesOf d (cells st e))
    \<and> (u > 0 \<longrightarrow> totalBytes d (getd noTotal tot' u)
       = totalBytes d (getd noTotal tot u) + (\<Sum>c \<in> {c. (u, c) \<in> set l}. bytesOf d (cells st c)))
    \<and> (wf_map tot \<longrightarrow> wf_map tot') \<and> dom (map_of tot') \<subseteq> dom (map_of tot) \<union> {u. u > 0}"
    using assms
  proof (induction l arbitrary: tot st)
    case (Cons p l)
    obtain v c where p: "p = (v, c)" by (cases p)
    obtain tot1 st1 where one: "sweepOne (v, c) (tot, st) = (tot1, st1)"
      by (cases "sweepOne (v, c) (tot, st)")
    note O = sweepOne_eqs[OF one]
    have rest: "sweep l (tot1, st1) = (tot', st')" using Cons.prems(1) one by (simp add: p)
    have uniq: "\<forall>u v c. (u, c) \<in> set l \<longrightarrow> (v, c) \<in> set l \<longrightarrow> u = v"
      using Cons.prems(2) by simp
    note IH = Cons.IH[OF rest uniq]
    have fin: "finite {c. (u, c) \<in> set l}"
      by (rule finite_subset[of _ "snd ` set l"]) force+
    have sum: "(\<Sum>e \<in> {e. (u, e) \<in> set l}. bytesOf d (cells st1 e)) + (if u = v then bytesOf d (cells st c) else 0)
        = (\<Sum>e \<in> {e. (u, e) \<in> set (p # l)}. bytesOf d (cells st e))" if "u > 0"
    proof (cases "u = v")
      case True
      have "(\<Sum>e \<in> {e. (u, e) \<in> set l}. bytesOf d (cells st1 e))
          = (\<Sum>e \<in> {e. (u, e) \<in> set l} - {c}. bytesOf d (cells st e))"
        using fin that True by (intro sum.mono_neutral_cong_right) (auto simp: O(3))
      moreover have "{e. (u, e) \<in> set (p # l)} = insert c {e. (u, e) \<in> set l}"
        using True by (auto simp: p)
      ultimately show ?thesis using True fin
        by (simp add: sum.insert_remove add.commute)
    next
      case False
      have "(u, c) \<notin> set l" using Cons.prems(2)[rule_format, of u c v] False by (auto simp: p)
      then have "(\<Sum>e \<in> {e. (u, e) \<in> set l}. bytesOf d (cells st1 e))
          = (\<Sum>e \<in> {e. (u, e) \<in> set l}. bytesOf d (cells st e))"
        by (intro sum.cong) (auto simp: O(3))
      moreover have "{e. (u, e) \<in> set (p # l)} = {e. (u, e) \<in> set l}"
        using False by (auto simp: p)
      ultimately show ?thesis using False by simp
    qed
    have bytes: "bytesOf d (cells st' e) = (if \<exists>u > 0. (u, e) \<in> set (p # l) then 0 else bytesOf d (cells st e))"
      using IH O(3)[where e = e and d = d] by (auto simp: p)
    have totals: "totalBytes d (getd noTotal tot' u) = totalBytes d (getd noTotal tot u)
        + (\<Sum>e \<in> {e. (u, e) \<in> set (p # l)}. bytesOf d (cells st e))" if "u > 0"
    proof -
      have "totalBytes d (getd noTotal tot' u) = totalBytes d (getd noTotal tot1 u)
          + (\<Sum>e \<in> {e. (u, e) \<in> set l}. bytesOf d (cells st1 e))" using IH that by blast
      then show ?thesis using sum[OF that] that O(4)[where d = d and u = u]
        by (cases "u = v") (simp_all add: ac_simps)
    qed
    have "dom (map_of tot') \<subseteq> dom (map_of tot) \<union> {u. u > 0}" using IH O(7) by blast
    then show ?case using IH O(1,2,5) bytes totals by simp
  qed simp
  then show "allocated st' = allocated st" "active (cells st' e) = active (cells st e)"
    "bytesOf d (cells st' e) = (if \<exists>u > 0. (u, e) \<in> set l then 0 else bytesOf d (cells st e))"
    "u > 0 \<Longrightarrow> totalBytes d (getd noTotal tot' u)
       = totalBytes d (getd noTotal tot u) + (\<Sum>c \<in> {c. (u, c) \<in> set l}. bytesOf d (cells st c))"
    "wf_map tot \<Longrightarrow> wf_map tot'" "dom (map_of tot') \<subseteq> dom (map_of tot) \<union> {u. u > 0}"
    by blast+
qed


lemma active_sweep: "active (cells (snd (sweep l s)) e) = active (cells (snd s) e)"
proof (induction l arbitrary: s)
  case (Cons p l)
  have "active (cells (snd (sweepOne p s)) e) = active (cells (snd s) e)"
    by (cases p; cases s) (simp add: addCounterSnapshot_def Let_def)
  with Cons show ?case by simp
qed simp

definition pendingPairs :: "(int, cref list) gomap \<Rightarrow> (int \<times> cref) list" where
  "pendingPairs l = concat (map (\<lambda>(uid, cs). map (Pair uid) cs) l)"

definition counterPairs :: "nodeTraffic \<Rightarrow> (string, cref) gomap \<Rightarrow> (int \<times> cref) list" where
  "counterPairs n l = concat (map (\<lambda>(user, c). case map_of (users n) user of None \<Rightarrow> [] | Some uid \<Rightarrow> [(uid, c)]) l)"

lemma sweep_same: "fold (\<lambda>c s. snd (addCounterSnapshot uid c s)) cs s = sweep (map (Pair uid) cs) s"
  by (induction cs arbitrary: s) simp_all

lemma snapshotPending_eqs:
  "snd (snapshotPending (uid, cs) (pend, s)) = sweep (map (Pair uid) cs) s"
  "getd [] (fst (snapshotPending (uid, cs) (pend, s))) u = (if u = uid then filter (isActive (snd s)) cs else getd [] pend u)"
  "wf_map pend \<Longrightarrow> wf_map (fst (snapshotPending (uid, cs) (pend, s)))"
proof -
  obtain tot st where t: "sweep (map (Pair uid) cs) s = (tot, st)" by (cases "sweep (map (Pair uid) cs) s")
  have "isActive st = isActive (snd s)"
    using active_sweep[of "map (Pair uid) cs" s] t by (auto simp: isActive_def fun_eq_iff)
  with t show "snd (snapshotPending (uid, cs) (pend, s)) = sweep (map (Pair uid) cs) s"
    "getd [] (fst (snapshotPending (uid, cs) (pend, s))) u = (if u = uid then filter (isActive (snd s)) cs else getd [] pend u)"
    "wf_map pend \<Longrightarrow> wf_map (fst (snapshotPending (uid, cs) (pend, s)))"
    by (simp_all add: snapshotPending_def sweep_same Let_def)
qed

lemma snapshotPending_fold:
  "snd (fold snapshotPending l (pend, s)) = sweep (pendingPairs l) s"
  "wf_map l \<Longrightarrow> getd [] (fst (fold snapshotPending l (pend, s))) u
     = (case map_of l u of None \<Rightarrow> getd [] pend u | Some cs \<Rightarrow> filter (isActive (snd s)) cs)"
  "wf_map pend \<Longrightarrow> wf_map (fst (fold snapshotPending l (pend, s)))"
proof (induction l arbitrary: pend s)
  case (Cons p l)
  obtain uid cs where p: "p = (uid, cs)" by (cases p)
  let ?s = "\<lambda>s. sweep (map (Pair uid) cs) s"
  have step: "fold snapshotPending (p # l) (pend, s) = fold snapshotPending l (fst (snapshotPending (uid, cs) (pend, s)), ?s s)" for pend s
    unfolding p fold_Cons comp_apply snapshotPending_eqs(1)[of uid cs pend s, symmetric] by simp
  note IH = Cons.IH[of "fst (snapshotPending (uid, cs) (pend, s))" "?s s" for pend s]
  {
    case 1 show ?case unfolding step IH(1) by (simp add: pendingPairs_def p)
  next
    case 2
    then have wf: "wf_map l" "map_of l uid = None" by (auto simp: p dest: wf_map_tl)
    have "isActive (snd (?s s)) = isActive (snd s)"
      by (simp add: isActive_def fun_eq_iff active_sweep)
    with wf(2) show ?case unfolding step IH(2)[OF wf(1)] snapshotPending_eqs(2)
      by (simp add: p split: option.split)
  next
    case 3 then show ?case unfolding step by (intro IH(3) snapshotPending_eqs(3))
  }
qed (simp_all add: pendingPairs_def)

lemma snapshotCounter_fold:
  "(ssTotals (fold (snapshotCounter n m) l s), ssStore (fold (snapshotCounter n m) l s))
     = sweep (counterPairs n l) (ssTotals s, ssStore s)"
proof (induction l arbitrary: s)
  case (Cons p l)
  obtain user c where p: "p = (user, c)" by (cases p)
  have "(ssTotals (snapshotCounter n m p s), ssStore (snapshotCounter n m p s))
      = sweep (counterPairs n [p]) (ssTotals s, ssStore s)"
    by (simp add: snapshotCounter_def counterPairs_def p Let_def split_beta split: option.split)
  with Cons show ?case by (simp add: counterPairs_def)
qed (simp add: counterPairs_def)

definition swept :: "nodeTraffic \<Rightarrow> (int \<times> cref) list" where
  "swept n = pendingPairs (pending n) @ counterPairs n (counters n)"

lemma set_swept:
  assumes "nodeOk n st"
  shows "(u, c) \<in> set (swept n) \<longleftrightarrow> c \<in> owned n u"
proof -
  have "(u, c) \<in> set (pendingPairs (pending n)) \<longleftrightarrow> c \<in> set (getd [] (pending n) u)"
  proof -
    have "(u, c) \<in> set (pendingPairs (pending n)) \<longleftrightarrow> (\<exists>cs. (u, cs) \<in> set (pending n) \<and> c \<in> set cs)"
      by (force simp: pendingPairs_def)
    also have "\<dots> \<longleftrightarrow> (\<exists>cs. map_of (pending n) u = Some cs \<and> c \<in> set cs)"
      using nodeOkD(3)[OF assms] by (simp add: wf_map_def)
    finally show ?thesis by (auto simp: getd_def split: option.split)
  qed
  moreover have "(u, c) \<in> set (counterPairs n (counters n)) \<longleftrightarrow> c \<in> current n u"
  proof -
    have "(u, c) \<in> set (counterPairs n (counters n))
        \<longleftrightarrow> (\<exists>user. (user, c) \<in> set (counters n) \<and> map_of (users n) user = Some u)"
      by (force simp: counterPairs_def split: option.splits)
    also have "\<dots> \<longleftrightarrow> c \<in> current n u"
      using nodeOkD(2)[OF assms] by (auto simp: wf_map_def current_def)
    finally show ?thesis .
  qed
  ultimately show ?thesis by (simp add: swept_def owned_def)
qed


lemma snapshot_facts:
  assumes ok: "nodeOk n st" and snap: "snapshot trafficMin onlineMin (n, st) = ((traffic, al), n', st')"
  obtains tot where "sweep (swept n) ([], st) = (tot, st')"
    "traffic = map (\<lambda>(uid, tt). \<lparr>UID = uid, Upload = totalUpload tt, Download = totalDownload tt\<rparr>)
       (filter (\<lambda>(uid, tt). reportable trafficMin tt) tot)"
    "users n' = users n" "counters n' = counters n" "wf_map (pending n')"
    "\<forall>uid. getd [] (pending n') uid = filter (isActive st) (getd [] (pending n) uid)"
proof -
  obtain pend tot1 st1 where p: "fold snapshotPending (pending n) (pending n, [], st) = (pend, tot1, st1)"
    by (cases "fold snapshotPending (pending n) (pending n, [], st)")
  define e where "e = fold (snapshotCounter n onlineMin) (counters n)
    \<lparr>ssAlive = [], ssPrevious = [], ssOnline = online n, ssTotals = tot1, ssStore = st1\<rparr>"
  have r: "traffic = map (\<lambda>(uid, tt). \<lparr>UID = uid, Upload = totalUpload tt, Download = totalDownload tt\<rparr>)
       (filter (\<lambda>(uid, tt). reportable trafficMin tt) (ssTotals e))"
    "n' = n\<lparr>pending := pend, previous := ssPrevious e, online := ssOnline e\<rparr>" "st' = ssStore e"
    using snap by (simp_all add: snapshot_def p e_def Let_def)
  have "sweep (pendingPairs (pending n)) ([], st) = (tot1, st1)"
    using snapshotPending_fold(1)[of "pending n" "pending n" "([], st)"] p by simp
  moreover have "sweep (counterPairs n (counters n)) (tot1, st1) = (ssTotals e, ssStore e)"
    unfolding e_def by (simp add: snapshotCounter_fold)
  ultimately have sw: "sweep (swept n) ([], st) = (ssTotals e, st')"
    by (simp add: swept_def r(3))
  have pend: "getd [] pend uid = filter (isActive st) (getd [] (pending n) uid)" for uid
    using snapshotPending_fold(2)[OF nodeOkD(3)[OF ok], where pend = "pending n" and s = "([], st)" and u = uid] p
    by (simp add: getd_def split: option.split)
  have "wf_map pend"
    using snapshotPending_fold(3)[OF nodeOkD(3)[OF ok], where l = "pending n" and s = "([], st)"] p by simp
  then have "users n' = users n" "counters n' = counters n" "wf_map (pending n')"
    "\<forall>uid. getd [] (pending n') uid = filter (isActive st) (getd [] (pending n) uid)"
    using pend by (simp_all add: r(2))
  with sw r(1) show thesis by (rule that)
qed

lemma snapshot_owned:
  assumes ok: "nodeOk n st" and snap: "snapshot trafficMin onlineMin (n, st) = ((traffic, al), n', st')"
  shows "owned n' uid \<subseteq> owned n uid" "c \<in> owned n uid \<Longrightarrow> isActive st c \<Longrightarrow> c \<in> owned n' uid"
    "allocated st' = allocated st" "active (cells st' c) = active (cells st c)"
    "bytesOf d (cells st' c) = (if \<exists>u > 0. c \<in> owned n u then 0 else bytesOf d (cells st c))"
    "nodeOk n' st'"
proof -
  obtain tot where sw: "sweep (swept n) ([], st) = (tot, st')" and n': "users n' = users n" "counters n' = counters n"
    "wf_map (pending n')" and pend: "\<forall>uid. getd [] (pending n') uid = filter (isActive st) (getd [] (pending n) uid)"
    by (rule snapshot_facts[OF ok snap])
  have uniq: "\<forall>u v c. (u, c) \<in> set (swept n) \<longrightarrow> (v, c) \<in> set (swept n) \<longrightarrow> u = v"
    using set_swept[OF ok] nodeOkD(7)[OF ok] by blast
  note S = sweep_eqs[OF sw uniq]
  have cur: "current n' u = current n u" for u by (simp add: current_def n')
  show sub: "owned n' u \<subseteq> owned n u" for u by (auto simp: owned_def cur pend)
  show "c \<in> owned n uid \<Longrightarrow> isActive st c \<Longrightarrow> c \<in> owned n' uid" by (auto simp: owned_def cur pend)
  show al: "allocated st' = allocated st" by (rule S(1))
  show "active (cells st' c) = active (cells st c)" by (rule S(2))
  show "bytesOf d (cells st' c) = (if \<exists>u > 0. c \<in> owned n u then 0 else bytesOf d (cells st c))"
    using S(3)[where e = c and d = d] by (simp add: set_swept[OF ok])
  show "nodeOk n' st'"
    unfolding nodeOk_def al
  proof (intro conjI allI impI)
    show "getd [] (pending n') u = []" if "u \<le> 0" for u using nodeOkD(6)[OF ok that] pend by simp
    show "u = v" if "c \<in> owned n' u" "c \<in> owned n' v" for u v c
      using nodeOkD(7)[OF ok] sub that by blast
    show "c < allocated st" if "c \<in> owned n' u" for u c
      using nodeOkD(5)[OF ok] sub that by blast
  qed (use nodeOkD(1,2,4)[OF ok] n' in simp_all)
qed


lemma filter_key_wf:
  "wf_map m \<Longrightarrow> filter (\<lambda>(k, v). k = x \<and> P v) m = (case map_of m x of None \<Rightarrow> [] | Some v \<Rightarrow> if P v then [(x, v)] else [])"
proof (induction m)
  case (Cons p m)
  obtain k v where p: "p = (k, v)" by (cases p)
  with Cons.prems have "wf_map m" "map_of m k = None" by (auto dest: wf_map_tl)
  with Cons.IH show ?case by (auto simp: p split: option.splits)
qed simp

definition outstandingTotal :: "nodeTraffic \<Rightarrow> counterStore \<Rightarrow> int \<Rightarrow> trafficTotal" where
  "outstandingTotal n st uid = \<lparr>totalUpload = outstanding Up n st uid, totalDownload = outstanding Down n st uid\<rparr>"

lemma snapshot_traffic:
  assumes ok: "nodeOk n st" and snap: "snapshot trafficMin onlineMin (n, st) = ((traffic, al), n', st')" and uid: "uid > 0"
  shows "filter (\<lambda>e. UID e = uid) traffic = (if reportable trafficMin (outstandingTotal n st uid)
     then [\<lparr>UID = uid, Upload = outstanding Up n st uid, Download = outstanding Down n st uid\<rparr>] else [])"
proof -
  obtain tot where sw: "sweep (swept n) ([], st) = (tot, st')"
    and tr: "traffic = map (\<lambda>(uid, tt). \<lparr>UID = uid, Upload = totalUpload tt, Download = totalDownload tt\<rparr>)
       (filter (\<lambda>(uid, tt). reportable trafficMin tt) tot)"
    by (rule snapshot_facts[OF ok snap])
  have uniq: "\<forall>u v c. (u, c) \<in> set (swept n) \<longrightarrow> (v, c) \<in> set (swept n) \<longrightarrow> u = v"
    using set_swept[OF ok] nodeOkD(7)[OF ok] by blast
  note S = sweep_eqs[OF sw uniq]
  have bytes: "totalBytes d (getd noTotal tot uid) = outstanding d n st uid" for d
    using S(4)[OF uid, where d = d] by (cases d) (simp_all add: set_swept[OF ok] outstanding_def noTotal_def)
  have total: "getd noTotal tot uid = outstandingTotal n st uid"
    using bytes[of Up] bytes[of Down] by (simp add: outstandingTotal_def)
  have "filter (\<lambda>e. UID e = uid) traffic
      = map (\<lambda>(uid, tt). \<lparr>UID = uid, Upload = totalUpload tt, Download = totalDownload tt\<rparr>)
          (filter (\<lambda>(k, tt). k = uid \<and> reportable trafficMin tt) tot)"
    unfolding tr filter_map filter_filter by (intro arg_cong[of _ _ "map _"] filter_cong) auto
  then show ?thesis
    using total filter_key_wf[of tot uid "reportable trafficMin"] S(5)
    by (auto simp: getd_def outstandingTotal_def noTotal_def reportable_def split: option.splits)
qed

lemma snapshot_clears:
  assumes ok: "nodeOk n st" and snap: "snapshot trafficMin onlineMin (n, st) = ((traffic, al), n', st')" and uid: "uid > 0"
  shows "outstanding d n' st' uid = 0"
proof -
  have "bytesOf d (cells st' c) = 0" if "c \<in> owned n' uid" for c
    using snapshot_owned(1)[OF ok snap, of uid] snapshot_owned(5)[OF ok snap, of d c] that uid by auto
  then show ?thesis unfolding outstanding_def by simp
qed

section \<open>Restored traffic\<close>

lemma outstanding_add:
  assumes ok: "nodeOk n st" and c: "c \<in> owned n u"
  shows "outstanding Up n (addTraffic c up down st) uid = outstanding Up n st uid + (if uid = u then up else 0)"
    "outstanding Down n (addTraffic c up down st) uid = outstanding Down n st uid + (if uid = u then down else 0)"
proof -
  have "(\<Sum>e \<in> owned n uid. f (cells (addTraffic c up down st) e)) = (\<Sum>e \<in> owned n uid. f (cells st e)) + (if uid = u then k else 0)"
    if "f (cells (addTraffic c up down st) c) = f (cells st c) + k" for f :: "userCounter \<Rightarrow> int64" and k
  proof (cases "uid = u")
    case True
    have "(\<Sum>e \<in> owned n u - {c}. f (cells (addTraffic c up down st) e)) = (\<Sum>e \<in> owned n u - {c}. f (cells st e))"
      by (intro sum.cong) (simp_all add: addTraffic_def)
    then have "(\<Sum>e \<in> owned n u. f (cells (addTraffic c up down st) e))
        = f (cells st c) + k + (\<Sum>e \<in> owned n u - {c}. f (cells st e))"
      unfolding sum.remove[OF finite_owned c] that by simp
    then show ?thesis using True sum.remove[OF finite_owned c, of "\<lambda>e. f (cells st e)"] by simp
  next
    case False
    with nodeOkD(7)[OF ok c, of uid] have "c \<notin> owned n uid" by auto
    then have "(\<Sum>e \<in> owned n uid. f (cells (addTraffic c up down st) e)) = (\<Sum>e \<in> owned n uid. f (cells st e))"
      by (intro sum.cong refl) (auto simp: addTraffic_def)
    then show ?thesis using False by simp
  qed
  from this[of upload up] this[of download down]
  show "outstanding Up n (addTraffic c up down st) uid = outstanding Up n st uid + (if uid = u then up else 0)"
    "outstanding Down n (addTraffic c up down st) uid = outstanding Down n st uid + (if uid = u then down else 0)"
    by (simp_all add: outstanding_def addTraffic_def)
qed


text \<open>Growth: new counters are empty, the old ones and their owners stay.\<close>

definition grows :: "nodeTraffic \<times> counterStore \<Rightarrow> nodeTraffic \<times> counterStore \<Rightarrow> bool" where
  "grows = (\<lambda>(n, st) (n', st'). allocated st \<le> allocated st'
     \<and> (\<forall>c < allocated st. active (cells st' c) = active (cells st c))
     \<and> (\<forall>c. allocated st \<le> c \<longrightarrow> c < allocated st' \<longrightarrow> active (cells st' c) = 0)
     \<and> (\<forall>u > 0. owned n u \<subseteq> owned n' u)
     \<and> (\<forall>u. owned n' u \<subseteq> owned n u \<union> {c. allocated st \<le> c \<and> c < allocated st'}))"

lemma grows_refl [simp]: "grows s s"
  by (cases s) (auto simp: grows_def)

lemma grows_trans:
  assumes "grows s1 s2" "grows s2 s3"
  shows "grows s1 s3"
proof -
  obtain n1 st1 n2 st2 n3 st3 where s: "s1 = (n1, st1)" "s2 = (n2, st2)" "s3 = (n3, st3)"
    by (cases s1; cases s2; cases s3)
  note G = assms[unfolded grows_def s prod.case]
  have "owned n3 u \<subseteq> owned n1 u \<union> {c. allocated st1 \<le> c \<and> c < allocated st3}" for u
  proof
    fix c assume "c \<in> owned n3 u"
    then have "c \<in> owned n2 u \<or> (allocated st2 \<le> c \<and> c < allocated st3)" using G(2) by blast
    moreover have "c \<in> owned n2 u \<Longrightarrow> c \<in> owned n1 u \<or> (allocated st1 \<le> c \<and> c < allocated st2)" using G(1) by blast
    ultimately show "c \<in> owned n1 u \<union> {c. allocated st1 \<le> c \<and> c < allocated st3}" using G by auto
  qed
  moreover have "active (cells st3 c) = 0" if "allocated st1 \<le> c" "c < allocated st3" for c
    using G that by (cases "c < allocated st2") auto
  moreover have "active (cells st3 c) = active (cells st1 c)" if "c < allocated st1" for c
    using G that by auto
  moreover have "owned n1 u \<subseteq> owned n3 u" if "u > 0" for u using G that by blast
  ultimately show ?thesis using G by (simp add: grows_def s)
qed

lemma grows_update:
  assumes "nodeOk n st" "updateUsersWithAliveStateForNodeType nodeType i us al at ttl rs (n, st) = (n', st')"
  shows "grows (n, st) (n', st')"
  using update_owned[OF assms] by (simp add: grows_def zeroCounter_def)

lemma owned_pendingUpdate:
  assumes "uid > 0" "users n' = users n" "counters n' = counters n"
    "pending n' = appendPendingCounter (pending n) uid c"
  shows "owned n' u = owned n u \<union> (if u = uid then {c} else {})"
  using assms by (auto simp: owned_def current_def getd_appendPending)

lemma nodeOk_fresh:
  assumes ok: "nodeOk n st" and uid: "uid > 0"
    and new: "newCounter st = (c, st')" and n': "n' = n\<lparr>pending := appendPendingCounter (pending n) uid c\<rparr>"
  shows "nodeOk n' st'" "outstanding d n' st' u = outstanding d n st u" "grows (n, st) (n', st')" "c \<in> owned n' uid"
proof -
  have own: "owned n' u = owned n u \<union> (if u = uid then {c} else {})" for u
    by (rule owned_pendingUpdate) (simp_all add: uid n')
  have c: "c = allocated st" "allocated st' = Suc (allocated st)" "cells st' = (cells st)(c := zeroCounter)"
    using new by (auto simp: newCounter_def)
  have old: "e \<noteq> c" if "e \<in> owned n v" for e v using nodeOkD(5)[OF ok that] c by simp
  show "nodeOk n' st'"
    unfolding nodeOk_def
  proof (intro conjI allI impI)
    show "v = w" if "e \<in> owned n' v" "e \<in> owned n' w" for v w e
      using that old nodeOkD(7)[OF ok, of e v w] by (auto simp: own split: if_splits)
    show "e < allocated st'" if "e \<in> owned n' v" for v e
      using that nodeOkD(5)[OF ok, of e v] c by (auto simp: own split: if_splits)
    show "getd [] (pending n') v = []" if "v \<le> 0" for v
      using that uid nodeOkD(6)[OF ok that] by (auto simp: n' appendPendingCounter_def)
  qed (use nodeOkD(1-4)[OF ok] n' in simp_all)
  have "(\<Sum>e \<in> owned n u. bytesOf d (cells st' e)) = (\<Sum>e \<in> owned n u. bytesOf d (cells st e))"
    using old by (intro sum.cong) (auto simp: c(3))
  moreover have "bytesOf d (cells st' c) = 0"
    by (cases d) (simp_all add: c(3) zeroCounter_def)
  moreover have "c \<notin> owned n u" using old by blast
  ultimately show "outstanding d n' st' u = outstanding d n st u"
    by (cases "u = uid") (simp_all add: outstanding_def own)
  show "grows (n, st) (n', st')" by (auto simp: grows_def own c zeroCounter_def)
  show "c \<in> owned n' uid" by (simp add: own)
qed

lemma counterForUID:
  assumes ok: "nodeOk n st" and uid: "uid > 0" and r: "counterForUIDLocked uid (n, st) = (r, n', st')"
  obtains c where "r = Some c" "c \<in> owned n' uid" "nodeOk n' st'" "grows (n, st) (n', st')"
    "\<forall>d u. outstanding d n' st' u = outstanding d n st u"
proof (cases "find (\<lambda>(user, userID). userID = uid \<and> map_of (counters n) user \<noteq> None) (users n)")
  case (Some p)
  obtain user v where p: "p = (user, v)" by (cases p)
  from Some have "(user, v) \<in> set (users n)" "v = uid" "map_of (counters n) user \<noteq> None"
    by (auto simp: find_Some_iff p) (metis nth_mem)
  with nodeOkD(1)[OF ok] obtain c where "map_of (users n) user = Some uid" "map_of (counters n) user = Some c"
    by (auto simp: wf_map_def)
  with r Some uid ok show thesis
    by (intro that[of c]) (auto simp: counterForUIDLocked_def p intro: owned_current)
next
  case None
  show thesis
  proof (cases "getd [] (pending n) uid")
    case (Cons c cs)
    with r None uid ok show thesis
      by (intro that[of c]) (auto simp: counterForUIDLocked_def intro: owned_pending)
  next
    case Nil
    obtain c st1 where new: "newCounter st = (c, st1)" by (cases "newCounter st")
    with r None uid Nil have e: "r = Some c" "n' = n\<lparr>pending := appendPendingCounter (pending n) uid c\<rparr>" "st' = st1"
      by (simp_all add: counterForUIDLocked_def)
    with nodeOk_fresh[OF ok uid new e(2)] show thesis by (intro that[of c]) simp_all
  qed
qed

lemma addTraffic_frame [simp]:
  "allocated (addTraffic c up down st) = allocated st"
  "active (cells (addTraffic c up down st) e) = active (cells st e)"
  by (simp_all add: addTraffic_def)

lemma nodeOk_store [simp]: "nodeOk n (addTraffic c up down st) = nodeOk n st" "nodeOk n (addActive c k st) = nodeOk n st"
  by (simp_all add: nodeOk_def addActive_def)

definition entriesOf :: "direction \<Rightarrow> UserTraffic list \<Rightarrow> int \<Rightarrow> int64" where
  "entriesOf d traffic uid = sum_list (map (entryBytes d) (filter (\<lambda>e. UID e = uid) traffic))"

lemma restoreTraffic_outstanding:
  assumes "nodeOk n st" "restoreTraffic traffic (n, st) = (n', st')"
  shows "nodeOk n' st' \<and> grows (n, st) (n', st')
    \<and> (\<forall>d uid. uid > 0 \<longrightarrow> outstanding d n' st' uid = outstanding d n st uid + entriesOf d traffic uid)"
  using assms
proof (induction traffic arbitrary: n st)
  case (Cons e traffic)
  obtain r n1 st1 where c: "counterForUIDLocked (UID e) (n, st) = (r, n1, st1)"
    by (cases "counterForUIDLocked (UID e) (n, st)")
  show ?case
  proof (cases "UID e > 0")
    case True
    obtain c where r: "r = Some c" "c \<in> owned n1 (UID e)" and ok: "nodeOk n1 st1" and g: "grows (n, st) (n1, st1)"
      and out: "\<forall>d u. outstanding d n1 st1 u = outstanding d n st u"
      by (rule counterForUID[OF Cons.prems(1) True c])
    let ?st = "addTraffic c (Upload e) (Download e) st1"
    have "restoreTraffic traffic (n1, ?st) = (n', st')"
      using Cons.prems(2) c r(1) by (simp add: restoreTraffic_def restoreEntry_def)
    from Cons.IH[OF _ this] ok have IH: "nodeOk n' st'" "grows (n1, ?st) (n', st')"
      "\<And>d uid. uid > 0 \<Longrightarrow> outstanding d n' st' uid = outstanding d n1 ?st uid + entriesOf d traffic uid" by simp_all
    have add: "outstanding d n1 ?st uid = outstanding d n st uid + (if uid = UID e then entryBytes d e else 0)" for d uid
      using outstanding_add[OF ok r(2)] out by (cases d) simp_all
    have "grows (n1, st1) (n1, ?st)" by (auto simp: grows_def)
    with g IH(2) have "grows (n, st) (n', st')" by (blast intro: grows_trans)
    moreover have "outstanding d n' st' uid = outstanding d n st uid + entriesOf d (e # traffic) uid" if "uid > 0" for d uid
      using IH(3)[OF that] add by (simp add: entriesOf_def)
    ultimately show ?thesis using IH(1) by blast
  next
    case False
    then have "restoreTraffic traffic (n, st) = (n', st')"
      using Cons.prems(2) by (simp add: restoreTraffic_def restoreEntry_def counterForUIDLocked_def)
    from Cons.IH[OF Cons.prems(1) this] False show ?thesis by (auto simp: entriesOf_def)
  qed
qed (simp add: restoreTraffic_def entriesOf_def)

end
