(* ===== verification/TrackerRuns.thy ===== *)
theory TrackerRuns
  imports TrackerCorrect
begin

text \<open>
  Runs of a node of the traffic tracker: any interleaving of user updates, connections that open, transfer and close,
  and reports to the panel, which may fail and be restored at any later time.  Traffic is conserved over every
  run, and the number of addresses kept for a user stays bounded.
\<close>

section \<open>Runs\<close>

text \<open>
  The state of a run: the node, its counters, the tracked connections (the counter, the user the connection was opened for
  and whether it has been closed), the batches that have been taken by a snapshot and neither acknowledged nor restored,
  and a ledger of the bytes moved by the connections and of the bytes acknowledged by the panel.
\<close>

record run =
  rNode :: nodeTraffic
  rStore :: counterStore
  rConns :: "(cref \<times> int \<times> bool) list"
  rBatches :: "UserTraffic list list"
  rMoved :: "direction \<Rightarrow> int \<Rightarrow> int64"
  rReported :: "direction \<Rightarrow> int \<Rightarrow> int64"

definition emptyStore :: counterStore where
  "emptyStore = \<lparr>cells = (\<lambda>_. zeroCounter), allocated = 0, limiters = 0\<rparr>"

definition startRun :: run where
  "startRun = \<lparr>rNode = emptyNode, rStore = emptyStore, rConns = [], rBatches = [], rMoved = (\<lambda>_ _. 0), rReported = (\<lambda>_ _. 0)\<rparr>"

text \<open>Amounts that a snapshot can tell from zero: the sum of both directions is below the sign bit.\<close>

definition countable :: "nodeTraffic \<Rightarrow> counterStore \<Rightarrow> bool" where
  "countable n st \<longleftrightarrow> (\<forall>uid > 0. unat (outstanding Up n st uid) + unat (outstanding Down n st uid) < 2 ^ 63)"

text \<open>
  The steps: each is one operation of the node, which holds the node's lock, or a transfer on an open connection.  A
  snapshot asks for a reporting threshold of at most one byte.
\<close>

inductive step :: "run \<Rightarrow> run \<Rightarrow> bool" where
  users: "updateUsersWithAliveStateForNodeType nodeType i us al at ttl rs (rNode s, rStore s) = (n, st)
    \<Longrightarrow> step s (s\<lparr>rNode := n, rStore := st\<rparr>)"
| alive: "step s (s\<lparr>rNode := updateAliveListWithState al at ttl (rNode s)\<rparr>)"
| opened: "node_counter (rNode s) (User md) = Some c \<Longrightarrow> map_of (users (rNode s)) (User md) = Some uid
    \<Longrightarrow> admit E pick now md proto c (rNode s, rStore s) = (Tracked c l, n, st) \<Longrightarrow> length (rConns s) < 2 ^ 31 - 1
    \<Longrightarrow> step s (s\<lparr>rNode := n, rStore := st, rConns := (c, uid, False) # rConns s\<rparr>)"
| refused: "node_counter (rNode s) (User md) = Some c
    \<Longrightarrow> admit E pick now md proto c (rNode s, rStore s) = (Closed, n, st)
    \<Longrightarrow> step s (s\<lparr>rNode := n, rStore := st\<rparr>)"
| transfer: "(c, uid, False) \<in> set (rConns s)
    \<Longrightarrow> step s (s\<lparr>rStore := addTraffic c up down (rStore s),
          rMoved := (\<lambda>d u. rMoved s d u + (if u = uid then case d of Up \<Rightarrow> up | Down \<Rightarrow> down else 0))\<rparr>)"
| closed: "i < length (rConns s) \<Longrightarrow> rConns s ! i = (c, uid, once)
    \<Longrightarrow> trackedConn_Close (c, once) (rStore s) = ((c', once'), st)
    \<Longrightarrow> step s (s\<lparr>rStore := st, rConns := (rConns s)[i := (c', uid, once')]\<rparr>)"
| snapped: "snapshot trafficMin onlineMin (rNode s, rStore s) = ((traffic, al), n, st) \<Longrightarrow> trafficMin \<le> 1
    \<Longrightarrow> countable (rNode s) (rStore s)
    \<Longrightarrow> step s (s\<lparr>rNode := n, rStore := st, rBatches := traffic # rBatches s\<rparr>)"
| acknowledged: "i < length (rBatches s)
    \<Longrightarrow> step s (s\<lparr>rBatches := take i (rBatches s) @ drop (Suc i) (rBatches s),
          rReported := (\<lambda>d u. rReported s d u + entriesOf d (rBatches s ! i) u)\<rparr>)"
| restored: "i < length (rBatches s) \<Longrightarrow> restoreTraffic (rBatches s ! i) (rNode s, rStore s) = (n, st)
    \<Longrightarrow> step s (s\<lparr>rNode := n, rStore := st, rBatches := take i (rBatches s) @ drop (Suc i) (rBatches s)\<rparr>)"
| restoredAlive: "step s (s\<lparr>rNode := restoreAlive pick values (rNode s)\<rparr>)"

text \<open>Bytes taken by snapshots whose report is still open.\<close>

definition inFlight :: "run \<Rightarrow> direction \<Rightarrow> int \<Rightarrow> int64" where
  "inFlight s d uid = sum_list (map (\<lambda>b. entriesOf d b uid) (rBatches s))"

definition openOn :: "(cref \<times> int \<times> bool) list \<Rightarrow> cref \<Rightarrow> nat" where
  "openOn conns c = length (filter (\<lambda>(e, _, once). e = c \<and> \<not> once) conns)"

definition soleOwner :: "nodeTraffic \<Rightarrow> cref \<Rightarrow> int \<Rightarrow> bool" where
  "soleOwner n c uid \<longleftrightarrow> (\<forall>u. c \<in> owned n u \<longrightarrow> u = uid)"

definition connOk :: "run \<Rightarrow> cref \<Rightarrow> int \<Rightarrow> bool \<Rightarrow> bool" where
  "connOk s c uid once \<longleftrightarrow> c < allocated (rStore s)
     \<and> soleOwner (rNode s) c uid \<and> (uid > 0 \<longrightarrow> \<not> once \<longrightarrow> c \<in> owned (rNode s) uid)"

definition connsOk :: "run \<Rightarrow> bool" where
  "connsOk s \<longleftrightarrow> length (rConns s) < 2 ^ 31
     \<and> (\<forall>c < allocated (rStore s). active (cells (rStore s) c) = of_nat (openOn (rConns s) c))
     \<and> (\<forall>c uid once. (c, uid, once) \<in> set (rConns s) \<longrightarrow> connOk s c uid once)"

lemma connsOkI:
  assumes "length (rConns s) < 2 ^ 31"
    "\<And>c. c < allocated (rStore s) \<Longrightarrow> active (cells (rStore s) c) = of_nat (openOn (rConns s) c)"
    "\<And>c uid once. (c, uid, once) \<in> set (rConns s) \<Longrightarrow> connOk s c uid once"
  shows "connsOk s"
  using assms unfolding connsOk_def by blast

lemma connsOkD:
  assumes "connsOk s"
  shows "length (rConns s) < 2 ^ 31"
    "c < allocated (rStore s) \<Longrightarrow> active (cells (rStore s) c) = of_nat (openOn (rConns s) c)"
    "(c, uid, once) \<in> set (rConns s) \<Longrightarrow> connOk s c uid once"
  using assms unfolding connsOk_def by blast+

definition balanced :: "run \<Rightarrow> bool" where
  "balanced s \<longleftrightarrow> (\<forall>d uid. uid > 0 \<longrightarrow>
     rMoved s d uid = rReported s d uid + inFlight s d uid + outstanding d (rNode s) (rStore s) uid)"

definition runOk :: "run \<Rightarrow> bool" where
  "runOk s \<longleftrightarrow> nodeOk (rNode s) (rStore s) \<and> connsOk s \<and> balanced s"

lemma runOk_start: "runOk startRun"
  by (simp add: runOk_def startRun_def connsOk_def connOk_def balanced_def inFlight_def outstanding_def owned_def current_def emptyNode_def emptyStore_def
      nodeOk_empty[unfolded emptyNode_def])


section \<open>Frames\<close>

lemma owned_frame:
  "users n' = users n \<Longrightarrow> counters n' = counters n \<Longrightarrow> pending n' = pending n \<Longrightarrow> owned n' u = owned n u"
  by (simp add: owned_def current_def)

lemma outstanding_frame:
  "users n' = users n \<Longrightarrow> counters n' = counters n \<Longrightarrow> pending n' = pending n \<Longrightarrow> outstanding d n' st u = outstanding d n st u"
  by (simp add: outstanding_def owned_frame[of n' n])

lemma nodeOk_frame:
  "users n' = users n \<Longrightarrow> counters n' = counters n \<Longrightarrow> pending n' = pending n \<Longrightarrow> nodeOk n' st = nodeOk n st"
  by (simp add: nodeOk_def owned_frame[of n' n])

lemma runOk_frame:
  assumes "runOk s" "users n' = users (rNode s)" "counters n' = counters (rNode s)" "pending n' = pending (rNode s)"
  shows "runOk (s\<lparr>rNode := n'\<rparr>)"
  using assms(1) nodeOk_frame[OF assms(2-4)] owned_frame[OF assms(2-4)] outstanding_frame[OF assms(2-4)]
  by (simp add: runOk_def connsOk_def connOk_def soleOwner_def balanced_def inFlight_def)

lemma markOnline_frame:
  assumes "markOnline pick now user ip n = (ok, n')"
  shows "users n' = users n" "counters n' = counters n" "pending n' = pending n" "limits n' = limits n" "previous n' = previous n"
  using assms by (auto simp: markOnline_def split: if_splits option.splits)

lemma restoreAlive_frame:
  "users (restoreAlive pick l n) = users n" "counters (restoreAlive pick l n) = counters n"
  "pending (restoreAlive pick l n) = pending n"
proof -
  have "users (fold (restoreAliveOf pick) l n) = users n \<and> counters (fold (restoreAliveOf pick) l n) = counters n
      \<and> pending (fold (restoreAliveOf pick) l n) = pending n"
    by (induction l arbitrary: n) (simp_all add: restoreAliveOf_def split_beta split: option.split)
  then show "users (restoreAlive pick l n) = users n" "counters (restoreAlive pick l n) = counters n"
    "pending (restoreAlive pick l n) = pending n" by (simp_all add: restoreAlive_def)
qed

section \<open>Signed amounts\<close>

lemma sint_small:
  fixes w :: "'a :: len word"
  assumes "unat w < 2 ^ (LENGTH('a) - Suc 0)"
  shows "sint w = int (unat w)"
proof -
  have "uint w < 2 ^ (LENGTH('a) - Suc 0)"
    using assms by (simp flip: of_nat_less_iff[where 'a = int])
  moreover have "0 \<le> uint w" by simp
  ultimately have "signed_take_bit (LENGTH('a) - Suc 0) (uint w) = uint w"
    by (intro signed_take_bit_int_eq_self) (auto intro: order.trans[of _ 0])
  then show ?thesis by (simp add: sint_uint)
qed

lemma active_positive:
  fixes w :: "32 word"
  assumes "w = of_nat k" "0 < k" "k < 2 ^ 31"
  shows "sint w > 0"
proof -
  have "unat w = k" using assms by (simp add: unat_of_nat take_bit_nat_eq_self)
  then show ?thesis using sint_small[of w] assms by simp
qed

lemma reportable_all:
  assumes "trafficMin \<le> 1" "unat (up :: int64) + unat down < 2 ^ 63"
  shows "reportable trafficMin \<lparr>totalUpload = up, totalDownload = down\<rparr> \<longleftrightarrow> up \<noteq> 0 \<or> down \<noteq> 0"
proof -
  define k where "k = unat up + unat down"
  have sum: "unat (up + down) = k"
    using assms(2) unfolding k_def by (subst unat_add_lem[THEN iffD1]) simp_all
  have "sint (up + down) = int (unat (up + down))"
    by (rule sint_small) (use assms(2) in \<open>simp add: sum k_def\<close>)
  then have "sint (up + down) = int k" unfolding sum .
  moreover have "0 < k \<longleftrightarrow> up \<noteq> 0 \<or> down \<noteq> 0" by (simp add: k_def unat_gt_0)
  ultimately show ?thesis using assms(1) unfolding reportable_def Let_def by auto
qed

section \<open>Steps keep the balance\<close>

lemma openOn_none: "(\<forall>(e, u, once) \<in> set conns. e < k) \<Longrightarrow> k \<le> c \<Longrightarrow> openOn conns c = 0"
  by (auto simp: openOn_def filter_empty_conv)

lemma openOn_le: "openOn conns c \<le> length conns"
  by (simp add: openOn_def)

lemma openOn_pos: "(c, u, False) \<in> set conns \<Longrightarrow> 0 < openOn conns c"
  by (auto simp: openOn_def filter_empty_conv)

lemma connsOk_grows:
  assumes ok: "connsOk s" and g: "grows (rNode s, rStore s) (n, st)"
  shows "connsOk (s\<lparr>rNode := n, rStore := st\<rparr>)" (is "connsOk ?t")
proof (rule connsOkI)
  note G = g[unfolded grows_def prod.case]
  show "length (rConns ?t) < 2 ^ 31" using connsOkD(1)[OF ok] by simp
  show "active (cells (rStore ?t) c) = of_nat (openOn (rConns ?t) c)" if "c < allocated (rStore ?t)" for c
  proof (cases "c < allocated (rStore s)")
    case True
    then show ?thesis using connsOkD(2)[OF ok True] G by simp
  next
    case False
    have "\<forall>(e, u, once) \<in> set (rConns s). e < allocated (rStore s)"
      using connsOkD(3)[OF ok] by (auto simp: connOk_def)
    with False have "openOn (rConns s) c = 0" by (intro openOn_none[of _ "allocated (rStore s)"]) simp_all
    with False that G show ?thesis by simp
  qed
  show "connOk ?t c uid once" if m: "(c, uid, once) \<in> set (rConns ?t)" for c uid once
  proof -
    have c: "c < allocated (rStore s)" "soleOwner (rNode s) c uid"
      "uid > 0 \<longrightarrow> \<not> once \<longrightarrow> c \<in> owned (rNode s) uid"
      using connsOkD(3)[OF ok, of c uid once] m by (simp_all add: connOk_def)
    have "c \<in> owned (rNode s) u" if "c \<in> owned n u" for u
    proof -
      have "c \<in> owned (rNode s) u \<union> {c. allocated (rStore s) \<le> c \<and> c < allocated st}" using G that by blast
      with c(1) show ?thesis by simp
    qed
    with c(2) have "soleOwner n c uid" unfolding soleOwner_def by blast
    moreover have "c \<in> owned n uid" if "uid > 0" "\<not> once" using G c(3) that by blast
    moreover have "c < allocated st" using G c(1) by simp
    ultimately show ?thesis by (simp add: connOk_def)
  qed
qed

lemma balanced_grows:
  assumes ok: "balanced s" and out: "\<And>d u. u > 0 \<Longrightarrow> outstanding d n st u = outstanding d (rNode s) (rStore s) u"
  shows "balanced (s\<lparr>rNode := n, rStore := st\<rparr>)"
  using assms by (simp add: balanced_def inFlight_def)

lemma runOk_users:
  assumes ok: "runOk s"
    and upd: "updateUsersWithAliveStateForNodeType nodeType i us al at ttl rs (rNode s, rStore s) = (n, st)"
  shows "runOk (s\<lparr>rNode := n, rStore := st\<rparr>)"
proof -
  have node: "nodeOk (rNode s) (rStore s)" using ok by (simp add: runOk_def)
  have "connsOk (s\<lparr>rNode := n, rStore := st\<rparr>)"
    using ok grows_update[OF node upd] by (intro connsOk_grows) (simp_all add: runOk_def)
  moreover have "balanced (s\<lparr>rNode := n, rStore := st\<rparr>)"
    using ok outstanding_update[OF node _ upd] by (intro balanced_grows) (simp_all add: runOk_def)
  ultimately show ?thesis using update_owned(6)[OF node upd] by (simp add: runOk_def)
qed

lemma inFlight_remove:
  assumes "i < length l"
  shows "sum_list (map (f :: 'a \<Rightarrow> int64) l) = f (l ! i) + sum_list (map f (take i l @ drop (Suc i) l))"
proof -
  have "l = take i l @ l ! i # drop (Suc i) l" using assms by (rule id_take_nth_drop)
  then have "sum_list (map f l) = sum_list (map f (take i l @ l ! i # drop (Suc i) l))" by simp
  then show ?thesis by simp
qed

lemma runOk_restored:
  assumes ok: "runOk s" and i: "i < length (rBatches s)"
    and res: "restoreTraffic (rBatches s ! i) (rNode s, rStore s) = (n, st)"
  shows "runOk (s\<lparr>rNode := n, rStore := st, rBatches := take i (rBatches s) @ drop (Suc i) (rBatches s)\<rparr>)"
    (is "runOk ?t")
proof -
  have node: "nodeOk (rNode s) (rStore s)" using ok by (simp add: runOk_def)
  note R = restoreTraffic_outstanding[OF node res]
  have "connsOk (s\<lparr>rNode := n, rStore := st\<rparr>)"
    using ok R by (intro connsOk_grows) (simp_all add: runOk_def)
  then have "connsOk ?t" by (simp add: connsOk_def connOk_def)
  moreover have "balanced ?t"
    unfolding balanced_def
  proof (intro allI impI)
    fix d and uid :: int assume uid: "uid > 0"
    have "rMoved s d uid = rReported s d uid + inFlight s d uid + outstanding d (rNode s) (rStore s) uid"
      using ok uid by (simp add: runOk_def balanced_def)
    then show "rMoved ?t d uid = rReported ?t d uid + inFlight ?t d uid + outstanding d (rNode ?t) (rStore ?t) uid"
      using R uid inFlight_remove[OF i, of "\<lambda>b. entriesOf d b uid"] by (simp add: inFlight_def)
  qed
  ultimately show ?thesis using R by (simp add: runOk_def)
qed

lemma runOk_acknowledged:
  assumes ok: "runOk s" and i: "i < length (rBatches s)"
  shows "runOk (s\<lparr>rBatches := take i (rBatches s) @ drop (Suc i) (rBatches s),
    rReported := (\<lambda>d u. rReported s d u + entriesOf d (rBatches s ! i) u)\<rparr>)"
  using ok inFlight_remove[OF i, of "\<lambda>b. entriesOf d b u" for d u]
  by (simp add: runOk_def connsOk_def connOk_def balanced_def inFlight_def)

lemma entriesOf_snapshot:
  assumes ok: "nodeOk n st" and snap: "snapshot trafficMin onlineMin (n, st) = ((traffic, al), n', st')"
    and low: "trafficMin \<le> 1" and small: "countable n st" and uid: "uid > 0"
  shows "entriesOf d traffic uid = outstanding d n st uid"
proof -
  have "reportable trafficMin (outstandingTotal n st uid) \<longleftrightarrow> outstanding Up n st uid \<noteq> 0 \<or> outstanding Down n st uid \<noteq> 0"
    using small uid unfolding outstandingTotal_def countable_def by (intro reportable_all[OF low]) blast
  then show ?thesis
    unfolding entriesOf_def snapshot_traffic[OF ok snap uid] by (cases d) auto
qed

lemma runOk_snapped:
  assumes ok: "runOk s" and snap: "snapshot trafficMin onlineMin (rNode s, rStore s) = ((traffic, al), n, st)"
    and low: "trafficMin \<le> 1" and small: "countable (rNode s) (rStore s)"
  shows "runOk (s\<lparr>rNode := n, rStore := st, rBatches := traffic # rBatches s\<rparr>)" (is "runOk ?t")
proof -
  have node: "nodeOk (rNode s) (rStore s)" and conns: "connsOk s" and bal: "balanced s" using ok by (simp_all add: runOk_def)
  note S = snapshot_owned[OF node snap]
  have act: "isActive (rStore s) c" if "(c, uid, False) \<in> set (rConns s)" for c uid
  proof -
    have "c < allocated (rStore s)" using connsOkD(3)[OF conns that] by (simp add: connOk_def)
    note count = connsOkD(2)[OF conns this]
    have "openOn (rConns s) c < 2 ^ 31"
      using openOn_le[of "rConns s" c] connsOkD(1)[OF conns] by (rule order.strict_trans1)
    then show ?thesis
      unfolding isActive_def by (rule active_positive[OF count openOn_pos[OF that]])
  qed
  have "connsOk ?t"
  proof (rule connsOkI)
    show "connOk ?t c uid once" if m: "(c, uid, once) \<in> set (rConns ?t)" for c uid once
    proof -
      have c: "c < allocated (rStore s)" "soleOwner (rNode s) c uid"
        "uid > 0 \<longrightarrow> \<not> once \<longrightarrow> c \<in> owned (rNode s) uid"
        using connsOkD(3)[OF conns, of c uid once] m by (simp_all add: connOk_def)
      have "c \<in> owned n uid" if "uid > 0" "\<not> once"
        using c(3) S(2)[of c uid] act[of c uid] m that by simp
      moreover have "soleOwner n c uid" using c(2) S(1) unfolding soleOwner_def by blast
      ultimately show ?thesis using c(1) S(3) by (simp add: connOk_def)
    qed
  qed (use connsOkD(1,2)[OF conns] S(3,4) in simp_all)
  moreover have "balanced ?t"
    using bal entriesOf_snapshot[OF node snap low small] snapshot_clears[OF node snap]
    by (simp add: balanced_def inFlight_def)
  ultimately show ?thesis using S(6) by (simp add: runOk_def)
qed


lemma outstanding_cells:
  "(\<And>c. c \<in> owned n u \<Longrightarrow> bytesOf d (cells st' c) = bytesOf d (cells st c)) \<Longrightarrow> outstanding d n st' u = outstanding d n st u"
  unfolding outstanding_def by (intro sum.cong) simp_all

lemma addActive_eqs [simp]:
  "allocated (addActive c k st) = allocated st"
  "bytesOf d (cells (addActive c k st) e) = bytesOf d (cells st e)"
  "active (cells (addActive c k st) e) = (if e = c then active (cells st e) + k else active (cells st e))"
  by (cases d; simp add: addActive_def)+

lemma outstanding_addActive [simp]: "outstanding d n (addActive c k st) u = outstanding d n st u"
  by (rule outstanding_cells) simp

lemma admit_frame:
  assumes "admit E pick now md proto c (n, st) = (r, n', st')"
  shows "users n' = users n" "counters n' = counters n" "pending n' = pending n"
proof -
  obtain ok n1 where m: "markOnline pick now (User md) (addrText E (Addr (Source md))) n = (ok, n1)"
    by (cases "markOnline pick now (User md) (addrText E (Addr (Source md))) n")
  have "n' = n \<or> n' = n1" using assms by (auto simp: admit_def m split: if_splits)
  then show "users n' = users n" "counters n' = counters n" "pending n' = pending n"
    using markOnline_frame[OF m] by auto
qed

lemma admit_store:
  "admit E pick now md proto c (n, st) = (Tracked e l, n', st') \<Longrightarrow> st' = addActive c 1 st"
  "admit E pick now md proto c (n, st) = (Closed, n', st') \<Longrightarrow> st' = st"
proof -
  obtain ok n1 where m: "markOnline pick now (User md) (addrText E (Addr (Source md))) n = (ok, n1)"
    by (cases "markOnline pick now (User md) (addrText E (Addr (Source md))) n")
  show "admit E pick now md proto c (n, st) = (Tracked e l, n', st') \<Longrightarrow> st' = addActive c 1 st"
    "admit E pick now md proto c (n, st) = (Closed, n', st') \<Longrightarrow> st' = st"
    by (auto simp: admit_def m split: if_splits)
qed

lemma runOk_opened:
  assumes ok: "runOk s" and c: "node_counter (rNode s) (User md) = Some c" "map_of (users (rNode s)) (User md) = Some uid"
    and adm: "admit E pick now md proto c (rNode s, rStore s) = (Tracked c l, n, st)"
    and len: "length (rConns s) < 2 ^ 31 - 1"
  shows "runOk (s\<lparr>rNode := n, rStore := st, rConns := (c, uid, False) # rConns s\<rparr>)" (is "runOk ?t")
proof -
  have own: "c \<in> owned (rNode s) uid" using c by (intro owned_current[OF c(2)]) (simp add: node_counter_def)
  note F = admit_frame[OF adm] and st = admit_store(1)[OF adm]
  have 1: "runOk (s\<lparr>rNode := n\<rparr>)" by (rule runOk_frame[OF ok F])
  then have node: "nodeOk n (rStore s)" and C: "connsOk (s\<lparr>rNode := n\<rparr>)" and bal: "balanced (s\<lparr>rNode := n\<rparr>)"
    by (simp_all add: runOk_def)
  have own': "c \<in> owned n uid" using own owned_frame[OF F] by simp
  have uniq: "soleOwner n c uid" unfolding soleOwner_def using nodeOkD(7)[OF node _ own'] by blast
  have "connsOk ?t"
  proof (rule connsOkI)
    fix e assume "e < allocated (rStore ?t)"
    then have "active (cells (rStore s) e) = of_nat (openOn (rConns s) e)"
      using connsOkD(2)[OF C, of e] by (simp add: st)
    then show "active (cells (rStore ?t) e) = of_nat (openOn (rConns ?t) e)"
      by (cases "e = c") (simp_all add: st openOn_def)
  next
    fix e v b assume "(e, v, b) \<in> set (rConns ?t)"
    then have "e = c \<and> v = uid \<or> (e, v, b) \<in> set (rConns s)" by auto
    then show "connOk ?t e v b"
    proof
      assume "e = c \<and> v = uid"
      then show ?thesis using own' nodeOkD(5)[OF node own'] uniq by (simp add: connOk_def st)
    next
      assume "(e, v, b) \<in> set (rConns s)"
      then show ?thesis using connsOkD(3)[OF C, of e v b] by (simp add: connOk_def st)
    qed
  qed (use len in simp)
  moreover have "balanced ?t" using bal by (simp add: balanced_def inFlight_def st)
  ultimately show ?thesis using node by (simp add: runOk_def st)
qed

lemma runOk_refused:
  assumes ok: "runOk s" and adm: "admit E pick now md proto c (rNode s, rStore s) = (Closed, n, st)"
  shows "runOk (s\<lparr>rNode := n, rStore := st\<rparr>)"
proof -
  have "st = rStore s" "users n = users (rNode s)" "counters n = counters (rNode s)" "pending n = pending (rNode s)"
    using admit_store(2)[OF adm] admit_frame[OF adm] by simp_all
  then have "s\<lparr>rNode := n, rStore := st\<rparr> = s\<lparr>rNode := n\<rparr>" "runOk (s\<lparr>rNode := n\<rparr>)"
    using runOk_frame[OF ok] by simp_all
  then show ?thesis by simp
qed

lemma runOk_transfer:
  assumes ok: "runOk s" and c: "(c, uid, False) \<in> set (rConns s)"
  shows "runOk (s\<lparr>rStore := addTraffic c up down (rStore s),
    rMoved := (\<lambda>d u. rMoved s d u + (if u = uid then case d of Up \<Rightarrow> up | Down \<Rightarrow> down else 0))\<rparr>)" (is "runOk ?t")
proof -
  have node: "nodeOk (rNode s) (rStore s)" and C: "connsOk s" and bal: "balanced s" using ok by (simp_all add: runOk_def)
  have own: "soleOwner (rNode s) c uid" "uid > 0 \<longrightarrow> c \<in> owned (rNode s) uid"
    using connsOkD(3)[OF C c] by (simp_all add: connOk_def)
  have out: "outstanding d (rNode s) (addTraffic c up down (rStore s)) u
      = outstanding d (rNode s) (rStore s) u + (if u = uid then case d of Up \<Rightarrow> up | Down \<Rightarrow> down else 0)" if "u > 0" for d u
  proof (cases "uid > 0")
    case True
    with own(2) outstanding_add[OF node] show ?thesis by (cases d) simp_all
  next
    case False
    with that own(1) have "u \<noteq> uid" "c \<notin> owned (rNode s) u" unfolding soleOwner_def by auto
    then show ?thesis by (cases d) (auto intro!: outstanding_cells simp: addTraffic_def)
  qed
  have "connsOk ?t" using C by (simp add: connsOk_def connOk_def)
  moreover have "balanced ?t" using bal out by (simp add: balanced_def inFlight_def)
  ultimately show ?thesis using node by (simp add: runOk_def)
qed

lemma openOn_split: "openOn (xs @ (c, u, b) # ys) e = openOn xs e + openOn ys e + (if e = c \<and> \<not> b then 1 else 0)"
  by (simp add: openOn_def)

lemma openOn_update:
  assumes "i < length l" "l ! i = (c, u, False)"
  shows "openOn l e = openOn (l[i := (c, u, True)]) e + (if e = c then 1 else 0)"
proof -
  have "l = take i l @ (c, u, False) # drop (Suc i) l" using assms id_take_nth_drop[of i l] by simp
  then have "openOn l e = openOn (take i l @ (c, u, False) # drop (Suc i) l) e" by simp
  then show ?thesis
    unfolding upd_conv_take_nth_drop[OF assms(1)] openOn_split by simp
qed

lemma runOk_closed:
  assumes ok: "runOk s" and i: "i < length (rConns s)" "rConns s ! i = (c, uid, once)"
    and cl: "trackedConn_Close (c, once) (rStore s) = ((c', once'), st)"
  shows "runOk (s\<lparr>rStore := st, rConns := (rConns s)[i := (c', uid, once')]\<rparr>)" (is "runOk ?t")
proof (cases once)
  case True
  with cl have "c' = c" "once' = once" "st = rStore s" by (auto simp: trackedConn_Close_def)
  then have "?t = s" using i list_update_id[of "rConns s" i] by (cases s) simp
  with ok show ?thesis by simp
next
  case False
  with cl have e: "c' = c" "once' = True" "st = addActive c (- 1) (rStore s)" by (auto simp: trackedConn_Close_def)
  have C: "connsOk s" using ok by (simp add: runOk_def)
  have old: "(c, uid, False) \<in> set (rConns s)" using i False nth_mem by metis
  have "connsOk ?t"
  proof (rule connsOkI)
    fix k v b assume "(k, v, b) \<in> set (rConns ?t)"
    then have "(k, v, b) \<in> set (rConns s) \<or> k = c \<and> v = uid \<and> b"
      using set_update_subset_insert[of "rConns s" i "(c, uid, True)"] by (auto simp: e)
    then show "connOk ?t k v b"
      using connsOkD(3)[OF C, of k v b] connsOkD(3)[OF C old] by (auto simp: connOk_def e)
  next
    fix k assume "k < allocated (rStore ?t)"
    then have "active (cells (rStore s) k) = of_nat (openOn (rConns s) k)"
      using connsOkD(2)[OF C, of k] by (simp add: e)
    then show "active (cells (rStore ?t) k) = of_nat (openOn (rConns ?t) k)"
      using openOn_update[OF i(1), of c uid k] i(2) False by (cases "k = c") (simp_all add: e)
  qed (use connsOkD(1)[OF C] in simp)
  moreover have "balanced ?t" using ok by (simp add: runOk_def balanced_def inFlight_def e)
  ultimately show ?thesis using ok by (simp add: runOk_def e)
qed


lemma runOk_step:
  assumes "step s t" "runOk s"
  shows "runOk t"
  using assms
proof (induction rule: step.induct)
  case users
  then show ?case by (rule runOk_users[rotated])
next
  case alive
  then show ?case by (rule runOk_frame) (simp_all add: updateAliveListWithState_def)
next
  case opened
  then show ?case by (intro runOk_opened)
next
  case refused
  then show ?case by (intro runOk_refused)
next
  case transfer
  then show ?case by (intro runOk_transfer)
next
  case closed
  then show ?case by (intro runOk_closed)
next
  case snapped
  then show ?case by (intro runOk_snapped)
next
  case acknowledged
  then show ?case by (intro runOk_acknowledged)
next
  case restored
  then show ?case by (intro runOk_restored)
next
  case restoredAlive
  then show ?case by (rule runOk_frame) (simp_all add: restoreAlive_frame)
qed

lemma runOk_reachable: "rtranclp step startRun s \<Longrightarrow> runOk s"
  by (induction rule: rtranclp_induct) (simp_all add: runOk_start runOk_step)

section \<open>Bounds on online addresses\<close>

definition setsOk :: "(string, string list) gomap \<Rightarrow> bool" where
  "setsOk m \<longleftrightarrow> (\<forall>user. distinct (getd [] m user) \<and> length (getd [] m user) \<le> maxRestoredAliveIPsPerUser)"

lemma setsOk_empty [simp]: "setsOk []"
  by (simp add: setsOk_def)

lemma setsOk_update:
  "setsOk m \<Longrightarrow> distinct ips \<Longrightarrow> length ips \<le> maxRestoredAliveIPsPerUser \<Longrightarrow> setsOk (AList.update user ips m)"
  by (simp add: setsOk_def)

lemma setsOk_delete: "setsOk m \<Longrightarrow> setsOk (AList.delete user m)"
  by (simp add: setsOk_def)

lemma setsOkD: "setsOk m \<Longrightarrow> distinct (getd [] m user)" "setsOk m \<Longrightarrow> length (getd [] m user) \<le> maxRestoredAliveIPsPerUser"
  by (simp_all add: setsOk_def)

lemma addOnlineIP_bound:
  assumes "distinct ips" "length ips \<le> limit" "limit > 0"
  shows "distinct (addOnlineIPWithLimit pick ips ip limit)" "length (addOnlineIPWithLimit pick ips ip limit) \<le> limit"
proof -
  have "ips ! (pick ips mod length ips) \<in> set ips" if "length ips > 0" using that by simp
  then have len: "length (remove1 (ips ! (pick ips mod length ips)) ips) = length ips - 1" if "length ips > 0"
    using that by (simp add: length_remove1)
  show "distinct (addOnlineIPWithLimit pick ips ip limit)"
    using assms by (simp add: addOnlineIPWithLimit_def)
  have "length (List.insert ip xs) \<le> Suc (length xs)" for xs :: "string list" by (simp add: List.insert_def)
  with len assms show "length (addOnlineIPWithLimit pick ips ip limit) \<le> limit"
    by (auto simp: addOnlineIPWithLimit_def List.insert_def)
qed

lemma limit_pos [simp]: "maxRestoredAliveIPsPerUser > 0"
  by (simp add: maxRestoredAliveIPsPerUser_def)

lemma setsOk_add: "setsOk m \<Longrightarrow> setsOk (AList.update user (addOnlineIPWithLimit pick (getd [] m user) ip maxRestoredAliveIPsPerUser) m)"
  by (intro setsOk_update addOnlineIP_bound setsOkD) simp_all

lemma setsOk_markOnline:
  assumes "markOnline pick now user ip n = (ok, n')" "setsOk (online n)"
  shows "setsOk (online n')"
  using assms by (auto simp: markOnline_def setsOk_add split: if_splits option.splits)

lemma restoreIPs_bound:
  assumes "distinct ips" "length ips \<le> maxRestoredAliveIPsPerUser"
  shows "let r = fold (\<lambda>value ips. let ip = restoredIP value
      in if ip \<noteq> [] then addOnlineIPWithLimit pick ips ip maxRestoredAliveIPsPerUser else ips) vals ips
    in distinct r \<and> length r \<le> maxRestoredAliveIPsPerUser"
  using assms
proof (induction vals arbitrary: ips)
  case (Cons v vs)
  then show ?case using addOnlineIP_bound[OF Cons.prems limit_pos] by (simp add: Let_def)
qed simp

lemma setsOk_restoreAlive: "setsOk (online n) \<Longrightarrow> setsOk (online (restoreAlive pick l n))"
proof -
  have one: "setsOk (online (restoreAliveOf pick e n))" if "setsOk (online n)" for e n
  proof (cases "find (\<lambda>(user, userID). userID = fst e) (users n)")
    case None
    with that show ?thesis by (simp add: restoreAliveOf_def split_beta)
  next
    case (Some a)
    with restoreIPs_bound[OF setsOkD(1)[OF that] setsOkD(2)[OF that], where user1 = "fst a" and pick = pick and vals = "snd e"] show ?thesis
      by (simp add: restoreAliveOf_def split_beta Let_def setsOk_update[OF that])
  qed
  show "setsOk (online n) \<Longrightarrow> setsOk (online (restoreAlive pick l n))"
    unfolding restoreAlive_def by (induction l arbitrary: n) (simp_all add: one)
qed

lemma setsOk_carry: "setsOk old \<Longrightarrow> setsOk m \<Longrightarrow> setsOk (carrySet same old key m)"
proof (cases "map_of old key")
  case (Some ips)
  moreover assume "setsOk old" "setsOk m"
  moreover have "getd [] old key = ips" using Some by (simp add: getd_def)
  ultimately show ?thesis using setsOkD[of old key] by (simp add: carrySet_def setsOk_update)
qed (simp add: carrySet_def)

lemma carryCounter_sets:
  "online (fst (carryCounter n key uid s)) = online (fst s)" "previous (fst (carryCounter n key uid s)) = previous (fst s)"
  by (cases s; simp add: carryCounter_def Let_def newCounter_def split: option.split)+

lemma setsOk_updateUser:
  assumes "setsOk (online n)" "setsOk (previous n)" "setsOk (online (fst s))" "setsOk (previous (fst s))"
  shows "setsOk (online (fst (updateUser t n user s))) \<and> setsOk (previous (fst (updateUser t n user s)))"
  using assms by (simp add: updateUser_def Let_def split_beta setsOk_carry carryCounter_sets)

lemma retire_sets: "online (fold (retireCounter n) l nx) = online nx \<and> previous (fold (retireCounter n) l nx) = previous nx"
  by (induction l arbitrary: nx) (simp_all add: retireCounter_def split_beta)

lemma setsOk_users:
  assumes "updateUsersWithAliveStateForNodeType t i us al at ttl rs (n, st) = (n', st')"
    "setsOk (online n)" "setsOk (previous n)"
  shows "setsOk (online n')" "setsOk (previous n')"
proof -
  have loop: "setsOk (online (fst (fold (updateUser t n) us s))) \<and> setsOk (previous (fst (fold (updateUser t n) us s)))"
    if "setsOk (online (fst s))" "setsOk (previous (fst s))" for s
    using that by (induction us arbitrary: s) (simp_all add: setsOk_updateUser[OF assms(2,3)])
  have "\<exists>start. n' = fold (retireCounter n) (counters n) (fst (fold (updateUser t n) us (start, st)))
      \<and> online start = [] \<and> previous start = []"
    using assms(1) by (auto simp: updateUsersWithAliveStateForNodeType_def Let_def split_beta intro!: exI)
  then obtain start where "n' = fold (retireCounter n) (counters n) (fst (fold (updateUser t n) us (start, st)))"
    "online start = []" "previous start = []" by blast
  then show "setsOk (online n')" "setsOk (previous n')" using loop[of "(start, st)"] by (simp_all add: retire_sets)
qed

lemma setsOk_snapshotCounter:
  assumes "setsOk (ssOnline s)" "setsOk (ssPrevious s)"
  shows "setsOk (ssOnline (snapshotCounter n m p s)) \<and> setsOk (ssPrevious (snapshotCounter n m p s))"
  using assms setsOkD[OF assms(1), of "fst p"]
  by (simp add: snapshotCounter_def split_beta Let_def setsOk_delete setsOk_update split: option.split)

lemma setsOk_snapshot:
  assumes "snapshot trafficMin onlineMin (n, st) = (r, n', st')" "setsOk (online n)"
  shows "setsOk (online n')" "setsOk (previous n')"
proof -
  have loop: "setsOk (ssOnline (fold (snapshotCounter n onlineMin) l s)) \<and> setsOk (ssPrevious (fold (snapshotCounter n onlineMin) l s))"
    if "setsOk (ssOnline s)" "setsOk (ssPrevious s)" for l s
    using that by (induction l arbitrary: s) (simp_all add: setsOk_snapshotCounter)
  show "setsOk (online n')" "setsOk (previous n')"
    using assms loop by (auto simp: snapshot_def Let_def split_beta)
qed


lemma admit_sets:
  assumes "admit E pick now md proto c (n, st) = (r, n', st')" "setsOk (online n)" "setsOk (previous n)"
  shows "setsOk (online n')" "setsOk (previous n')"
proof -
  obtain ok n1 where m: "markOnline pick now (User md) (addrText E (Addr (Source md))) n = (ok, n1)"
    by (cases "markOnline pick now (User md) (addrText E (Addr (Source md))) n")
  have "n' = n \<or> n' = n1" using assms(1) by (auto simp: admit_def m split: if_splits)
  then show "setsOk (online n')" "setsOk (previous n')"
    using assms(2,3) setsOk_markOnline[OF m] markOnline_frame(5)[OF m] by auto
qed

lemma restoreEntry_sets: "online (fst (restoreEntry e s)) = online (fst s) \<and> previous (fst (restoreEntry e s)) = previous (fst s)"
  by (cases s) (simp add: restoreEntry_def counterForUIDLocked_def newCounter_def Let_def split: option.split list.split)

lemma restoreTraffic_sets:
  "online (fst (restoreTraffic l s)) = online (fst s) \<and> previous (fst (restoreTraffic l s)) = previous (fst s)"
  unfolding restoreTraffic_def by (induction l arbitrary: s) (simp_all add: restoreEntry_sets)

lemma restoreAlive_previous: "previous (restoreAlive pick l n) = previous n"
  unfolding restoreAlive_def by (induction l arbitrary: n) (simp_all add: restoreAliveOf_def split_beta split: option.split)

lemma setsOk_step:
  assumes "step s t" "setsOk (online (rNode s)) \<and> setsOk (previous (rNode s))"
  shows "setsOk (online (rNode t)) \<and> setsOk (previous (rNode t))"
  using assms
proof (induction rule: step.induct)
  case users
  then show ?case by (simp add: setsOk_users)
next
  case opened
  then show ?case using admit_sets by simp
next
  case refused
  then show ?case using admit_sets by simp
next
  case snapped
  then show ?case using setsOk_snapshot by simp
next
  case (restored i s n st)
  then show ?case using restoreTraffic_sets[of "rBatches s ! i" "(rNode s, rStore s)"] by simp
qed (simp_all add: updateAliveListWithState_def setsOk_restoreAlive restoreAlive_previous)


section \<open>Device limit\<close>

text \<open>The addresses of a user that have not been reported before, and a sequence of connection attempts.\<close>

definition newDevices :: "nodeTraffic \<Rightarrow> string \<Rightarrow> string list" where
  "newDevices n user = filter (\<lambda>i. i \<notin> set (getd [] (previous n) user)) (getd [] (online n) user)"

fun attempts :: "(string list \<Rightarrow> nat) \<Rightarrow> string \<Rightarrow> (int \<times> string) list \<Rightarrow> nodeTraffic \<Rightarrow> nodeTraffic" where
  "attempts pick user [] n = n"
| "attempts pick user ((now, ip) # rs) n = attempts pick user rs (snd (markOnline pick now user ip n))"

lemma filter_insert_length: "length (filter P (List.insert x xs)) \<le> length (filter P xs) + (if P x \<and> x \<notin> set xs then 1 else 0)"
  by (simp add: List.insert_def)

lemma filter_remove1_length: "length (filter P (remove1 x xs)) \<le> length (filter P xs)"
  by (induction xs) auto

lemma newDevices_add:
  "length (filter P (addOnlineIPWithLimit pick ips ip limit)) \<le> length (filter P ips) + (if P ip \<and> ip \<notin> set ips then 1 else 0)"
proof -
  let ?r = "remove1 (ips ! (pick ips mod length ips)) ips"
  have "length (filter P (List.insert ip ?r)) \<le> length (filter P ips) + (if P ip \<and> ip \<notin> set ?r then 1 else 0)"
    using filter_insert_length[of P ip ?r] filter_remove1_length[of P _ ips] by (meson add_le_mono1 order.trans)
  moreover have "ip \<notin> set ips \<Longrightarrow> ip \<notin> set ?r" by (meson notin_set_remove1)
  ultimately show ?thesis
    using filter_insert_length[of P ip ips] filter_remove1_length[of P "ips ! (pick ips mod length ips)" ips]
    by (auto simp: addOnlineIPWithLimit_def)
qed

lemma markOnline_limit:
  assumes "map_of (users n) user = Some uid" "device (getd noLimit (limits n) user) = limit" "limit > 0"
    "aliveListFresh n now" "getd 0 (alive n) uid = remote"
  shows "int (length (newDevices (snd (markOnline pick now user ip n)) user)) + remote
    \<le> max limit (int (length (newDevices n user)) + remote)"
proof (cases "exceedsDeviceLimitLocked n now user uid ip \<or> ip = [] \<or> ip = ''<invalid IP>''")
  case True
  then show ?thesis using assms(1) by (auto simp: markOnline_def)
next
  case False
  let ?P = "\<lambda>i. i \<notin> set (getd [] (previous n) user)" and ?ips = "getd [] (online n) user"
  have new: "newDevices (snd (markOnline pick now user ip n)) user
      = filter ?P (addOnlineIPWithLimit pick ?ips ip maxRestoredAliveIPsPerUser)"
    using False assms(1) by (simp add: markOnline_def newDevices_def)
  have "?P ip \<and> ip \<notin> set ?ips \<Longrightarrow> remote + int (length (newDevices n user)) < limit"
    using False assms by (auto simp: exceedsDeviceLimitLocked_def newDevices_def Let_def)
  with newDevices_add[of ?P pick ?ips ip maxRestoredAliveIPsPerUser] show ?thesis
    unfolding new by (auto simp: newDevices_def split: if_splits)
qed

lemma markOnline_keeps:
  "users (snd (markOnline pick now user ip n)) = users n" "limits (snd (markOnline pick now user ip n)) = limits n"
  "alive (snd (markOnline pick now user ip n)) = alive n" "aliveAt (snd (markOnline pick now user ip n)) = aliveAt n"
  "aliveTTL (snd (markOnline pick now user ip n)) = aliveTTL n"
  by (simp_all add: markOnline_def split: option.split)

lemma aliveListFresh_markOnline: "aliveListFresh (snd (markOnline pick now user ip n)) t = aliveListFresh n t"
  unfolding aliveListFresh_def markOnline_keeps ..

section \<open>Waiting\<close>

lemma waitRateLoop_spec:
  assumes "waitRateLoop waitN burst done0 n = (r, waited)" "burst > 0" "n \<ge> 0"
  shows "\<exists>chunks. waited = chunks @ done0 \<and> (\<forall>k \<in> set chunks. 0 < k \<and> k \<le> burst) \<and> sum_list chunks \<le> n
    \<and> (r = None \<longrightarrow> sum_list chunks = n) \<and> burst * (int (length chunks) - 1) < max 1 n"
  using assms
proof (induction waitN burst done0 n rule: waitRateLoop.induct)
  case (1 waitN burst done0 n)
  show ?case
  proof (cases "n \<le> 0")
    case True
    with "1.prems" show ?thesis by (auto simp: waitRateLoop.simps[of _ _ _ n])
  next
    case False
    let ?chunk = "min n burst"
    show ?thesis
    proof (cases "waitN done0 ?chunk")
      case (Some e)
      with False "1.prems" have "r = Some e" "waited = done0"
        by (simp_all add: waitRateLoop.simps[of _ _ _ n] Let_def)
      with False "1.prems"(2) show ?thesis by simp
    next
      case None
      with False "1.prems" have rec: "waitRateLoop waitN burst (?chunk # done0) (n - ?chunk) = (r, waited)"
        by (simp add: waitRateLoop.simps[of _ _ _ n] Let_def)
      from "1.IH"[OF _ refl None rec "1.prems"(2)] False "1.prems"(2) obtain chunks where
        c: "waited = chunks @ ?chunk # done0" "\<forall>k \<in> set chunks. 0 < k \<and> k \<le> burst" "sum_list chunks \<le> n - ?chunk"
          "r = None \<longrightarrow> sum_list chunks = n - ?chunk" "burst * (int (length chunks) - 1) < max 1 (n - ?chunk)" by auto
      have "burst * (int (length (chunks @ [?chunk])) - 1) < max 1 n"
      proof (cases "n \<le> burst")
        case True
        with c(3) have le: "sum_list chunks \<le> 0" by simp
        have "chunks = []"
        proof (cases chunks)
          case (Cons k ks)
          with c(2) have "k > 0" "\<And>x. x \<in> set ks \<Longrightarrow> 0 \<le> x" by auto
          then have "sum_list ks \<ge> 0" by (intro sum_list_nonneg)
          with le Cons \<open>k > 0\<close> show ?thesis by simp
        qed simp
        with False show ?thesis by simp
      next
        case False
        with c(5) "1.prems"(2) show ?thesis by (auto simp: min_def algebra_simps max_def split: if_splits)
      qed
      with c False "1.prems"(2) show ?thesis by (intro exI[of _ "chunks @ [?chunk]"]) auto
    qed
  qed
qed


section \<open>Properties\<close>



text \<open>C25: a report that fails is undone.  Restoring the entries of a snapshot gives every reported user the outstanding traffic
  of before, whatever has happened to the user's counters.\<close>

theorem failed_report_restored:
  assumes "nodeOk n st" and "snapshot trafficMin onlineMin (n, st) = ((traffic, al), n', st')"
    and "restoreTraffic traffic (n', st') = (n'', st'')" and "uid > 0"
    and "reportable trafficMin (outstandingTotal n st uid)"
  shows "outstanding d n'' st'' uid = outstanding d n st uid"
proof -
  have "entriesOf d traffic uid = outstanding d n st uid"
    using snapshot_traffic[OF assms(1,2,4)] assms(5) by (cases d) (simp_all add: entriesOf_def)
  moreover have "outstanding d n'' st'' uid = outstanding d n' st' uid + entriesOf d traffic uid"
    using restoreTraffic_outstanding[OF snapshot_owned(6)[OF assms(1,2)] assms(3)] assms(4) by blast
  ultimately show ?thesis using snapshot_clears[OF assms(1,2,4)] by simp
qed

text \<open>C26: in every run, no user has more than 256 online addresses, nor more than 256 addresses remembered from the last
  report, and no address is kept twice.\<close>

theorem online_bounded:
  assumes "rtranclp step startRun s"
  shows "length (getd [] (online (rNode s)) user) \<le> 256 \<and> distinct (getd [] (online (rNode s)) user)
    \<and> length (getd [] (previous (rNode s)) user) \<le> 256"
proof -
  have "setsOk (online (rNode s)) \<and> setsOk (previous (rNode s))"
    using assms
  proof (induction rule: rtranclp_induct)
    case base
    show ?case by (simp add: startRun_def emptyNode_def)
  next
    case (step s t)
    then show ?case using setsOk_step by simp
  qed
  then show ?thesis by (simp add: setsOk_def maxRestoredAliveIPsPerUser_def)
qed

text \<open>C27: the device limit.  Whatever connections a user attempts while the panel's list of alive devices is fresh, the devices
  that are new on this node and those alive on other nodes together stay within the limit, unless they exceeded it
  before.\<close>

theorem device_limit:
  assumes "map_of (users n) user = Some uid" and "device (getd noLimit (limits n) user) = limit" and "limit > 0"
    and "getd 0 (alive n) uid = remote" and "\<forall>(now, ip) \<in> set rs. aliveListFresh n now"
  shows "int (length (newDevices (attempts pick user rs n) user)) + remote
    \<le> max limit (int (length (newDevices n user)) + remote)"
  using assms
proof (induction rs arbitrary: n)
  case (Cons r rs)
  obtain now ip where r: "r = (now, ip)" by (cases r)
  let ?n = "snd (markOnline pick now user ip n)"
  have "int (length (newDevices (attempts pick user rs ?n) user)) + remote \<le> max limit (int (length (newDevices ?n user)) + remote)"
    using Cons.prems by (intro Cons.IH) (simp_all add: markOnline_keeps aliveListFresh_markOnline)
  moreover have "int (length (newDevices ?n user)) + remote \<le> max limit (int (length (newDevices n user)) + remote)"
    using Cons.prems by (intro markOnline_limit) (simp_all add: r)
  ultimately show ?case by (simp add: r)
qed simp

text \<open>C28: waiting for the rate limiter ends.  The loop asks the limiter for chunks of at least one byte and at most the burst,
  which is what the limiter can grant; without an error the chunks add up to the transferred bytes, and there are at most
  \<^verbatim>\<open>ceil(n / burst)\<close> of them.\<close>

theorem waitRate_chunks:
  assumes "waitRate waitN (Some l) n = (r, waited)" and "Burst l > 0" and "n > 0"
  shows "(\<forall>k \<in> set waited. 0 < k \<and> k \<le> Burst l) \<and> sum_list waited \<le> n \<and> (r = None \<longrightarrow> sum_list waited = n)
    \<and> Burst l * (int (length waited) - 1) < n"
proof -
  have loop: "waitRateLoop waitN (Burst l) [] n = (r, waited)" using assms by (simp add: waitRate_def)
  from waitRateLoop_spec[OF loop assms(2)] assms(3) show ?thesis by (auto simp: max_def)
qed


section \<open>Examples\<close>

text \<open>A node with one user, an open connection of that user, and a transfer.\<close>

definition exampleUser :: UserInfo where
  "exampleUser = \<lparr>uiID = 1, uiUUID = ''u'', uiUsername = [], uiLabel = [], uiSpeedLimit = 0, uiDeviceLimit = 1\<rparr>"

definition exampleNode :: nodeTraffic where
  "exampleNode = emptyNode\<lparr>nodeID := 7, users := [(''u'', 1)], limits := [(''u'', \<lparr>speed = 0, device = 1, limiter = None\<rparr>)],
     counters := [(''u'', 0)], aliveAt := Some 0, aliveTTL := 5\<rparr>"

definition exampleCounters :: counterStore where
  "exampleCounters = emptyStore\<lparr>allocated := 1\<rparr>"

definition exampleEnv :: trackerEnv where
  "exampleEnv = \<lparr>regexpCompile = (\<lambda>_. Err (ENew ''regexp'')), ParsePrefix = (\<lambda>_. Err (ENew ''prefix'')),
     ParseAddr = (\<lambda>_. Err (ENew ''addr'')), saUnwrap = id, saAddrString = Fqdn, saIsIPAddr = (\<lambda>_. False),
     addrText = (\<lambda>_. ''10.0.0.1''), saNetwork = (\<lambda>_. ''tcp'')\<rparr>"

lemma example_update:
  "updateUsersWithAliveStateForNodeType [] 7 [exampleUser] [] (Some 0) 5 noRules (emptyNode, emptyStore) = (exampleNode, exampleCounters)"
  by (simp add: updateUsersWithAliveStateForNodeType_def updateUser_def carryCounter_def updatedUserLimit_def newCounter_def
      userTrackerKey_def carrySet_def retireCounter_def clonePendingCounters_def normalizeAliveListTTL_def
      exampleUser_def exampleNode_def exampleCounters_def emptyNode_def emptyStore_def getd_def fun_upd_idem Let_def)

definition exampleCells :: counterStore where
  "exampleCells = addTraffic 0 5 9 (addActive 0 1 exampleCounters)"

definition exampleOnline :: nodeTraffic where
  "exampleOnline = exampleNode\<lparr>online := [(''u'', [''10.0.0.1''])]\<rparr>"

definition exampleRun :: run where
  "exampleRun = \<lparr>rNode = exampleOnline, rStore = exampleCells, rConns = [(0, 1, False)], rBatches = [],
     rMoved = (\<lambda>d u. if u = 1 then case d of Up \<Rightarrow> 5 | Down \<Rightarrow> 9 else 0), rReported = (\<lambda>_ _. 0)\<rparr>"

lemma example_mark: "markOnline (\<lambda>_. 0) 0 ''u'' ''10.0.0.1'' exampleNode = (True, exampleOnline)"
  by (simp add: markOnline_def exceedsDeviceLimitLocked_def exampleNode_def exampleOnline_def emptyNode_def getd_def
      aliveListFresh_def addOnlineIPWithLimit_def maxRestoredAliveIPsPerUser_def)

lemma example_admit:
  "admit exampleEnv (\<lambda>_. 0) 0 (noInboundContext\<lparr>User := ''u''\<rparr>) [] 0 (exampleNode, exampleCounters)
     = (Tracked 0 None, exampleOnline, addActive 0 1 exampleCounters)"
  by (simp add: admit_def exampleEnv_def example_mark nodeRules_blocks_def noRules_def speedLimiter_def getd_def
      exampleNode_def[THEN arg_cong[of _ _ rules]] exampleOnline_def[THEN arg_cong[of _ _ limits]] emptyNode_def
      exampleNode_def[THEN arg_cong[of _ _ limits]])

lemma example_run: "rtranclp step startRun exampleRun"
proof -
  define s1 where "s1 = startRun\<lparr>rNode := exampleNode, rStore := exampleCounters\<rparr>"
  define s2 where "s2 = s1\<lparr>rNode := exampleOnline, rStore := addActive 0 1 exampleCounters, rConns := (0, 1, False) # rConns s1\<rparr>"
  have a: "step startRun s1"
    unfolding s1_def by (rule step.users[where nodeType = "[]" and i = 7 and us = "[exampleUser]" and al = "[]" and at = "Some 0"
        and ttl = 5 and rs = noRules]) (simp add: startRun_def example_update)
  have b: "step s1 s2"
    unfolding s2_def
    by (rule step.opened[where md = "noInboundContext\<lparr>User := ''u''\<rparr>" and E = exampleEnv and pick = "\<lambda>_. 0" and now = 0 and proto = "[]"])
       (simp_all add: s1_def startRun_def example_admit node_counter_def, simp_all add: exampleNode_def emptyNode_def)
  have c: "step s2 exampleRun"
  proof -
    have "exampleRun = s2\<lparr>rStore := addTraffic 0 5 9 (rStore s2),
        rMoved := (\<lambda>d u. rMoved s2 d u + (if u = 1 then case d of Up \<Rightarrow> 5 | Down \<Rightarrow> 9 else 0))\<rparr>"
      by (auto simp: exampleRun_def s2_def s1_def startRun_def exampleCells_def fun_eq_iff split: direction.split)
    then show ?thesis using step.transfer[of 0 1 s2 5 9] by (simp add: s2_def)
  qed
  have "rtranclp step startRun s1" using a by (rule r_into_rtranclp)
  then have "rtranclp step startRun s2" using b by (rule rtranclp.rtrancl_into_rtrancl)
  then show ?thesis using c by (rule rtranclp.rtrancl_into_rtrancl)
qed

lemma example_owned: "owned exampleOnline u = (if u = 1 then {0} else {})" "owned exampleNode u = (if u = 1 then {0} else {})"
  by (auto simp: owned_def current_def exampleOnline_def exampleNode_def emptyNode_def getd_def split: if_splits)

lemma example_outstanding: "outstanding Up exampleOnline exampleCells 1 = 5" "outstanding Down exampleOnline exampleCells 1 = 9"
  by (simp_all add: outstanding_def example_owned exampleCells_def addTraffic_def addActive_def exampleCounters_def emptyStore_def zeroCounter_def)


theorem online_bounded_witness:
  "rtranclp step startRun exampleRun \<and> getd [] (online (rNode exampleRun)) ''u'' = [''10.0.0.1'']
    \<and> length (getd [] (online (rNode exampleRun)) ''u'') \<le> 256"
  using online_bounded[OF example_run, of "''u''"] example_run by (simp add: exampleRun_def exampleOnline_def getd_def)

definition exampleAfter :: "nodeTraffic \<times> counterStore" where
  "exampleAfter = (exampleNode\<lparr>previous := [(''u'', [''10.0.0.1''])]\<rparr>, addTraffic 0 (- 5) (- 9) exampleCells)"

lemma example_nodeOk: "nodeOk exampleOnline exampleCells"
  using runOk_reachable[OF example_run] by (simp add: runOk_def exampleRun_def)

lemma example_suffix: "intToString 7 = ''7''"
  by code_simp

lemma example_snapshot:
  "snapshot 1 0 (exampleOnline, exampleCells)
     = (([\<lparr>UID = 1, Upload = 5, Download = 9\<rparr>], [(1, [''10.0.0.1_7''])]), exampleAfter)"
  by (simp add: snapshot_def exampleOnline_def exampleNode_def emptyNode_def exampleCells_def snapshotCounter_def addCounterSnapshot_def
      exampleAfter_def addTraffic_def addActive_def exampleCounters_def emptyStore_def zeroCounter_def getd_def reportable_def noTotal_def
      example_suffix fun_eq_iff)


lemma example_reportable: "reportable 1 (outstandingTotal exampleOnline exampleCells 1)"
  by (simp add: outstandingTotal_def example_outstanding reportable_def)


theorem failed_report_restored_witness:
  "outstanding Down (fst (restoreTraffic [\<lparr>UID = 1, Upload = 5, Download = 9\<rparr>] exampleAfter))
     (snd (restoreTraffic [\<lparr>UID = 1, Upload = 5, Download = 9\<rparr>] exampleAfter)) 1 = 9"
  using failed_report_restored[OF example_nodeOk, of 1 0 "[\<lparr>UID = 1, Upload = 5, Download = 9\<rparr>]" _ "fst exampleAfter" "snd exampleAfter"
      "fst (restoreTraffic [\<lparr>UID = 1, Upload = 5, Download = 9\<rparr>] exampleAfter)"
      "snd (restoreTraffic [\<lparr>UID = 1, Upload = 5, Download = 9\<rparr>] exampleAfter)" 1 Down]
  by (simp add: example_snapshot example_reportable example_outstanding)

lemma exampleNode_sel [simp]:
  "users exampleNode = [(''u'', 1)]" "limits exampleNode = [(''u'', \<lparr>speed = 0, device = 1, limiter = None\<rparr>)]"
  "alive exampleNode = []" "online exampleNode = []" "previous exampleNode = []" "aliveAt exampleNode = Some 0" "aliveTTL exampleNode = 5"
  by (simp_all add: exampleNode_def emptyNode_def)

theorem device_limit_witness:
  "int (length (newDevices (attempts (\<lambda>_. 0) ''u'' [(0, ''10.0.0.1''), (1, ''10.0.0.2'')] exampleNode) ''u'')) \<le> 1"
  using device_limit[of exampleNode "''u''" 1 1 0 "[(0, ''10.0.0.1''), (1, ''10.0.0.2'')]" "\<lambda>_. 0"]
  by (simp add: getd_def aliveListFresh_def timeSub_def normalizeAliveListTTL_def newDevices_def[of exampleNode] del: attempts.simps)

lemma example_wait: "waitRate (\<lambda>_ _. None) (Some \<lparr>limiterId = 0, Burst = 4\<rparr>) 10 = (None, [2, 4, 4])"
  by (simp add: waitRate_def waitRateLoop.simps[of _ _ _ 10] waitRateLoop.simps[of _ _ _ 6] waitRateLoop.simps[of _ _ _ 2]
      waitRateLoop.simps[of _ _ _ 0])

theorem waitRate_chunks_witness:
  "sum_list (snd (waitRate (\<lambda>_ _. None) (Some \<lparr>limiterId = 0, Burst = 4\<rparr>) 10)) = 10"
  using waitRate_chunks[OF example_wait] by (simp add: example_wait)

end
