(* ===== verification/DNSModeCorrect.thy ===== *)
theory DNSModeCorrect
  imports DNSMode
begin

text \<open>
  What the DNS router guarantees of its rules: every reference to a rule-set is accounted for over the
  router's life, the actions of built rules fit the mode they were built for, and a rule-set update the
  router accepts leaves its configuration valid for the running mode.
\<close>

section \<open>References\<close>

lemma parseRules_refs:
  assumes "heldAll heldDNSRule newRules = {#}"
    and "parseRules B legacy i raw newRules refs = (res, refs')" "\<forall>n. 0 \<le> refs n"
  shows "refs' = refs \<and> (\<forall>rs. res = Inr rs \<longrightarrow> heldAll heldDNSRule rs = {#})"
  using assms(1,2)
proof (induction raw arbitrary: i newRules)
  case Nil
  then show ?case by auto
next
  case (Cons o1 raw)
  show ?case
  proof (cases "NewDNSRule B o1 True legacy")
    case (Inr r)
    with NewDNSRule_unheld Cons.prems(1) have "heldAll heldDNSRule (newRules @ [r]) = {#}" by simp
    from Cons.IH[OF this, of "Suc i"] Cons.prems(2) Inr show ?thesis by simp
  next
    case (Inl e)
    have "balanced refs (heldAll heldDNSRule newRules) refs"
      using Cons.prems(1) assms(3) by (simp add: balanced_def)
    from dnsRules.closeRules_releases[OF this]
    have "closeRules dnsRule_Close newRules refs = (None, refs)" .
    with Cons.prems(2) Inl show ?thesis by (cases e) auto
  qed
qed

lemma buildRules_refs:
  assumes "buildRules D start raw refs = (res, refs')" "\<forall>n. 0 \<le> refs n"
  shows "case res of Inl e \<Rightarrow> refs' = refs
    | Inr (rs, _, _) \<Rightarrow> balanced refs (heldAll heldDNSRule rs) refs' \<and> (\<not> start \<longrightarrow> refs' = refs)"
proof (cases "checkRules D raw")
  case (Inl e)
  with assms(1) show ?thesis by (auto simp: buildRules_def)
next
  case (Inr m)
  obtain legacy flags where m: "m = (legacy, flags)" by (cases m)
  obtain pr refs1 where p: "parseRules (dsBuilders D) legacy 0 raw [] refs = (pr, refs1)"
    by (cases "parseRules (dsBuilders D) legacy 0 raw [] refs")
  note pp = parseRules_refs[OF _ p assms(2), simplified]
  show ?thesis
  proof (cases pr)
    case (Inl e)
    with assms(1) Inr m p pp show ?thesis by (auto simp: buildRules_def)
  next
    case (Inr newRules)
    note new = this
    show ?thesis
    proof (cases start)
      case False
      with assms new p pp m \<open>checkRules D raw = Inr m\<close> show ?thesis
        by (auto simp: buildRules_def balanced_def)
    next
      case True
      obtain e st refs2 where s:
        "startRules (dnsRule_Start (dsServices D)) ''initialize DNS rule'' newRules refs1 = (e, st, refs2)"
        by (cases "startRules (dnsRule_Start (dsServices D)) ''initialize DNS rule'' newRules refs1") auto
      have bal: "balanced refs (heldAll heldDNSRule newRules) refs1"
        using pp new assms(2) by (simp add: balanced_def)
      note st = accountsD[OF dnsRules.startRules_accounts bal s]
      have close: "closeRules dnsRule_Close st refs2 = (None, refs)"
        by (rule dnsRules.closeRules_releases[OF st(1)])
      from st(2) have "e = None \<or> (\<exists>err. e = Some err \<and> (\<forall>p. err \<noteq> EPanic p))" by (cases e) auto
      with assms(1) True new p m s st(1) close \<open>checkRules D raw = Inr m\<close> show ?thesis
        by (auto simp: buildRules_def split: goerror.splits)
    qed
  qed
qed

text \<open>
  The life of the router's rules: any sequence of calls in which the router is started once.  \<open>base\<close> are
  the references that others hold.
\<close>

inductive dnsLife :: "refcounts \<Rightarrow> dnsRouter \<Rightarrow> refcounts \<Rightarrow> bool" for base where
  life_new: "dnsLife base newRouter base"
| life_init: "dnsLife base r refs \<Longrightarrow> router_Initialize D options r refs = (e, r', refs') \<Longrightarrow>
    dnsLife base r' refs'"
| life_start: "dnsLife base r refs \<Longrightarrow> \<not> routerStarted r \<Longrightarrow> router_Start D r refs = (e, r', refs') \<Longrightarrow>
    dnsLife base r' refs'"
| life_close: "dnsLife base r refs \<Longrightarrow> router_Close r refs = (e, r', refs') \<Longrightarrow> dnsLife base r' refs'"

definition lifeOk :: "refcounts \<Rightarrow> dnsRouter \<Rightarrow> refcounts \<Rightarrow> bool" where
  "lifeOk base r refs \<longleftrightarrow> balanced base (heldAll heldDNSRule (runtimeRules r)) refs \<and>
     (\<not> routerStarted r \<or> closing r \<longrightarrow> runtimeRules r = [])"

lemma balanced_nonneg: "balanced base held refs \<Longrightarrow> \<forall>n. 0 \<le> refs n"
  by (auto simp: balanced_def)

lemma balanced_trans:
  "balanced base a refs \<Longrightarrow> balanced refs b refs' \<Longrightarrow> balanced base (a + b) refs'"
  by (auto simp: balanced_def)

lemma lifeOk_init:
  assumes "lifeOk base r refs" "router_Initialize D options r refs = (e, r', refs')"
  shows "lifeOk base r' refs'"
proof -
  have nn: "\<forall>n. 0 \<le> refs n" using assms(1) balanced_nonneg by (auto simp: lifeOk_def)
  obtain res refs1 where b: "buildRules D False options refs = (res, refs1)"
    by (cases "buildRules D False options refs")
  note bb = buildRules_refs[OF b nn]
  show ?thesis
  proof (cases res)
    case (Inl err)
    with assms b bb show ?thesis by (auto simp: router_Initialize_def lifeOk_def)
  next
    case (Inr v)
    obtain rs l f where v: "v = (rs, l, f)" by (cases v)
    from bb Inr v have "balanced refs (heldAll heldDNSRule rs) refs1" "refs1 = refs" by auto
    with dnsRules.closeRules_releases[OF this(1)]
    have "closeRules dnsRule_Close rs refs1 = (None, refs)" by simp
    with assms b Inr v show ?thesis by (auto simp: router_Initialize_def lifeOk_def)
  qed
qed

lemma lifeOk_start:
  assumes "lifeOk base r refs" "\<not> routerStarted r" "router_Start D r refs = (e, r', refs')"
  shows "lifeOk base r' refs'"
proof -
  have nn: "\<forall>n. 0 \<le> refs n" using assms(1) balanced_nonneg by (auto simp: lifeOk_def)
  have empty: "runtimeRules r = []" using assms(1,2) by (simp add: lifeOk_def)
  obtain res refs1 where b: "buildRules D True (rawRules r) refs = (res, refs1)"
    by (cases "buildRules D True (rawRules r) refs")
  note bb = buildRules_refs[OF b nn]
  show ?thesis
  proof (cases res)
    case (Inl err)
    with assms b bb show ?thesis by (auto simp: router_Start_def)
  next
    case (Inr v)
    obtain rs l f where v: "v = (rs, l, f)" by (cases v)
    from bb Inr v have bal: "balanced refs (heldAll heldDNSRule rs) refs1" by auto
    from balanced_trans[OF _ bal, of base "{#}"] assms(1) empty
    have bal': "balanced base (heldAll heldDNSRule rs) refs1" by (simp add: lifeOk_def)
    from dnsRules.closeRules_releases[OF bal]
    have "closeRules dnsRule_Close rs refs1 = (None, refs)" .
    with assms b Inr v bal' show ?thesis by (auto simp: router_Start_def lifeOk_def split: if_splits)
  qed
qed

lemma lifeOk_close:
  assumes "lifeOk base r refs" "router_Close r refs = (e, r', refs')"
  shows "lifeOk base r' refs' \<and> e = None"
proof -
  from assms(1) have bal: "balanced base (heldAll heldDNSRule (runtimeRules r)) refs" by (simp add: lifeOk_def)
  from dnsRules.closeRules_releases[OF bal]
  have "closeRules dnsRule_Close (runtimeRules r) refs = (None, base)" .
  with assms bal show ?thesis by (auto simp: router_Close_def lifeOk_def balanced_def split: if_splits)
qed

lemma dnsLife_ok: "dnsLife base r refs \<Longrightarrow> \<forall>n. 0 \<le> base n \<Longrightarrow> lifeOk base r refs"
proof (induction rule: dnsLife.induct)
  case life_new
  then show ?case by (simp add: lifeOk_def newRouter_def balanced_def)
qed (auto dest: lifeOk_init lifeOk_start lifeOk_close)

section \<open>An example\<close>

text \<open>One rule that sends the names of the rule-set \<^verbatim>\<open>geo\<close> to the fake server \<^verbatim>\<open>fake\<close>.\<close>

definition exampleDNSRule :: dns_rule_options where
  "exampleDNSRule = DNSRuleOptions RuleTypeDefault
     \<lparr>ddRaw = noRawDefaultDNSRule\<lparr>oRuleSet := [''geo'']\<rparr>,
      ddAction = noDNSRuleAction\<lparr>odAction := RuleActionTypeRoute,
        odRouteOptions := noDNSRouteActionOptions\<lparr>doServer := ''fake''\<rparr>\<rparr>\<rparr> [] [] False noDNSRuleAction"

definition exampleMetadata :: RuleSetMetadata where
  "exampleMetadata = \<lparr>ContainsProcessRule = False, ContainsWIFIRule = False, ContainsIPCIDRRule = False,
     ContainsDNSQueryTypeRule = False, ContainsNonIPCIDRRule = True\<rparr>"

definition exampleLookup :: ruleSetLookup where
  "exampleLookup tag = (if tag = ''geo'' then Some exampleMetadata else None)"

definition exampleTransport :: "string \<Rightarrow> dnsTransport option" where
  "exampleTransport tag = (if tag = ''local'' then Some \<lparr>trTag = tag, trType = ''udp''\<rparr>
     else if tag = ''fake'' then Some \<lparr>trTag = tag, trType = DNSTypeFakeIP\<rparr> else None)"

definition exampleDNS :: dnsServices where
  "exampleDNS = \<lparr>dsBuilders = exampleBuilders, dsRouter = Some exampleLookup, dsTransport = Some exampleTransport,
     dsServices = \<lparr>svcRuleSet = (\<lambda>tag. if tag = ''geo'' then Some \<lparr>setName = ''geo'', setRules = [],
         setMetadata = exampleMetadata\<rparr> else None),
       svcOutbound = (\<lambda>_. None), svcTransport = (\<lambda>_. None)\<rparr>\<rparr>"

definition exampleInit :: "goerror option \<times> dnsRouter \<times> refcounts" where
  "exampleInit = router_Initialize exampleDNS [exampleDNSRule] newRouter (\<lambda>_. 0)"

definition exampleStarted :: "goerror option \<times> dnsRouter \<times> refcounts" where
  "exampleStarted = router_Start exampleDNS (fst (snd exampleInit)) (snd (snd exampleInit))"

lemma exampleStarted_state:
  "fst exampleStarted = None" "snd (snd exampleStarted) ''geo'' = 1"
  "\<not> routerStarted (fst (snd exampleInit))" "\<not> closing (fst (snd exampleInit))"
  by code_simp+

lemma exampleInit_rules: "rawRules (fst (snd exampleInit)) \<noteq> []"
  by code_simp

lemma exampleStarted_eq:
  "router_Start exampleDNS (fst (snd exampleInit)) (snd (snd exampleInit)) =
     (None, fst (snd exampleStarted), snd (snd exampleStarted))"
  using exampleStarted_state(1) by (cases exampleStarted) (simp add: exampleStarted_def)

lemma exampleStarted_life: "dnsLife (\<lambda>_. 0) (fst (snd exampleStarted)) (snd (snd exampleStarted))"
proof -
  have "dnsLife (\<lambda>_. 0) (fst (snd exampleInit)) (snd (snd exampleInit))"
    by (rule life_init[OF life_new, of exampleDNS "[exampleDNSRule]" _ "fst exampleInit"])
      (simp add: exampleInit_def)
  from life_start[OF this exampleStarted_state(3) exampleStarted_eq] show ?thesis .
qed

text \<open>
  C30: The DNS router never leaks or over-releases a reference to a rule-set.  Over any sequence of
  initialisations, a start (whether it succeeds or fails half-way) and closes, the counter of each
  rule-set is what others hold plus the references of the running rules, and closing the router never
  panics and returns every counter to what others hold.
\<close>

theorem dns_references_balanced:
  assumes "dnsLife base r refs" "\<forall>n. 0 \<le> base n"
  shows "(\<forall>n. refs n = base n + int (count (heldAll heldDNSRule (runtimeRules r)) n)) \<and>
    (\<exists>r'. router_Close r refs = (None, r', base))"
proof
  have ok: "lifeOk base r refs" by (rule dnsLife_ok[OF assms])
  then have bal: "balanced base (heldAll heldDNSRule (runtimeRules r)) refs" by (simp add: lifeOk_def)
  then show "\<forall>n. refs n = base n + int (count (heldAll heldDNSRule (runtimeRules r)) n)" by (simp add: balanced_def)
  have close: "closeRules dnsRule_Close (runtimeRules r) refs = (None, base)"
    by (rule dnsRules.closeRules_releases[OF bal])
  have "refs = base" if "closing r" using that ok by (auto simp: lifeOk_def balanced_def)
  with close show "\<exists>r'. router_Close r refs = (None, r', base)"
    by (auto simp: router_Close_def)
qed

theorem dns_references_balanced_witness:
  "snd (snd exampleStarted) ''geo'' = 1 \<and>
   int (count (heldAll heldDNSRule (runtimeRules (fst (snd exampleStarted)))) ''geo'') = 1 \<and>
   (\<exists>r'. router_Close (fst (snd exampleStarted)) (snd (snd exampleStarted)) = (None, r', \<lambda>_. 0))"
proof -
  from dns_references_balanced[OF exampleStarted_life] exampleStarted_state(2) show ?thesis by auto
qed

section \<open>Loops that merge flags\<close>

lemma forIR_indexed:
  assumes "forIR f i xs s = Inr s'" "k < length xs"
  obtains a b where "forIR f i (take k xs) s = Inr a" "f (i + k) (xs ! k) a = Inr b"
    "forIR f (Suc (i + k)) (drop (Suc k) xs) b = Inr s'"
proof -
  have "forIR f i (take k xs @ xs ! k # drop (Suc k) xs) s = Inr s'"
    using assms by (simp add: id_take_nth_drop[symmetric])
  then show thesis using that assms(2) by (auto simp: forIR_append)
qed

text \<open>A loop that only ever adds to the flags keeps what each element adds.\<close>

definition flagsLe :: "dnsRuleModeFlags \<Rightarrow> dnsRuleModeFlags \<Rightarrow> bool" where
  "flagsLe f g \<longleftrightarrow> (disabled f \<longrightarrow> disabled g) \<and> (needed f \<longrightarrow> needed g) \<and>
     (neededFromStrategy f \<longrightarrow> neededFromStrategy g)"

lemma flagsLe_refl [simp]: "flagsLe f f"
  by (simp add: flagsLe_def)

lemma flagsLe_trans: "flagsLe f g \<Longrightarrow> flagsLe g h \<Longrightarrow> flagsLe f h"
  by (simp add: flagsLe_def)

lemma flagsLe_merge [simp]: "flagsLe f (mergeFlags f g)" "flagsLe g (mergeFlags f g)"
  by (simp_all add: flagsLe_def mergeFlags_def)

lemma mergeLoop_le:
  "forIR (\<lambda>i x flags. bindR (h i x) (\<lambda>sub. Ok (mergeFlags flags sub))) i xs f = Inr g \<Longrightarrow> flagsLe f g"
proof (induction xs arbitrary: i f)
  case (Cons x xs)
  then obtain sub where "h i x = Inr sub"
    "forIR (\<lambda>i x flags. bindR (h i x) (\<lambda>sub. Ok (mergeFlags flags sub))) (Suc i) xs (mergeFlags f sub) = Inr g"
    by auto
  with Cons.IH flagsLe_trans[OF flagsLe_merge(1)] show ?case by blast
qed simp

lemma mergeLoop_member:
  "forIR (\<lambda>i x flags. bindR (h i x) (\<lambda>sub. Ok (mergeFlags flags sub))) i xs f = Inr g \<Longrightarrow> x \<in> set xs \<Longrightarrow>
   \<exists>j sub. h j x = Inr sub \<and> flagsLe sub g"
proof (induction xs arbitrary: i f)
  case (Cons y xs)
  then obtain sub where sub: "h i y = Inr sub"
    "forIR (\<lambda>i x flags. bindR (h i x) (\<lambda>sub. Ok (mergeFlags flags sub))) (Suc i) xs (mergeFlags f sub) = Inr g"
    by auto
  from mergeLoop_le[OF sub(2)] have "flagsLe sub g" by (rule flagsLe_trans[OF flagsLe_merge(2)])
  with Cons sub show ?case by auto
qed simp

text \<open>A strategy always asks for the legacy mode.\<close>

definition strategyNeeds :: "dnsRuleModeFlags \<Rightarrow> bool" where
  "strategyNeeds f \<longleftrightarrow> (neededFromStrategy f \<longrightarrow> needed f)"

lemma mergeLoop_strategy:
  assumes "\<And>j x sub. x \<in> set xs \<Longrightarrow> h j x = Inr sub \<Longrightarrow> strategyNeeds sub" "strategyNeeds f"
    "forIR (\<lambda>i x flags. bindR (h i x) (\<lambda>sub. Ok (mergeFlags flags sub))) i xs f = Inr g"
  shows "strategyNeeds g"
proof (rule forIR_keeps[where P = strategyNeeds, OF _ assms(2,3)])
  fix i x s s'
  assume "x \<in> set xs" "strategyNeeds s" "bindR (h i x) (\<lambda>sub. Ok (mergeFlags s sub)) = Inr s'"
  with assms(1) show "strategyNeeds s'" by (fastforce simp: strategyNeeds_def mergeFlags_def)
qed

lemma requirements_default:
  assumes "dnsRuleModeRequirementsInDefaultRule router d ov = Inr f"
  shows "flagsLe \<lparr>disabled = defaultRuleDisablesLegacyDNSMode d \<or> dnsRuleActionDisablesLegacyDNSMode (ddAction d),
      needed = False, neededFromStrategy = dnsRuleActionHasStrategy (ddAction d)\<rparr> f \<and> strategyNeeds f"
    (is "flagsLe ?g f \<and> _")
proof (cases "oRuleSet (ddRaw d) = []")
  case True
  with assms show ?thesis
    by (auto simp: dnsRuleModeRequirementsInDefaultRule_def Let_def flagsLe_def strategyNeeds_def)
next
  case False
  with assms obtain lookup where loop: "forIR (\<lambda>_ tag flags.
      bindR (lookupDNSRuleSetMetadata lookup tag ov) (\<lambda>metadata. Ok
        (flags\<lparr>disabled := disabled flags \<or> ContainsDNSQueryTypeRule metadata,
           needed := needed flags \<or>
             \<not> oRuleSetIPCIDRMatchSource (ddRaw d) \<and> ContainsIPCIDRRule metadata\<rparr>)))
      0 (oRuleSet (ddRaw d)) (?g\<lparr>needed := defaultRuleNeedsLegacyDNSModeFromAddressFilter d \<or>
         dnsRuleActionHasStrategy (ddAction d)\<rparr>) = Inr f"
    by (auto simp: dnsRuleModeRequirementsInDefaultRule_def Let_def split: option.splits)
  show ?thesis
    by (rule forIR_keeps[where P = "\<lambda>f. flagsLe ?g f \<and> strategyNeeds f", OF _ _ loop])
      (auto simp: flagsLe_def strategyNeeds_def)
qed

fun actionOf :: "dns_rule_options \<Rightarrow> DNSRuleActionOpt" where
  "actionOf (DNSRuleOptions ty d md rs neg act) =
     (if ty = [] \<or> ty = RuleTypeDefault then ddAction d else act)"

definition disabling :: "DNSRuleActionOpt \<Rightarrow> bool" where
  "disabling act \<longleftrightarrow> odAction act = RuleActionTypeEvaluate \<or> odAction act = RuleActionTypeRespond"

lemma requirements_strategyNeeds:
  "dnsRuleModeRequirementsInRule router ov rule = Inr f \<Longrightarrow> strategyNeeds f"
proof (induction rule arbitrary: f)
  case (DNSRuleOptions ty d md rs neg act)
  consider (def) "ty = [] \<or> ty = RuleTypeDefault" | (logical) "\<not> (ty = [] \<or> ty = RuleTypeDefault)" "ty = RuleTypeLogical"
    | (other) "\<not> (ty = [] \<or> ty = RuleTypeDefault)" "ty \<noteq> RuleTypeLogical" by blast
  then show ?case
  proof cases
    case def
    with DNSRuleOptions.prems requirements_default show ?thesis by simp
  next
    case logical
    have f0: "strategyNeeds (logicalRuleFlags act)"
      by (simp add: strategyNeeds_def logicalRuleFlags_def Let_def)
    from DNSRuleOptions.prems logical have loop: "forIR (\<lambda>i subRule flags. bindR (withCause (indexed ''sub rule'' i)
        (dnsRuleModeRequirementsInRule router ov subRule)) (\<lambda>sub. Ok (mergeFlags flags sub))) 0 rs
        (logicalRuleFlags act) = Inr f" by simp
    show ?thesis
      by (rule mergeLoop_strategy[OF _ f0 loop]) (auto dest: DNSRuleOptions.IH)
  next
    case other
    with DNSRuleOptions.prems show ?thesis by (auto simp: noFlags_def strategyNeeds_def)
  qed
qed

lemma requirements_action:
  assumes "dnsRuleModeRequirementsInRule router ov rule = Inr f" "NewDNSRule B rule checkServer legacy = Ok r"
  shows "(dnsRuleActionHasStrategy (actionOf rule) \<longrightarrow> neededFromStrategy f) \<and>
    (disabling (actionOf rule) \<longrightarrow> disabled f)"
proof (cases rule)
  case (DNSRuleOptions ty d md rs neg act)
  show ?thesis
  proof (cases "ty = [] \<or> ty = RuleTypeDefault")
    case True
    with assms(1) DNSRuleOptions have "dnsRuleModeRequirementsInDefaultRule router d ov = Inr f" by simp
    from requirements_default[OF this] True DNSRuleOptions show ?thesis
      by (auto simp: flagsLe_def disabling_def defaultRuleDisablesLegacyDNSMode_def)
  next
    case False
    with assms(2) DNSRuleOptions have "ty = RuleTypeLogical" by (simp split: if_splits)
    with False assms(1) DNSRuleOptions have "forIR (\<lambda>i subRule flags. bindR (withCause (indexed ''sub rule'' i)
        (dnsRuleModeRequirementsInRule router ov subRule)) (\<lambda>sub. Ok (mergeFlags flags sub))) 0 rs
        (logicalRuleFlags act) = Inr f" by simp
    from mergeLoop_le[OF this] False DNSRuleOptions show ?thesis
      by (auto simp: flagsLe_def disabling_def logicalRuleFlags_def Let_def action_consts)
  qed
qed

section \<open>Actions of built rules\<close>

lemma NewDefaultDNSRule_action:
  assumes "NewDefaultDNSRule B d legacy = Ok r"
  shows "NewDNSRuleAction (ddAction d) = Ok (dnsRule_Action r)"
proof -
  from assms obtain act r' where act: "NewDNSRuleAction (ddAction d) = Ok act" and
    run: "runSteps (dnsRuleSteps1 B (ddRaw d) @ dnsRuleSteps2 B (ddRaw d) @
      dnsRuleSteps3 legacy (ddRaw d)) (noDefaultRule (oInvert (ddRaw d)) act) = Ok r'"
    and r: "r = DefaultDNSRule r' (oMatchResponse (ddRaw d))"
    by (auto simp: NewDefaultDNSRule_def)
  have f: "\<forall>s \<in> set (dnsRuleSteps1 B (ddRaw d) @ dnsRuleSteps2 B (ddRaw d) @ dnsRuleSteps3 legacy (ddRaw d)).
      fixed.preserves v a s" for v a
    by (simp add: dns_steps)
  from fixed.runSteps_keep[OF f _ run] have "action r' = act" by simp
  with act r show ?thesis by simp
qed

lemma NewDNSRule_checked:
  assumes "NewDNSRule B (DNSRuleOptions ty d md rs neg act) checkServer legacy = Ok r"
  shows "checkDNSRule (actionOf (DNSRuleOptions ty d md rs neg act)) checkServer = Ok ()"
proof (cases "ty = [] \<or> ty = RuleTypeDefault")
  case True
  from assms[unfolded NewDNSRule.simps if_P[OF True]] True show ?thesis by (simp split: if_splits)
next
  case False
  from assms[unfolded NewDNSRule.simps if_not_P[OF False]] False show ?thesis by (auto split: if_splits)
qed

lemma NewDNSRule_action:
  assumes "NewDNSRule B (DNSRuleOptions ty d md rs neg act) checkServer legacy = Ok r"
  shows "NewDNSRuleAction (actionOf (DNSRuleOptions ty d md rs neg act)) = Ok (dnsRule_Action r)"
proof (cases "ty = [] \<or> ty = RuleTypeDefault")
  case True
  from NewDefaultDNSRule_action[OF NewDNSRule_default[OF assms True]] True show ?thesis by simp
next
  case False
  obtain rules a where "r = LogicalDNSRule rules md neg a" "NewDNSRuleAction act = Ok a"
    by (rule NewDNSRule_logical[OF assms False])
  with False show ?thesis by simp
qed

lemma dnsRule_Start_action:
  "dnsRule_Start S r refs = (e, r', refs') \<Longrightarrow> dnsRule_Action r' = dnsRule_Action r"
  by (cases r) (auto simp: abstractDefaultRule_Start_def changedItems_def split: prod.splits option.splits)

lemma eachUntilError_all2:
  assumes "\<And>x s e x' s'. f x s = (e, x', s') \<Longrightarrow> R x x'" "\<And>x. R x x"
    "eachUntilError f xs s = (e, xs', s')"
  shows "list_all2 R xs xs'"
  using assms(3)
proof (induction xs arbitrary: s xs' e)
  case (Cons x xs)
  obtain e1 x1 s1 where f: "f x s = (e1, x1, s1)" by (cases "f x s") auto
  show ?case
  proof (cases e1)
    case None
    with Cons f show ?thesis by (auto split: prod.splits intro: assms(1))
  next
    case (Some err)
    with Cons.prems f assms show ?thesis by (auto intro: list_all2_refl)
  qed
qed simp

lemma startRules_actions:
  assumes "startRules (dnsRule_Start S) what rs refs = (e, rs', refs')"
  shows "map dnsRule_Action rs' = map dnsRule_Action rs"
proof -
  let ?f = "\<lambda>(i, r) refs. let (e, r', refs') = dnsRule_Start S r refs
            in (map_option (causeOf (what @ ''['' @ natToString i @ '']'')) e, (i, r'), refs')"
  obtain irs where irs: "eachUntilError ?f (enumerate 0 rs) refs = (e, irs, refs')" "rs' = map snd irs"
    using assms by (auto simp: startRules_def split: prod.splits)
  have "list_all2 (\<lambda>x y. dnsRule_Action (snd y) = dnsRule_Action (snd x)) (enumerate 0 rs) irs"
    by (rule eachUntilError_all2[OF _ _ irs(1)]) (auto dest: dnsRule_Start_action split: prod.splits)
  then have "map (dnsRule_Action \<circ> snd) irs = map (dnsRule_Action \<circ> snd) (enumerate 0 rs)"
    by (induction rule: list_all2_induct) auto
  then show ?thesis by (simp add: irs(2) flip: map_map)
qed

lemma parseRules_built:
  "parseRules B legacy i raw newRules refs = (Inr rs, refs') \<Longrightarrow>
   \<exists>built. rs = newRules @ built \<and> list_all2 (\<lambda>o' r. NewDNSRule B o' True legacy = Ok r) raw built"
proof (induction raw arbitrary: i newRules)
  case (Cons o1 raw)
  show ?case
  proof (cases "NewDNSRule B o1 True legacy")
    case (Inl e)
    with Cons.prems show ?thesis by (cases e) (auto split: prod.splits option.splits)
  next
    case (Inr r)
    with Cons.prems Cons.IH[of "Suc i" "newRules @ [r]"] show ?thesis by auto
  qed
qed simp

lemma buildRules_built:
  assumes "buildRules D start raw refs = (Inr (rs, legacy, flags), refs')"
  obtains built where "checkRules D raw = Ok (legacy, flags)"
    "list_all2 (\<lambda>o' r. NewDNSRule (dsBuilders D) o' True legacy = Ok r) raw built"
    "map dnsRule_Action rs = map dnsRule_Action built"
proof -
  from assms have check: "checkRules D raw = Ok (legacy, flags)"
    by (auto simp: buildRules_def split: sum.splits prod.splits if_splits option.splits goerror.splits)
  obtain pr refs1 where p: "parseRules (dsBuilders D) legacy 0 raw [] refs = (pr, refs1)"
    by (cases "parseRules (dsBuilders D) legacy 0 raw [] refs")
  from assms check p obtain built where pr: "pr = Inr built"
    by (cases pr) (auto simp: buildRules_def)
  from parseRules_built[OF p[unfolded pr]]
  have b: "list_all2 (\<lambda>o' r. NewDNSRule (dsBuilders D) o' True legacy = Ok r) raw built" by simp
  have "map dnsRule_Action rs = map dnsRule_Action built"
  proof (cases start)
    case True
    obtain e st refs2 where s:
      "startRules (dnsRule_Start (dsServices D)) ''initialize DNS rule'' built refs1 = (e, st, refs2)"
      by (cases "startRules (dnsRule_Start (dsServices D)) ''initialize DNS rule'' built refs1") auto
    with assms check p pr True have "rs = st"
      by (auto simp: buildRules_def split: option.splits goerror.splits prod.splits)
    with startRules_actions[OF s] show ?thesis by simp
  next
    case False
    with assms check p pr show ?thesis by (auto simp: buildRules_def)
  qed
  with check b show thesis by (rule that)
qed

text \<open>The actions the router can run in a mode.\<close>

fun dnsActionOk :: "bool \<Rightarrow> rule_action option \<Rightarrow> bool" where
  "dnsActionOk legacy None = True"
| "dnsActionOk legacy (Some (RuleActionDNSRoute server o')) \<longleftrightarrow>
     server \<noteq> [] \<and> (legacy \<or> drStrategy o' = DomainStrategyAsIS)"
| "dnsActionOk legacy (Some (RuleActionDNSRouteOptions o')) \<longleftrightarrow> legacy \<or> drStrategy o' = DomainStrategyAsIS"
| "dnsActionOk legacy (Some (RuleActionEvaluate server o')) \<longleftrightarrow>
     \<not> legacy \<and> server \<noteq> [] \<and> drStrategy o' = DomainStrategyAsIS"
| "dnsActionOk legacy (Some RuleActionRespond) \<longleftrightarrow> \<not> legacy"
| "dnsActionOk legacy (Some (RuleActionReject method noDrop)) \<longleftrightarrow> method \<noteq> RuleActionRejectMethodReply"
| "dnsActionOk legacy (Some (RuleActionPredefined rcode answer ns extra)) = True"
| "dnsActionOk legacy (Some _) = False"

lemma NewDNSRuleAction_ok:
  assumes "NewDNSRuleAction act = Ok a" "checkDNSRule act True = Ok ()"
    "\<not> legacy \<Longrightarrow> \<not> dnsRuleActionHasStrategy act" "legacy \<Longrightarrow> \<not> disabling act"
  shows "dnsActionOk legacy a"
  using assms
  by (cases legacy) (auto simp: NewDNSRuleAction_def checkDNSRule_def validateDNSRuleAction_def missingServer_def
      dnsRuleActionHasStrategy_def disabling_def dnsRouteOptionsOf_def action_consts split: if_splits)

lemma requirements_member:
  assumes "dnsRuleModeRequirements router raw ov = Inr flags" "rule \<in> set raw"
  obtains f where "dnsRuleModeRequirementsInRule router ov rule = Inr f" "flagsLe f flags"
  using mergeLoop_member[OF assms(1)[unfolded dnsRuleModeRequirements_def] assms(2)] by auto

lemma requirements_all_strategyNeeds:
  "dnsRuleModeRequirements router raw ov = Inr flags \<Longrightarrow> strategyNeeds flags"
  unfolding dnsRuleModeRequirements_def
  by (rule mergeLoop_strategy[of raw]) (auto simp: strategyNeeds_def noFlags_def
      dest: requirements_strategyNeeds[unfolded strategyNeeds_def])

lemma resolve_mode:
  assumes "resolveLegacyDNSMode router raw ov = Ok (legacy, flags)"
  shows "dnsRuleModeRequirements router raw ov = Ok flags" "legacy \<longleftrightarrow> needed flags \<and> \<not> disabled flags"
    "neededFromStrategy flags \<Longrightarrow> legacy"
proof -
  from assms show req: "dnsRuleModeRequirements router raw ov = Ok flags"
    by (auto simp: resolveLegacyDNSMode_def split: if_splits)
  from assms show l: "legacy \<longleftrightarrow> needed flags \<and> \<not> disabled flags"
    by (auto simp: resolveLegacyDNSMode_def split: if_splits)
  assume "neededFromStrategy flags"
  with assms l requirements_all_strategyNeeds[OF req] show legacy
    by (auto simp: resolveLegacyDNSMode_def strategyNeeds_def split: if_splits)
qed

lemma resolve_actions:
  assumes mode: "resolveLegacyDNSMode router raw ov = Ok (legacy, flags)"
    and rule: "rule \<in> set raw" and new: "NewDNSRule B rule True legacy = Ok r"
  shows "dnsActionOk legacy (dnsRule_Action r)"
proof -
  obtain ty d md rs neg act where opts: "rule = DNSRuleOptions ty d md rs neg act" by (cases rule)
  obtain f where f: "dnsRuleModeRequirementsInRule router ov rule = Inr f" "flagsLe f flags"
    by (rule requirements_member[OF resolve_mode(1)[OF mode] rule])
  from requirements_action[OF f(1) new] f(2)
  have "dnsRuleActionHasStrategy (actionOf rule) \<longrightarrow> neededFromStrategy flags"
    "disabling (actionOf rule) \<longrightarrow> disabled flags" by (auto simp: flagsLe_def)
  with resolve_mode(2,3)[OF mode] have "\<not> legacy \<Longrightarrow> \<not> dnsRuleActionHasStrategy (actionOf rule)"
    "legacy \<Longrightarrow> \<not> disabling (actionOf rule)" by auto
  from NewDNSRuleAction_ok[OF NewDNSRule_action[OF new[unfolded opts]] NewDNSRule_checked[OF new[unfolded opts]]
      this[unfolded opts]]
  show ?thesis .
qed

text \<open>
  C31: The rules the DNS router runs carry only actions its loops handle in the mode they were built for.
  No route action ends up among them; \<^verbatim>\<open>evaluate\<close> and \<^verbatim>\<open>respond\<close> occur only without the legacy mode, whose
  loop has no case for them; a server is always named; a \<^verbatim>\<open>reject\<close> never has the method \<^verbatim>\<open>reply\<close>; and
  outside the legacy mode no action has a strategy, which the code relies on when it skips the
  strategy of a rule.
\<close>

theorem dns_actions_typed:
  assumes "buildRules D start raw refs = (Ok (rs, legacy, flags), refs')"
  shows "list_all (\<lambda>r. dnsActionOk legacy (dnsRule_Action r)) rs"
proof -
  obtain built where b: "checkRules D raw = Ok (legacy, flags)"
    "list_all2 (\<lambda>o' r. NewDNSRule (dsBuilders D) o' True legacy = Ok r) raw built"
    "map dnsRule_Action rs = map dnsRule_Action built"
    by (rule buildRules_built[OF assms])
  from b(1) have mode: "resolveLegacyDNSMode (dsRouter D) raw [] = Ok (legacy, flags)"
    by (auto simp: checkRules_def split: prod.splits if_splits)
  have "\<forall>r \<in> set built. dnsActionOk legacy (dnsRule_Action r)"
  proof
    fix r assume "r \<in> set built"
    then obtain i where i: "i < length built" "r = built ! i" by (auto simp: in_set_conv_nth)
    with b(2) have "raw ! i \<in> set raw" "NewDNSRule (dsBuilders D) (raw ! i) True legacy = Ok r"
      by (auto simp: list_all2_conv_all_nth)
    with resolve_actions[OF mode] show "dnsActionOk legacy (dnsRule_Action r)" by blast
  qed
  then have "list_all (dnsActionOk legacy) (map dnsRule_Action built)" by (simp add: list_all_iff)
  then show ?thesis by (simp add: b(3)[symmetric] list_all_iff)
qed

theorem dns_actions_typed_witness:
  "\<exists>rs legacy flags refs'. buildRules exampleDNS True [exampleDNSRule] (\<lambda>_. 0) = (Ok (rs, legacy, flags), refs') \<and>
     length rs = 1 \<and> list_all (\<lambda>r. dnsActionOk legacy (dnsRule_Action r)) rs"
proof -
  have "case fst (buildRules exampleDNS True [exampleDNSRule] (\<lambda>_. 0)) of
      Inl _ \<Rightarrow> False | Inr (rs, _, _) \<Rightarrow> length rs = 1"
    by code_simp
  then obtain rs legacy flags refs' where
    b: "buildRules exampleDNS True [exampleDNSRule] (\<lambda>_. 0) = (Ok (rs, legacy, flags), refs')" "length rs = 1"
    by (cases "buildRules exampleDNS True [exampleDNSRule] (\<lambda>_. 0)") (auto split: sum.splits)
  with dns_actions_typed[OF b(1)] show ?thesis by blast
qed

section \<open>Updates\<close>

text \<open>An override of one tag is an update of the lookup.\<close>

definition sameSets :: "ruleSetLookup \<Rightarrow> overrides \<Rightarrow> ruleSetLookup \<Rightarrow> bool" where
  "sameSets lookup ov lookup' \<longleftrightarrow>
     (\<forall>t. lookupDNSRuleSetMetadata lookup t ov = lookupDNSRuleSetMetadata lookup' t [])"

lemma sameSetsD: "sameSets lookup ov lookup' \<Longrightarrow>
  lookupDNSRuleSetMetadata lookup t ov = lookupDNSRuleSetMetadata lookup' t []"
  by (simp add: sameSets_def)

lemma sameSets_update: "sameSets lookup [(tag, md)] (lookup(tag \<mapsto> md))"
  by (simp add: sameSets_def lookupDNSRuleSetMetadata_def)

lemma requirements_override:
  assumes "sameSets lookup ov lookup'"
  shows "dnsRuleModeRequirementsInRule (Some lookup) ov rule = dnsRuleModeRequirementsInRule (Some lookup') [] rule"
proof (induction rule)
  case (DNSRuleOptions ty d m rs neg act)
  have "dnsRuleModeRequirementsInDefaultRule (Some lookup) d ov =
    dnsRuleModeRequirementsInDefaultRule (Some lookup') d []"
    by (simp add: dnsRuleModeRequirementsInDefaultRule_def sameSetsD[OF assms] Let_def)
  with DNSRuleOptions show ?case by (auto intro!: forIR_cong)
qed

lemma resolve_override:
  "resolveLegacyDNSMode (Some lookup) raw [(tag, md)] = resolveLegacyDNSMode (Some (lookup(tag \<mapsto> md))) raw []"
  by (simp add: resolveLegacyDNSMode_def dnsRuleModeRequirements_def requirements_override[OF sameSets_update])

lemma validate_tree_override:
  assumes "sameSets lookup ov lookup'"
  shows "validateLegacyDNSModeDisabledRuleTree (Some lookup) ov rule =
    validateLegacyDNSModeDisabledRuleTree (Some lookup') [] rule"
proof (induction rule)
  case (DNSRuleOptions ty d m rs neg act)
  have "validateLegacyDNSModeDisabledDefaultRule (Some lookup) d ov =
    validateLegacyDNSModeDisabledDefaultRule (Some lookup') d []"
    by (simp add: validateLegacyDNSModeDisabledDefaultRule_def sameSetsD[OF assms] Let_def)
  with DNSRuleOptions show ?case by (auto intro!: forIR_cong)
qed

lemma validate_override:
  "validateLegacyDNSModeDisabledRules (Some lookup) raw [(tag, md)] =
   validateLegacyDNSModeDisabledRules (Some (lookup(tag \<mapsto> md))) raw []"
  by (simp add: validateLegacyDNSModeDisabledRules_def validate_tree_override[OF sameSets_update])

text \<open>
  The configuration fits the running mode: without the legacy mode it resolves to that mode and is
  valid in it; in the legacy mode nothing in it demands the other one.
\<close>

definition modeOk :: "ruleSetLookup \<Rightarrow> dnsRouter \<Rightarrow> bool" where
  "modeOk lookup r \<longleftrightarrow> (\<exists>mode flags. resolveLegacyDNSMode (Some lookup) (rawRules r) [] = Ok (mode, flags) \<and>
     (if legacyDNSMode r then \<not> disabled flags
      else \<not> mode \<and> validateLegacyDNSModeDisabledRules (Some lookup) (rawRules r) [] = Ok ()))"

lemma modeOk_start:
  assumes "dsRouter D = Some lookup" "router_Start D r refs = (None, r', refs')" "\<not> closing r"
  shows "routerStarted r' \<and> modeOk lookup r'"
proof -
  from assms(2,3) obtain rs legacy flags where
    b: "buildRules D True (rawRules r) refs = (Inr (rs, legacy, flags), refs')" and
    r': "r' = r\<lparr>runtimeRules := rs, legacyDNSMode := legacy, routerStarted := True\<rparr>"
    by (auto simp: router_Start_def split: prod.splits sum.splits if_splits)
  have "checkRules D (rawRules r) = Ok (legacy, flags)" by (rule buildRules_built[OF b])
  then have "resolveLegacyDNSMode (Some lookup) (rawRules r) [] = Ok (legacy, flags)"
    "\<not> legacy \<Longrightarrow> validateLegacyDNSModeDisabledRules (Some lookup) (rawRules r) [] = Ok ()"
    by (auto simp: checkRules_def assms(1) split: prod.splits if_splits)
  with resolve_mode(2)[OF this(1)] r' show ?thesis by (simp add: modeOk_def)
qed

lemma modeOk_update:
  assumes "routerStarted r" "\<not> closing r" "rawRules r \<noteq> []"
    "ValidateRuleSetMetadataUpdate (Some lookup) r tag md = Ok ()"
  shows "modeOk (lookup(tag \<mapsto> md)) r"
proof -
  from assms obtain mode flags where
    res: "resolveLegacyDNSMode (Some (lookup(tag \<mapsto> md))) (rawRules r) [] = Ok (mode, flags)"
    by (auto simp: ValidateRuleSetMetadataUpdate_def resolve_override)
  show ?thesis
  proof (cases "legacyDNSMode r")
    case True
    with assms res resolve_mode(2)[OF res] show ?thesis
      by (auto simp: ValidateRuleSetMetadataUpdate_def resolve_override modeOk_def split: if_splits)
  next
    case False
    with assms res show ?thesis
      by (auto simp: ValidateRuleSetMetadataUpdate_def resolve_override validate_override modeOk_def
          split: if_splits)
  qed
qed

text \<open>
  The rule-sets as the running router sees them: the start, and any number of updates that the router
  was asked about and did not refuse (a refused update leaves the rule-set as it was).
\<close>

inductive running :: "ruleSetLookup \<Rightarrow> dnsRouter \<Rightarrow> bool" where
  running_start: "dsRouter D = Some lookup \<Longrightarrow> router_Start D r refs = (None, r', refs') \<Longrightarrow> \<not> closing r \<Longrightarrow>
    rawRules r \<noteq> [] \<Longrightarrow> running lookup r'"
| running_update: "running lookup r \<Longrightarrow> ValidateRuleSetMetadataUpdate (Some lookup) r tag md = Ok () \<Longrightarrow>
    running (lookup(tag \<mapsto> md)) r"

lemma running_started: "running lookup r \<Longrightarrow> routerStarted r \<and> \<not> closing r \<and> rawRules r \<noteq> []"
  by (induction rule: running.induct)
    (auto simp: router_Start_def split: prod.splits sum.splits if_splits)

text \<open>
  C32: The configuration of a running DNS router stays valid for its mode under every sequence of accepted
  rule-set updates.  A router that runs without the legacy mode never meets rule-sets that would need
  it, or rules its validation refuses; a router in the legacy mode never meets rule-sets that forbid
  it; and the mode can always be resolved.
\<close>

theorem running_mode_valid:
  assumes "running lookup r"
  shows "modeOk lookup r"
  using assms
proof (induction rule: running.induct)
  case (running_start D lookup r refs r' refs')
  then show ?case using modeOk_start by blast
next
  case (running_update lookup r tag md)
  then show ?case using modeOk_update running_started by blast
qed

theorem running_mode_valid_witness:
  "\<exists>r. running exampleLookup r \<and> routerStarted r \<and> modeOk exampleLookup r"
proof -
  have "dsRouter exampleDNS = Some exampleLookup" by (simp add: exampleDNS_def)
  from running_start[OF this exampleStarted_eq exampleStarted_state(4) exampleInit_rules]
  have run: "running exampleLookup (fst (snd exampleStarted))" .
  with running_mode_valid[OF run] running_started[OF run] show ?thesis by blast
qed

end
