(* ===== verification/DNSRouterCorrect.thy ===== *)
theory DNSRouterCorrect
  imports DNSRouter DNSModeCorrect RuleSemantics
begin

text \<open>
  What the rules let the DNS router do: which transports a query can reach.  The statements compare two
  clients that agree on some transports; when a query has the same outcome with both, whatever they do
  otherwise, it used only those transports.
\<close>

section \<open>Clients that agree\<close>

definition agree :: "(dnsTransport option \<Rightarrow> bool) \<Rightarrow> 'c clientOps \<Rightarrow> 'c clientOps \<Rightarrow> bool" where
  "agree ok C C' \<longleftrightarrow> (\<forall>t. ok t \<longrightarrow>
     (\<forall>c tag message o' check. cExchange C c tag t message o' check = cExchange C' c tag t message o' check) \<and>
     (\<forall>c tag domain o' check. cLookup C c tag t domain o' check = cLookup C' c tag t domain o' check))"

lemma agreeD:
  assumes "agree ok C C'" "ok t"
  shows "cExchange C c tag t message o' check = cExchange C' c tag t message o' check"
    "cLookup C c tag t domain o' check = cLookup C' c tag t domain o' check"
  using assms by (auto simp: agree_def)

text \<open>The transports an action can lead to: a route skips fake servers when they are not allowed, an
  evaluation takes its server as it is, and a reject with an unknown method goes on without one.\<close>

fun actionReaches :: "dnsEnv \<Rightarrow> (dnsTransport option \<Rightarrow> bool) \<Rightarrow> bool \<Rightarrow> rule_action option \<Rightarrow> bool" where
  "actionReaches N ok allowFakeIP (Some (RuleActionDNSRoute server ro)) \<longleftrightarrow>
     (\<forall>t. deTransport N server = Some t \<longrightarrow> (isFakeIP t \<longrightarrow> allowFakeIP) \<longrightarrow> ok (Some t))"
| "actionReaches N ok allowFakeIP (Some (RuleActionEvaluate server ro)) \<longleftrightarrow>
     (\<forall>t. deTransport N server = Some t \<longrightarrow> ok (Some t))"
| "actionReaches N ok allowFakeIP (Some (RuleActionReject method noDrop)) \<longleftrightarrow>
     method = RuleActionRejectMethodDefault \<or> method = RuleActionRejectMethodDrop"
| "actionReaches N ok allowFakeIP _ = True"

definition rulesReach :: "dnsEnv \<Rightarrow> (dnsTransport option \<Rightarrow> bool) \<Rightarrow> bool \<Rightarrow> dns_rule list \<Rightarrow> bool" where
  "rulesReach N ok allowFakeIP rules \<longleftrightarrow> (\<forall>r \<in> set rules. actionReaches N ok allowFakeIP (dnsRule_Action r))"

section \<open>The legacy mode\<close>

lemma legacyRule_use:
  assumes "legacyRule N allowFakeIP isAddr rule m o' = UseRule t m1 o1"
    "actionReaches N ok allowFakeIP (dnsRule_Action rule)"
  shows "ok t \<or> (\<exists>method noDrop. dnsRule_Action rule = Some (RuleActionReject method noDrop)) \<or>
    (\<exists>rcode answer ns extra. dnsRule_Action rule = Some (RuleActionPredefined rcode answer ns extra))"
  using assms
  by (auto simp: legacyRule_def Let_def split: if_splits prod.splits option.splits rule_action.splits)

lemma matchDNSFrom_reaches:
  assumes "matchDNSFrom N allowFakeIP isAddr i rules m o' = (t, rule, m1, o1)"
    "rulesReach N ok allowFakeIP rules" "ok (deDefault N)"
  shows "case rule of None \<Rightarrow> ok t
    | Some (j, r) \<Rightarrow> actionReaches N ok allowFakeIP (dnsRule_Action r) \<and>
        (ok t \<or> (\<exists>method noDrop. dnsRule_Action r = Some (RuleActionReject method noDrop)) \<or>
         (\<exists>rcode answer ns extra. dnsRule_Action r = Some (RuleActionPredefined rcode answer ns extra)))"
  using assms(1,2)
proof (induction rules arbitrary: i m o')
  case Nil
  with assms(3) show ?case by simp
next
  case (Cons r rest)
  then have reach: "actionReaches N ok allowFakeIP (dnsRule_Action r)" "rulesReach N ok allowFakeIP rest"
    by (simp_all add: rulesReach_def)
  show ?case
  proof (cases "legacyRule N allowFakeIP isAddr r m o'")
    case (NextRule m2 o2)
    with Cons.IH[OF _ reach(2)] Cons.prems(1) show ?thesis by simp
  next
    case (UseRule t2 m2 o2)
    with Cons.prems(1) legacyRule_use[OF UseRule reach(1)] reach(1) show ?thesis by auto
  qed
qed

lemma matchDNS_reaches:
  assumes "matchDNS N rules allowFakeIP ruleIndex isAddr m o' = (t, rule, m1, o1)"
    "rulesReach N ok allowFakeIP rules" "ok (deDefault N)"
  shows "case rule of None \<Rightarrow> ok t
    | Some (j, r) \<Rightarrow> actionReaches N ok allowFakeIP (dnsRule_Action r) \<and>
        (ok t \<or> (\<exists>method noDrop. dnsRule_Action r = Some (RuleActionReject method noDrop)) \<or>
         (\<exists>rcode answer ns extra. dnsRule_Action r = Some (RuleActionPredefined rcode answer ns extra)))"
proof (rule matchDNSFrom_reaches[where ok = ok, OF _ _ assms(3)])
  let ?i = "case ruleIndex of None \<Rightarrow> 0 | Some k \<Rightarrow> Suc k"
  show "matchDNSFrom N allowFakeIP isAddr ?i (drop ?i rules) m o' = (t, rule, m1, o1)"
    using assms(1) by (simp add: matchDNS_def Let_def)
  show "rulesReach N ok allowFakeIP (drop ?i rules)"
    using assms(2) by (auto simp: rulesReach_def dest: in_set_dropD)
qed

lemma limited_agree:
  assumes "agree ok C C'" "ok t"
  shows "limitedExchange N C tag message t rule m o' c = limitedExchange N C' tag message t rule m o' c"
    "limitedLookup N C tag domain t rule m o' c = limitedLookup N C' tag domain t rule m o' c"
  by (simp_all add: limitedExchange_def limitedLookup_def agreeD[OF assms])

lemma legacyExchangeRound_agree:
  assumes "agree ok C C'" "rulesReach N ok True rules" "ok (deDefault N)"
  shows "legacyExchangeRound N C tag rules message options ruleIndex m c =
    legacyExchangeRound N C' tag rules message options ruleIndex m c"
proof -
  obtain t rule m1 o1 where md: "matchDNS N rules True ruleIndex (isAddressQuery message) m options = (t, rule, m1, o1)"
    by (cases "matchDNS N rules True ruleIndex (isAddressQuery message) m options") auto
  note reach = matchDNS_reaches[OF md assms(2,3)]
  show ?thesis
  proof (cases "ok t")
    case True
    with md show ?thesis by (simp add: legacyExchangeRound_def limited_agree[OF assms(1) True])
  next
    case False
    with reach obtain j r where "rule = Some (j, r)" by (cases rule) auto
    with False reach md show ?thesis by (auto simp: legacyExchangeRound_def reject_consts)
  qed
qed

lemma legacyExchange_agree:
  assumes "agree ok C C'" "rulesReach N ok True rules" "ok (deDefault N)"
  shows "legacyExchange N C tag rules message options ruleIndex m c =
    legacyExchange N C' tag rules message options ruleIndex m c"
  using assms
proof (induction N C tag rules message options ruleIndex m c rule: legacyExchange.induct)
  case (1 N C tag rules message options ruleIndex m c)
  note same = legacyExchangeRound_agree[OF "1.prems"]
  show ?case
    by (subst (1 2) legacyExchange.simps)
      (auto simp: same split: round.splits intro: "1.IH"[OF _ "1.prems", unfolded same])
qed

lemma legacyLookupRound_agree:
  assumes "agree ok C C'" "rulesReach N ok False rules" "ok (deDefault N)"
  shows "legacyLookupRound N C tag rules domain options ruleIndex m c =
    legacyLookupRound N C' tag rules domain options ruleIndex m c"
proof -
  obtain t rule m1 o1 where md: "matchDNS N rules False ruleIndex True m options = (t, rule, m1, o1)"
    by (cases "matchDNS N rules False ruleIndex True m options") auto
  note reach = matchDNS_reaches[OF md assms(2,3)]
  show ?thesis
  proof (cases "ok t")
    case True
    with md show ?thesis by (simp add: legacyLookupRound_def limited_agree[OF assms(1) True])
  next
    case False
    with reach obtain j r where "rule = Some (j, r)" by (cases rule) auto
    with False reach md show ?thesis by (auto simp: legacyLookupRound_def)
  qed
qed

lemma legacyLookup_agree:
  assumes "agree ok C C'" "rulesReach N ok False rules" "ok (deDefault N)"
  shows "legacyLookup N C tag rules domain options ruleIndex m c =
    legacyLookup N C' tag rules domain options ruleIndex m c"
  using assms
proof (induction N C tag rules domain options ruleIndex m c rule: legacyLookup.induct)
  case (1 N C tag rules domain options ruleIndex m c)
  note same = legacyLookupRound_agree[OF "1.prems"]
  show ?case
    by (subst (1 2) legacyLookup.simps)
      (auto simp: same split: round.splits intro: "1.IH"[OF _ "1.prems", unfolded same])
qed

section \<open>The mode without address filters\<close>

lemma exchangeVia_agree:
  "agree ok C C' \<Longrightarrow> ok t \<Longrightarrow> exchangeVia N C tag t message o' c = exchangeVia N C' tag t message o' c"
  by (simp add: exchangeVia_def agreeD)

lemma ruleAnswer_agree:
  assumes "agree ok C C'" "actionReaches N ok allowFakeIP act"
  shows "ruleAnswer N C tag message allowFakeIP act s c = ruleAnswer N C' tag message allowFakeIP act s c"
proof -
  consider (route) server ro where "act = Some (RuleActionDNSRoute server ro)"
    | (evaluate) server ro where "act = Some (RuleActionEvaluate server ro)"
    | (other) "\<forall>server ro. act \<noteq> Some (RuleActionDNSRoute server ro) \<and> act \<noteq> Some (RuleActionEvaluate server ro)"
    by blast
  then show ?thesis
  proof cases
    case route
    obtain t st o1 where r: "resolveDNSRoute N server ro allowFakeIP (rlOptions s) = (t, st, o1)"
      by (cases "resolveDNSRoute N server ro allowFakeIP (rlOptions s)")
    have "st = dnsRouteStatusResolved \<Longrightarrow> ok t"
      using r assms(2) route by (auto simp: resolveDNSRoute_def Let_def split: option.splits if_splits)
    with r route show ?thesis
      by (cases st) (simp_all add: ruleAnswer_def exchangeVia_agree[OF assms(1)])
  next
    case evaluate
    then have "evaluateVia N C tag server ro message s c = evaluateVia N C' tag server ro message s c"
      using assms by (auto simp: evaluateVia_def agreeD split: option.splits)
    with evaluate show ?thesis by (simp add: ruleAnswer_def)
  next
    case other
    then show ?thesis by (auto simp: ruleAnswer_def split: option.splits rule_action.splits)
  qed
qed

lemma ruleLoopRun_agree:
  assumes "agree ok C C'" "ok (deDefault N)" "rulesReach N ok allowFakeIP rules"
  shows "ruleLoopRun N C tag message allowFakeIP rules s c = ruleLoopRun N C' tag message allowFakeIP rules s c"
  using assms(3)
proof (induction rules arbitrary: s c)
  case Nil
  then show ?case by (simp add: exchangeVia_agree[OF assms(1,2)])
next
  case (Cons r rest)
  then have reach: "actionReaches N ok allowFakeIP (dnsRule_Action r)" "rulesReach N ok allowFakeIP rest"
    by (simp_all add: rulesReach_def)
  show ?case
    by (simp add: ruleAnswer_agree[OF assms(1) reach(1)] Cons.IH[OF reach(2)] Let_def
        split: prod.splits ruleStep.splits)
qed

lemma lookupWithRules_agree:
  assumes "agree ok C C'" "ok (deDefault N)" "rulesReach N ok False rules"
  shows "lookupWithRules N C tag rules domain options m c = lookupWithRules N C' tag rules domain options m c"
proof -
  have "lookupWithRulesType N C tag rules domain qtype o' m c = lookupWithRulesType N C' tag rules domain qtype o' m c"
    for qtype o' c
    by (simp add: lookupWithRulesType_def exchangeWithRules_def ruleLoopRun_agree[OF assms])
  then show ?thesis by (simp add: lookupWithRules_def Let_def)
qed

section \<open>The entry points\<close>

lemma router_Exchange_agree:
  assumes "agree ok C C'" "ok (deDefault N)" "rulesReach N ok True (runtimeRules (rtRouter rt))"
    "qoTransport options \<noteq> None \<Longrightarrow> ok (qoTransport options)"
  shows "router_Exchange N C tag m message options rt = router_Exchange N C' tag m message options rt"
proof -
  have explicit: "cExchange C c tag (Some t) message o' None = cExchange C' c tag (Some t) message o' None"
    if "qoTransport options = Some t" for c t o'
    using that assms(4) agreeD(1)[OF assms(1)] by simp
  show ?thesis
    by (simp add: router_Exchange_def Let_def explicit exchangeWithRules_def ruleLoopRun_agree[OF assms(1-3)]
        legacyExchange_agree[OF assms(1,3,2)] split: list.splits option.splits)
qed

lemma router_Lookup_agree:
  assumes "agree ok C C'" "ok (deDefault N)" "rulesReach N ok False (runtimeRules (rtRouter rt))"
    "qoTransport options \<noteq> None \<Longrightarrow> ok (qoTransport options)"
  shows "router_Lookup N C tag m domain options rt = router_Lookup N C' tag m domain options rt"
proof -
  have explicit: "cLookup C c tag (Some t) domain o' None = cLookup C' c tag (Some t) domain o' None"
    if "qoTransport options = Some t" for c t o'
    using that assms(4) agreeD(2)[OF assms(1)] by simp
  show ?thesis
    by (simp add: router_Lookup_def Let_def explicit lookupWithRules_agree[OF assms(1-3)]
        legacyLookup_agree[OF assms(1,3,2)] split: option.splits)
qed

section \<open>Rules of a started router\<close>

text \<open>The reject methods of the configuration are what reading the options produces.\<close>

definition optionsChecked :: "dns_rule_options list \<Rightarrow> bool" where
  "optionsChecked raw \<longleftrightarrow> (\<forall>o' \<in> set raw. odAction (actionOf o') = RuleActionTypeReject \<longrightarrow>
     (\<exists>m noDrop. checkRejectOptions m noDrop = Ok (odRejectMethod (actionOf o'))))"

lemma built_actions:
  assumes "buildRules D start raw refs = (Ok (rs, legacy, flags), refs')" "r \<in> set rs"
  obtains o' where "o' \<in> set raw" "NewDNSRuleAction (actionOf o') = Ok (dnsRule_Action r)"
    "checkDNSRule (actionOf o') True = Ok ()" "checkRules D raw = Ok (legacy, flags)"
    "dnsRuleActionType o' = (if odAction (actionOf o') = [] then RuleActionTypeRoute else odAction (actionOf o'))"
    "dnsRuleActionServer o' = doServer (odRouteOptions (actionOf o'))"
proof -
  obtain built where b: "checkRules D raw = Ok (legacy, flags)"
    "list_all2 (\<lambda>o' r. NewDNSRule (dsBuilders D) o' True legacy = Ok r) raw built"
    "map dnsRule_Action rs = map dnsRule_Action built"
    by (rule buildRules_built[OF assms(1)])
  have "dnsRule_Action r \<in> set (map dnsRule_Action built)"
    using assms(2) unfolding b(3)[symmetric] by simp
  then obtain i where i: "i < length built" "dnsRule_Action r = dnsRule_Action (built ! i)"
    by (auto simp: in_set_conv_nth)
  with b(2) have o': "raw ! i \<in> set raw" and new: "NewDNSRule (dsBuilders D) (raw ! i) True legacy = Ok (built ! i)"
    by (auto simp: list_all2_conv_all_nth)
  obtain ty d md subs neg act where opts: "raw ! i = DNSRuleOptions ty d md subs neg act" by (cases "raw ! i")
  note new' = new[unfolded opts]
  have logical: "\<not> (ty = [] \<or> ty = RuleTypeDefault) \<Longrightarrow> ty = RuleTypeLogical"
  proof -
    assume "\<not> (ty = [] \<or> ty = RuleTypeDefault)"
    from new'[unfolded NewDNSRule.simps if_not_P[OF this]] show ?thesis by (simp split: if_splits)
  qed
  show thesis
  proof (rule that[OF o'])
    show "NewDNSRuleAction (actionOf (raw ! i)) = Ok (dnsRule_Action r)"
      using NewDNSRule_action[OF new'] i(2) opts by simp
    show "checkDNSRule (actionOf (raw ! i)) True = Ok ()" using NewDNSRule_checked[OF new'] opts by simp
    show "checkRules D raw = Ok (legacy, flags)" by (rule b(1))
    show "dnsRuleActionType (raw ! i) =
        (if odAction (actionOf (raw ! i)) = [] then RuleActionTypeRoute else odAction (actionOf (raw ! i)))"
      using logical unfolding opts by auto
    show "dnsRuleActionServer (raw ! i) = doServer (odRouteOptions (actionOf (raw ! i)))"
      using logical unfolding opts by auto
  qed
qed

lemma built_reject:
  assumes "buildRules D start raw refs = (Ok (rs, legacy, flags), refs')" "r \<in> set rs" "optionsChecked raw"
    "dnsRule_Action r = Some (RuleActionReject method noDrop)"
  shows "method = RuleActionRejectMethodDefault \<or> method = RuleActionRejectMethodDrop"
proof -
  obtain o' where o': "o' \<in> set raw" "NewDNSRuleAction (actionOf o') = Ok (dnsRule_Action r)"
    "checkDNSRule (actionOf o') True = Ok ()"
    by (rule built_actions[OF assms(1,2)])
  from o'(2) assms(4) have a: "odAction (actionOf o') = RuleActionTypeReject" "odRejectMethod (actionOf o') = method"
    by (auto simp: NewDNSRuleAction_def split: if_splits)
  with assms(3) o'(1) obtain m nd where "checkRejectOptions m nd = Ok method"
    by (auto simp: optionsChecked_def)
  moreover from o'(3) a have "method \<noteq> RuleActionRejectMethodReply"
    by (auto simp: checkDNSRule_def validateDNSRuleAction_def split: if_splits)
  ultimately show ?thesis by (auto simp: checkRejectOptions_def split: if_splits)
qed

lemma built_evaluate:
  assumes "buildRules D start raw refs = (Ok (rs, legacy, flags), refs')" "r \<in> set rs"
    "dnsRule_Action r = Some (RuleActionEvaluate server ro)"
    "dsTransport D = Some lookup" "lookup server = Some t"
  shows "\<not> isFakeIP t"
proof -
  obtain o' where o': "o' \<in> set raw" "NewDNSRuleAction (actionOf o') = Ok (dnsRule_Action r)"
    "checkDNSRule (actionOf o') True = Ok ()" "checkRules D raw = Ok (legacy, flags)"
    "dnsRuleActionType o' = (if odAction (actionOf o') = [] then RuleActionTypeRoute else odAction (actionOf o'))"
    "dnsRuleActionServer o' = doServer (odRouteOptions (actionOf o'))"
    by (rule built_actions[OF assms(1,2)])
  from o'(2) assms(3) have a: "odAction (actionOf o') = RuleActionTypeEvaluate" "doServer (odRouteOptions (actionOf o')) = server"
    by (auto simp: NewDNSRuleAction_def split: if_splits)
  with o'(3) have "server \<noteq> []" by (auto simp: checkDNSRule_def missingServer_def split: if_splits)
  from o'(4) have "validateEvaluateFakeIPRules raw (Some lookup) = Ok ()"
    by (auto simp: checkRules_def assms(4) split: prod.splits)
  then have loop: "forIR (\<lambda>i rule _.
       if dnsRuleActionType rule \<noteq> RuleActionTypeEvaluate then Ok ()
       else if dnsRuleActionServer rule = [] then Ok ()
       else case lookup (dnsRuleActionServer rule) of
         None \<Rightarrow> Ok ()
       | Some transport \<Rightarrow> if trType transport \<noteq> DNSTypeFakeIP then Ok ()
           else Err (ENew (indexed ''dns rule'' i @ '': evaluate action cannot use fakeip server: '' @
                  dnsRuleActionServer rule))) 0 raw () = Inr ()"
    by (simp add: validateEvaluateFakeIPRules_def)
  from o'(1) obtain k where k: "k < length raw" "raw ! k = o'" by (auto simp: in_set_conv_nth)
  from loop k(1) show ?thesis
    by (rule forIR_indexed) (use k a o'(5,6) \<open>server \<noteq> []\<close> assms(5) in
      \<open>auto simp: isFakeIP_def action_consts split: if_splits\<close>)
qed

text \<open>
  An example: the router of the earlier example at run time, and two clients that differ on nil and fake
  transports.
\<close>

definition exampleDNSEnv :: dnsEnv where
  "exampleDNSEnv = \<lparr>deEnv = exampleEnv, deTransport = exampleTransport, deDefault = exampleTransport ''local'',
     deStrategy = DomainStrategyAsIS, deIsFqdn = (\<lambda>_. False), deFqdn = (\<lambda>d. d @ ''.''),
     deRejectError = (\<lambda>_ _. Some DErrReset)\<rparr>"

definition exampleClient :: "dnsError \<Rightarrow> unit clientOps" where
  "exampleClient e = \<lparr>cExchange = (\<lambda>c tag t message o' check.
       ((None, Some (if t = exampleTransport ''fake'' then e else DContextErr)), c)),
     cLookup = (\<lambda>c tag t domain o' check.
       (if t = exampleTransport ''fake'' then ([], Some e) else ([IP4 1], None), c)),
     cClearCache = id\<rparr>"

definition exampleRuntime :: "unit dnsRuntime" where
  "exampleRuntime = \<lparr>rtRouter = fst (snd exampleStarted), rtClient = (), rtReverse = None\<rparr>"

lemma router_Start_built:
  assumes "router_Start D r refs = (None, r', refs')" "\<not> closing r" "rawRules r \<noteq> []"
  shows "\<exists>flags refs'. buildRules D True (rawRules r) refs = (Ok (runtimeRules r', legacyDNSMode r', flags), refs')"
  using assms by (auto simp: router_Start_def split: prod.splits sum.splits if_splits)

lemma exampleRuntime_built:
  "\<exists>flags refs'. buildRules exampleDNS True [exampleDNSRule] (\<lambda>_. 0) =
     (Ok (runtimeRules (rtRouter exampleRuntime), legacyDNSMode (rtRouter exampleRuntime), flags), refs')"
proof -
  have init: "rawRules (fst (snd exampleInit)) = [exampleDNSRule]"
    by (simp add: exampleInit_def router_Initialize_def Let_def split: prod.splits sum.splits)
  have "lifeOk (\<lambda>_. 0) (fst (snd exampleInit)) (snd (snd exampleInit))"
    by (rule lifeOk_init[of _ newRouter "\<lambda>_. 0" exampleDNS "[exampleDNSRule]" "fst exampleInit"])
      (simp_all add: lifeOk_def newRouter_def balanced_def exampleInit_def)
  with exampleStarted_state(3) have "snd (snd exampleInit) = (\<lambda>_. 0)"
    by (auto simp: lifeOk_def balanced_def)
  with router_Start_built[OF exampleStarted_eq exampleStarted_state(4) exampleInit_rules] init show ?thesis
    by (simp add: exampleRuntime_def)
qed

lemma example_checked: "optionsChecked [exampleDNSRule]"
  by (simp add: optionsChecked_def exampleDNSRule_def action_consts)

text \<open>
  C33: A started DNS router never hands a query to a nil transport.  Whatever two clients do with a nil
  transport, \<^verbatim>\<open>Exchange\<close> and \<^verbatim>\<open>Lookup\<close> have the same outcome and leave the same state with both, in
  either mode, provided there is a default transport: the rules that build without error never make
  the loops fall through to an exchange without a server.
\<close>

theorem dns_no_nil_transport:
  assumes "buildRules D True raw refs = (Ok (runtimeRules (rtRouter rt), legacyDNSMode (rtRouter rt), flags), refs')"
    "optionsChecked raw" "deDefault N \<noteq> None" "agree (\<lambda>t. t \<noteq> None) C C'"
  shows "router_Exchange N C tag m message options rt = router_Exchange N C' tag m message options rt \<and>
    router_Lookup N C tag m domain options rt = router_Lookup N C' tag m domain options rt"
proof -
  have "actionReaches N (\<lambda>t. t \<noteq> None) allowFakeIP (dnsRule_Action r)"
    if "r \<in> set (runtimeRules (rtRouter rt))" for r allowFakeIP
    using built_reject[OF assms(1) that assms(2)]
    by (cases "(N, \<lambda>t. t \<noteq> (None :: dnsTransport option), allowFakeIP, dnsRule_Action r)" rule: actionReaches.cases) auto
  then have "rulesReach N (\<lambda>t. t \<noteq> None) allowFakeIP (runtimeRules (rtRouter rt))" for allowFakeIP
    by (simp add: rulesReach_def)
  with router_Exchange_agree[OF assms(4), of N rt options] router_Lookup_agree[OF assms(4), of N rt options] assms(3)
  show ?thesis by simp
qed

theorem dns_no_nil_transport_witness:
  "router_Lookup exampleDNSEnv (exampleClient DErrDrop) None exampleContext ''a.org'' noQueryOptions exampleRuntime =
   router_Lookup exampleDNSEnv ((exampleClient DErrDrop)\<lparr>cLookup := (\<lambda>c tag t domain o' check.
     if t = None then (([], None), c) else cLookup (exampleClient DErrDrop) c tag t domain o' check)\<rparr>)
     None exampleContext ''a.org'' noQueryOptions exampleRuntime"
proof -
  obtain flags refs' where b: "buildRules exampleDNS True [exampleDNSRule] (\<lambda>_. 0) =
     (Ok (runtimeRules (rtRouter exampleRuntime), legacyDNSMode (rtRouter exampleRuntime), flags), refs')"
    using exampleRuntime_built by blast
  show ?thesis
    using dns_no_nil_transport[OF b example_checked, of exampleDNSEnv "exampleClient DErrDrop"
      "(exampleClient DErrDrop)\<lparr>cLookup := (\<lambda>c tag t domain o' check.
        if t = None then (([], None), c) else cLookup (exampleClient DErrDrop) c tag t domain o' check)\<rparr>"]
    by (simp add: exampleDNSEnv_def exampleTransport_def agree_def exampleClient_def)
qed

text \<open>
  C34: Resolving a domain for the router's own use never asks a fake server through a rule: with rules that
  the router has built against its transports, the outcome of \<^verbatim>\<open>Lookup\<close> does not depend on what fake
  servers answer, unless the fake server is the default one.  In the legacy mode and in the other one
  alike; there, an \<^verbatim>\<open>evaluate\<close> action could reach any server, and building refuses the fake ones.
\<close>

theorem lookup_avoids_fakeip:
  assumes "buildRules D True raw refs = (Ok (runtimeRules (rtRouter rt), legacyDNSMode (rtRouter rt), flags), refs')"
    "optionsChecked raw" "dsTransport D = Some (deTransport N)" "qoTransport options = None"
    "agree (\<lambda>t. t = deDefault N \<or> (\<forall>tr. t = Some tr \<longrightarrow> \<not> isFakeIP tr)) C C'"
  shows "router_Lookup N C tag m domain options rt = router_Lookup N C' tag m domain options rt"
proof -
  let ?ok = "\<lambda>t. t = deDefault N \<or> (\<forall>tr. t = Some tr \<longrightarrow> \<not> isFakeIP tr)"
  have "actionReaches N ?ok False (dnsRule_Action r)" if "r \<in> set (runtimeRules (rtRouter rt))" for r
    using built_reject[OF assms(1) that assms(2)] built_evaluate[OF assms(1) that _ assms(3)]
    by (cases "(N, ?ok, False, dnsRule_Action r)" rule: actionReaches.cases) auto
  then have "rulesReach N ?ok False (runtimeRules (rtRouter rt))"
    by (simp add: rulesReach_def)
  with router_Lookup_agree[OF assms(5), of N rt options] assms(4) show ?thesis by simp
qed

theorem lookup_avoids_fakeip_witness:
  "router_Lookup exampleDNSEnv (exampleClient DErrDrop) None exampleContext ''a.org'' noQueryOptions exampleRuntime =
   router_Lookup exampleDNSEnv (exampleClient DErrReset) None exampleContext ''a.org'' noQueryOptions exampleRuntime"
proof -
  obtain flags refs' where b: "buildRules exampleDNS True [exampleDNSRule] (\<lambda>_. 0) =
     (Ok (runtimeRules (rtRouter exampleRuntime), legacyDNSMode (rtRouter exampleRuntime), flags), refs')"
    using exampleRuntime_built by blast
  show ?thesis
  proof (rule lookup_avoids_fakeip[OF b example_checked])
    show "dsTransport exampleDNS = Some (deTransport exampleDNSEnv)" by (simp add: exampleDNS_def exampleDNSEnv_def)
    show "qoTransport noQueryOptions = None" by (simp add: noQueryOptions_def)
    show "agree (\<lambda>t. t = deDefault exampleDNSEnv \<or> (\<forall>tr. t = Some tr \<longrightarrow> \<not> isFakeIP tr))
      (exampleClient DErrDrop) (exampleClient DErrReset)"
      by (auto simp: agree_def exampleClient_def exampleDNSEnv_def exampleTransport_def isFakeIP_def)
  qed
qed

end
