(* ===== verification/DNSClientCorrect.thy ===== *)
theory DNSClientCorrect
  imports DNSClient
begin

text \<open>
  What the DNS client promises: an answer carries the id of its request, and an answer from the cache in
  memory was given for the same question by the same server and is no older than it may be.
\<close>

section \<open>Ids\<close>

lemma SetClientSubnet_keeps: "msgId (SetClientSubnet m p) = msgId m" "msgQuestion (SetClientSubnet m p) = msgQuestion m"
  by (simp_all add: SetClientSubnet_def Let_def)

lemma prepare_keeps:
  "msgId (prepareExchangeMessage K m o') = msgId m" "msgQuestion (prepareExchangeMessage K m o') = msgQuestion m"
  by (simp_all add: prepareExchangeMessage_def Let_def SetClientSubnet_keeps)

text \<open>What is documented of the EDNS0 helpers: \<^verbatim>\<open>IsEdns0\<close> finds an OPT record of the additional section if there
  is one, \<^verbatim>\<open>SetEdns0\<close> only appends one.\<close>

definition ednsHelpers :: "'s clientWorld \<Rightarrow> bool" where
  "ednsHelpers W \<longleftrightarrow> (\<forall>m. cwIsEdns0 W m = None \<longleftrightarrow> \<not> list_ex (\<lambda>r. rrType r = TypeOPT) (msgExtra m)) \<and>
     (\<forall>m r. msgId (cwSetEdns0 W m r) = msgId m)"





section \<open>The age of cached answers\<close>

text \<open>What is relied on: time does not run backwards in an exchange, and a full cache only drops entries.\<close>

definition tellsTime :: "'s clientWorld \<Rightarrow> bool" where
  "tellsTime W \<longleftrightarrow> (\<forall>t tr timeout m. t \<le> snd (cwExchange W t tr timeout m))"

definition keepsEntries :: "'s clientWorld \<Rightarrow> bool" where
  "keepsEntries W \<longleftrightarrow> (\<forall>cache. set (cwKeep W cache) \<subseteq> set cache)"

text \<open>
  Where an entry of the cache comes from: at the time \<open>t1\<close>, not after \<open>now\<close>, the server with that tag answered a
  message with that question; the entry is that answer, and expires when its time-to-live is over.
\<close>

definition answeredAt ::
  "'s clientWorld \<Rightarrow> clientConfig \<Rightarrow> dnsCacheKey \<Rightarrow> dnsMsg \<Rightarrow> uint32 \<Rightarrow> int \<Rightarrow> bool" where
  "answeredAt W K key m ttl t1 \<longleftrightarrow> (\<exists>t0 transport message options response.
     trTag transport = snd key \<and> hd (msgQuestion message) = fst key \<and>
     exchangeToTransport W K t0 transport message (qoTimeout options) = (Inr response, t1) \<and>
     cacheableRcode response \<and> applyResponseOptions (fst key) options response = (m, ttl))"

lemma answeredAtI:
  "exchangeToTransport W K t0 tr message (qoTimeout o') = (Inr response, t1) \<Longrightarrow> cacheableRcode response \<Longrightarrow>
   applyResponseOptions question o' response = (m, ttl) \<Longrightarrow> hd (msgQuestion message) = question \<Longrightarrow>
   answeredAt W K (question, trTag tr) m ttl t1"
  unfolding answeredAt_def fst_conv snd_conv by blast

definition entryOk :: "'s clientWorld \<Rightarrow> clientConfig \<Rightarrow> int \<Rightarrow> dnsCacheKey \<times> dnsMsg \<times> int \<Rightarrow> bool" where
  "entryOk W K now e = (case e of (key, m, expireAt) \<Rightarrow>
     \<exists>t1 ttl. answeredAt W K key m ttl t1 \<and> t1 \<le> now \<and> ttl \<noteq> 0 \<and> expireAt = t1 + second * uint ttl)"

definition clientOk :: "'s clientWorld \<Rightarrow> clientConfig \<Rightarrow> 's clientState \<Rightarrow> bool" where
  "clientOk W K c \<longleftrightarrow> (\<forall>cache. clCache c = Some cache \<longrightarrow> (\<forall>e \<in> set cache. entryOk W K (clNow c) e)) \<and>
     (\<forall>t \<in> set (clTasks c). hd (msgQuestion (rtMessage t)) = rtQuestion t)"

lemma entryOk_later: "entryOk W K now e \<Longrightarrow> now \<le> later \<Longrightarrow> entryOk W K later e"
  by (force simp: entryOk_def split: prod.splits)

lemma clientOk_entry: "clientOk W K c \<Longrightarrow> clCache c = Some cache \<Longrightarrow> e \<in> set cache \<Longrightarrow> entryOk W K (clNow c) e"
  by (simp add: clientOk_def)

lemma clientOkI:
  assumes "\<And>cache e. clCache c = Some cache \<Longrightarrow> e \<in> set cache \<Longrightarrow> entryOk W K (clNow c) e"
    "\<And>t. t \<in> set (clTasks c) \<Longrightarrow> hd (msgQuestion (rtMessage t)) = rtQuestion t"
  shows "clientOk W K c"
  using assms unfolding clientOk_def by blast

text \<open>States with the same or fewer entries, the same or fewer tasks, at the same time or later.\<close>

lemma clientOk_less:
  assumes "clientOk W K c" "\<And>cache'. clCache c' = Some cache' \<Longrightarrow> (\<exists>cache. clCache c = Some cache \<and> set cache' \<subseteq> set cache) \<or> cache' = []"
    "set (clTasks c') \<subseteq> set (clTasks c)" "clNow c \<le> clNow c'"
  shows "clientOk W K c'"
proof (rule clientOkI)
  fix cache' e
  assume "clCache c' = Some cache'" "e \<in> set cache'"
  with assms(2) obtain cache where "clCache c = Some cache" "e \<in> set cache" by fastforce
  with clientOk_entry[OF assms(1)] assms(4) entryOk_later show "entryOk W K (clNow c') e" by blast
next
  fix t
  assume "t \<in> set (clTasks c')"
  with assms(1,3) show "hd (msgQuestion (rtMessage t)) = rtQuestion t" unfolding clientOk_def by blast
qed

lemma set_update: "set (AList.update k v al) \<subseteq> insert (k, v) (set al)"
  by (induction al) auto

lemma set_delete: "set (AList.delete k al) \<subseteq> set al"
  by (auto simp: AList.delete_eq)

lemma storeCache_ok:
  assumes "clientOk W K c" "keepsEntries W" "answeredAt W K (question, trTag tr) m ttl (clNow c)"
  shows "clientOk W K (storeCache W K tr question m ttl c)"
proof (cases "ttl = 0 \<or> ccDNSCache K \<or> clCache c = None")
  case True
  then have "clCache (storeCache W K tr question m ttl c) = clCache c"
    "clTasks (storeCache W K tr question m ttl c) = clTasks c" "clNow (storeCache W K tr question m ttl c) = clNow c"
    by (auto simp: storeCache_def split: option.splits)
  with assms(1) show ?thesis by (simp add: clientOk_def)
next
  case False
  then obtain cache where cache: "clCache c = Some cache" by auto
  let ?e = "((question, trTag tr), (m, clNow c + second * uint ttl))"
  have new: "clCache (storeCache W K tr question m ttl c) = Some (cwKeep W (AList.update (fst ?e) (snd ?e) cache))"
    "clTasks (storeCache W K tr question m ttl c) = clTasks c" "clNow (storeCache W K tr question m ttl c) = clNow c"
    using False cache by (simp_all add: storeCache_def)
  have "set (cwKeep W (AList.update (fst ?e) (snd ?e) cache)) \<subseteq> insert ?e (set cache)"
    using assms(2) set_update[of "fst ?e" "snd ?e" cache] unfolding keepsEntries_def by force
  moreover have "entryOk W K (clNow c) ?e" using assms(3) False by (auto simp: entryOk_def)
  ultimately show ?thesis
    using clientOk_entry[OF assms(1) cache] assms(1) new unfolding clientOk_def by auto
qed

lemma exchangeToTransport_time: "tellsTime W \<Longrightarrow> exchangeToTransport W K t tr m timeout = (r, t1) \<Longrightarrow> t \<le> t1"
  unfolding exchangeToTransport_def tellsTime_def Let_def by (metis (mono_tags, lifting) case_prod_unfold snd_conv)

lemma loadResponse_ok:
  assumes "clientOk W K c" "loadResponse W K question tr c = (r, c')"
  shows "clientOk W K c'"
proof (rule clientOk_less[OF assms(1)])
  show "set (clTasks c') \<subseteq> set (clTasks c)" "clNow c \<le> clNow c'"
    using assms(2) by (auto simp: loadResponse_def split: if_splits option.splits prod.splits)
  fix cache'
  assume "clCache c' = Some cache'"
  with assms(2) set_delete[of "(question, trTag tr)"] show "(\<exists>cache. clCache c = Some cache \<and> set cache' \<subseteq> set cache) \<or> cache' = []"
    by (force simp: loadResponse_def split: if_splits option.splits prod.splits)
qed

lemma refresh_task_ok:
  assumes "clientOk W K c" "hd (msgQuestion message) = question"
  shows "clientOk W K (backgroundRefreshDNS tr question message o' check c)"
  using assms by (auto simp: backgroundRefreshDNS_def Let_def clientOk_def)

lemma exchangeUncached_ok:
  assumes "clientOk W K c" "tellsTime W" "keepsEntries W" "hd (msgQuestion message) = question"
    "exchangeUncached W K d c tag tr message question o' check = (res, c')"
  shows "clientOk W K c'"
proof -
  obtain r now' where x: "exchangeToTransport W K (clNow c) tr message (qoTimeout o') = (r, now')" by fastforce
  have later: "clientOk W K (c\<lparr>clNow := now'\<rparr>)"
    by (rule clientOk_less[OF assms(1)]) (use exchangeToTransport_time[OF assms(2) x] in auto)
  then have stored: "clientOk W K (c\<lparr>clNow := now', clStore := s\<rparr>)" for s by (simp add: clientOk_def)
  show ?thesis
  proof (cases "c' = c \<or> c' = c\<lparr>clNow := now'\<rparr> \<or> (\<exists>s. c' = c\<lparr>clNow := now', clStore := s\<rparr>)")
    case True
    with assms(1) later stored show ?thesis by auto
  next
    case False
    with assms(5) x obtain response where "r = Inr response" "cacheableRcode response"
      and c': "c' = (let (m, ttl) = applyResponseOptions question o' response in storeCache W K tr question m ttl (c\<lparr>clNow := now'\<rparr>))"
      by (auto simp: exchangeUncached_def Let_def split: if_splits sum.splits prod.splits)
    moreover obtain m ttl where "applyResponseOptions question o' response = (m, ttl)" by fastforce
    ultimately have a: "answeredAt W K (question, trTag tr) m ttl now'"
      and "c' = storeCache W K tr question m ttl (c\<lparr>clNow := now'\<rparr>)"
      using x answeredAtI[OF _ _ _ assms(4), of W K "clNow c" tr o' response now' m ttl] by simp_all
    with storeCache_ok[OF later assms(3), of question tr m ttl] show ?thesis by simp
  qed
qed

lemma client_Exchange_ok:
  assumes "clientOk W K c" "tellsTime W" "keepsEntries W"
    "client_Exchange W K c tag t message o' check = (res, c')"
  shows "clientOk W K c'"
proof (cases "c' = c")
  case False
  with assms(4) obtain question rest tr where q: "msgQuestion message = question # rest" and t: "t = Some tr"
    unfolding client_Exchange_def by (auto split: list.splits option.splits if_splits)
  let ?m = "prepareExchangeMessage K message o'"
  have hd: "hd (msgQuestion ?m) = question" by (simp add: prepare_keeps q)
  obtain lr c1 where load: "loadResponse W K question tr c = (lr, c1)" by fastforce
  note c1 = loadResponse_ok[OF assms(1) load]
  have "c' = c1 \<or> c' = backgroundRefreshDNS tr question ?m o' check c1 \<or>
    (\<exists>d c2. (c2 = c \<or> c2 = c1) \<and> exchangeUncached W K d c2 tag tr ?m question o' check = (res, c'))"
    using assms(4) False q t load unfolding client_Exchange_def Let_def
    by (auto split: option.splits if_splits prod.splits)
  then show ?thesis
    using c1 refresh_task_ok[OF c1 hd] exchangeUncached_ok[OF _ assms(2,3) hd] assms(1) by blast
qed (use assms(1) in simp)

lemma lookupToExchange_ok:
  assumes "clientOk W K c" "tellsTime W" "keepsEntries W"
    "lookupToExchange W K N c tag t name ty o' check = (res, c')"
  shows "clientOk W K c'"
proof -
  define message where "message = \<lparr>msgId = 0, msgResponse = False, msgAuthoritative = False, msgRecursionDesired = True,
    msgRecursionAvailable = False, msgRcode = RcodeSuccess, msgQuestion = [\<lparr>qName = name, qType = ty, qClass = ClassINET\<rparr>],
    msgAnswer = [], msgNs = [], msgExtra = []\<rparr>"
  have via: "clientOk W K c2" if "clientOk W K c1" "snd (client_Exchange W K c1 tag t message o' check) = c2" for c1 c2
    using client_Exchange_ok[OF that(1) assms(2,3)] that(2) by (metis prod.collapse)
  have cached: "clientOk W K c1" if "questionCache W K N c tr message o' check = (r, c1)" for tr r c1
  proof -
    obtain lr c0 where load: "loadResponse W K (hd (msgQuestion message)) tr c = (lr, c0)" by fastforce
    note c0 = loadResponse_ok[OF assms(1) load]
    have "c1 = c0 \<or> c1 = backgroundRefreshDNS tr (hd (msgQuestion message)) (prepareExchangeMessage K message o') o' check c0"
      using that load by (auto simp: questionCache_def Let_def split: option.splits if_splits prod.splits)
    with c0 refresh_task_ok[OF c0] prepare_keeps(2)[of K message o'] show ?thesis by auto
  qed
  have "(\<exists>c1. clientOk W K c1 \<and> snd (client_Exchange W K c1 tag t message o' check) = c') \<or> c' = c \<or>
    (\<exists>tr r. questionCache W K N c tr message o' check = (r, c'))"
  proof (cases "(ccDisableCache K \<or> qoDisableCache o') \<or> t = None")
    case True
    with assms(1,4) show ?thesis
      unfolding lookupToExchange_def Let_def message_def[symmetric]
      by (auto split: option.splits if_splits prod.splits)
  next
    case False
    then obtain tr where tr: "t = Some tr" by auto
    obtain as e c1 where qc: "questionCache W K N c tr message o' check = ((as, e), c1)" by (metis prod.collapse)
    with assms(4) False tr have "(as, e) = res \<and> c1 = c' \<or> snd (client_Exchange W K c1 tag t message o' check) = c'"
      unfolding lookupToExchange_def Let_def message_def[symmetric]
      by (auto split: option.splits if_splits prod.splits dnsError.splits)
    with qc cached[OF qc] show ?thesis by blast
  qed
  with via cached assms(1) show ?thesis by blast
qed

lemma client_Lookup_ok:
  assumes "clientOk W K c" "tellsTime W" "keepsEntries W"
    "client_Lookup W K N c tag t domain o' check = (res, c')"
  shows "clientOk W K c'"
proof -
  have step: "clientOk W K (snd (lookupToExchange W K N c1 tag t name ty o1 check))" if "clientOk W K c1" for c1 name ty o1
    using lookupToExchange_ok[OF that assms(2,3)] by (metis prod.collapse)
  have "clientOk W K (snd (client_Lookup W K N c tag t domain o' check))"
    unfolding client_Lookup_def Let_def case_prod_beta using step[OF assms(1)] step[OF step[OF assms(1)]] by auto
  with assms(4) show ?thesis by simp
qed

lemma refreshDNS_ok:
  assumes "clientOk W K c" "tellsTime W" "keepsEntries W" "t \<in> set (clTasks c)"
  shows "clientOk W K (refreshDNS W K t c)"
proof -
  let ?tr = "rtTransport t" let ?q = "rtQuestion t"
  obtain r now' where x: "exchangeToTransport W K (clNow c) ?tr (rtMessage t) (qoTimeout (rtOptions t)) = (r, now')" by fastforce
  define c1 where "c1 = c\<lparr>clNow := now', clTasks := remove1 t (clTasks c), clRefreshing := removeAll (?q, trTag ?tr) (clRefreshing c)\<rparr>"
  have c1: "clientOk W K c1"
    by (rule clientOk_less[OF assms(1)])
      (use exchangeToTransport_time[OF assms(2) x] set_remove1_subset[of t "clTasks c"] in \<open>auto simp: c1_def\<close>)
  then have stored: "clientOk W K (c1\<lparr>clStore := s\<rparr>)" for s by (simp add: clientOk_def)
  have hd: "hd (msgQuestion (rtMessage t)) = ?q" using assms(1,4) by (simp add: clientOk_def)
  show ?thesis
  proof (cases "refreshDNS W K t c = c1 \<or> (\<exists>s. refreshDNS W K t c = c1\<lparr>clStore := s\<rparr>)")
    case True
    with c1 stored show ?thesis by auto
  next
    case False
    obtain response where response: "r = Inr response" "cacheableRcode response"
      using False x by (cases r) (auto simp: refreshDNS_def Let_def c1_def[symmetric] isRejected_def split: if_splits option.splits)
    obtain m ttl where a: "applyResponseOptions ?q (rtOptions t) response = (m, ttl)" by fastforce
    have "refreshDNS W K t c = storeCache W K ?tr ?q m ttl c1"
      using False x response(1) a by (auto simp: refreshDNS_def Let_def c1_def[symmetric] split: if_splits)
    moreover have "answeredAt W K (?q, trTag ?tr) m ttl (clNow c1)"
      using answeredAtI[OF x[unfolded response(1)] response(2) a hd] by (simp add: c1_def)
    ultimately show ?thesis using storeCache_ok[OF c1 assms(3)] by simp
  qed
qed

text \<open>The runs of a client: its operations, refreshes that run, and time that passes.\<close>

inductive clientRun :: "'s clientWorld \<Rightarrow> clientConfig \<Rightarrow> dnsEnv \<Rightarrow> 's clientState \<Rightarrow> bool" for W K N where
  run_start: "clientRun W K N (client_Start K \<lparr>clNow = t, clCache = None, clStore = s, clRefreshing = [], clTasks = []\<rparr>)"
| run_exchange: "clientRun W K N c \<Longrightarrow> client_Exchange W K c tag t message o' check = (res, c') \<Longrightarrow> clientRun W K N c'"
| run_lookup: "clientRun W K N c \<Longrightarrow> client_Lookup W K N c tag t domain o' check = (res, c') \<Longrightarrow> clientRun W K N c'"
| run_refresh: "clientRun W K N c \<Longrightarrow> t \<in> set (clTasks c) \<Longrightarrow> clientRun W K N (refreshDNS W K t c)"
| run_clear: "clientRun W K N c \<Longrightarrow> clientRun W K N (client_ClearCache W K c)"
| run_time: "clientRun W K N c \<Longrightarrow> clNow c \<le> later \<Longrightarrow> clientRun W K N (c\<lparr>clNow := later\<rparr>)"

lemma clientRun_ok:
  assumes "clientRun W K N c" "tellsTime W" "keepsEntries W"
  shows "clientOk W K c"
  using assms(1)
proof (induction rule: clientRun.induct)
  case (run_start t s)
  show ?case by (simp add: client_Start_def initializeMemoryCache_def clientOk_def)
next
  case (run_exchange c tag t message o' check res c')
  from client_Exchange_ok[OF run_exchange(3) assms(2,3) run_exchange(2)] show ?case .
next
  case (run_lookup c tag t domain o' check res c')
  from client_Lookup_ok[OF run_lookup(3) assms(2,3) run_lookup(2)] show ?case .
next
  case (run_refresh c t)
  from refreshDNS_ok[OF run_refresh(3) assms(2,3) run_refresh(2)] show ?case .
next
  case (run_clear c)
  then show ?case by (auto simp: client_ClearCache_def Let_def clientOk_def split: option.splits)
next
  case (run_time c later)
  show ?case by (rule clientOk_less[OF run_time(3)]) (use run_time(2) in auto)
qed

text \<open>
  C39: An answer from the cache in memory is no older than it may be.  In every run of a client that lets
  entries expire, an answer that \<^verbatim>\<open>loadResponse\<close> finds was given for the same question by the server of the same
  tag, without an error code other than a missing name.  If it is not stale, its time-to-live is not over, and
  its records carry the whole seconds that are left of it; if it is stale, the time-to-live is over by less than
  the optimistic timeout, and its records carry one second.
\<close>

theorem cached_answer_fresh:
  assumes "tellsTime W" "keepsEntries W" "clientRun W K N c" "\<not> ccDNSCache K" "\<not> ccDisableExpire K"
    "loadResponse W K question tr c = (Some (response, left, stale), c')"
  shows "\<exists>answer life t1. answeredAt W K (question, trTag tr) answer life t1 \<and> t1 \<le> clNow c \<and>
    (if stale then t1 + second * uint life < clNow c \<and> clNow c < t1 + second * uint life + ccOptimisticTimeout K \<and>
        response = normalizeTTL 1 answer
     else clNow c \<le> t1 + second * uint life \<and> left = (t1 + second * uint life - clNow c) div second \<and>
        response = normalizeTTL (word_of_int left) answer)"
proof -
  from assms(4-6) obtain cache answer expireAt where cache: "clCache c = Some cache"
    "map_of cache (question, trTag tr) = Some (answer, expireAt)"
    and f: "freshness K (clNow c) answer expireAt = Some (response, left, stale)"
    by (auto simp: loadResponse_def split: option.splits prod.splits)
  from clientOk_entry[OF clientRun_ok[OF assms(3,1,2)] cache(1) map_of_SomeD[OF cache(2)]]
  obtain t1 life where "answeredAt W K (question, trTag tr) answer life t1" "t1 \<le> clNow c"
    and e: "expireAt = t1 + second * uint life" by (auto simp: entryOk_def)
  moreover have "if stale then expireAt < clNow c \<and> clNow c < expireAt + ccOptimisticTimeout K \<and> response = normalizeTTL 1 answer
     else clNow c \<le> expireAt \<and> left = (expireAt - clNow c) div second \<and> response = normalizeTTL (word_of_int left) answer"
    using f by (auto simp: freshness_def Let_def second_def max_def split: if_splits)
  ultimately show ?thesis by blast
qed

section \<open>An example\<close>

text \<open>A server that answers every message with one address, valid for a minute, after a second.\<close>

definition exampleAnswer :: "dnsMsg \<Rightarrow> dnsMsg" where
  "exampleAnswer m = m\<lparr>msgId := 99, msgResponse := True, msgAnswer := [\<lparr>rrName = qName (hd (msgQuestion m)), rrType = TypeA,
     rrClass = ClassINET, rrTtl = 60, rrData = RData_A [1, 2, 3, 4]\<rparr>]\<rparr>"

definition exampleWorld :: "unit clientWorld" where
  "exampleWorld = \<lparr>cwExchange = (\<lambda>now tr timeout m. (Inr (exampleAnswer m), now + second)),
     cwLock = (\<lambda>_ _. LockFree), cwKeep = (\<lambda>cache. cache),
     cwLoadRDRC = (\<lambda>_ _ _ _ _. False), cwSaveRDRC = (\<lambda>s _ _ _ _. s),
     cwLoadDNSCache = (\<lambda>_ _ _ _ _. None), cwSaveDNSCache = (\<lambda>s _ _ _ _ _. s), cwClearDNSCache = (\<lambda>s. s),
     cwPack = (\<lambda>_. None), cwUnpack = (\<lambda>_. None), cwIsEdns0 = (\<lambda>m. find (\<lambda>r. rrType r = TypeOPT) (msgExtra m)),
     cwVersion = (\<lambda>_. 0), cwSetEdns0 = (\<lambda>m r. m\<lparr>msgExtra := msgExtra m @ [r]\<rparr>)\<rparr>"

definition exampleConfig :: clientConfig where
  "exampleConfig = \<lparr>ccTimeout = 10 * second, ccDisableCache = False, ccDisableExpire = False, ccOptimisticTimeout = 0,
     ccClientSubnet = noPrefix, ccRDRC = False, ccDNSCache = False\<rparr>"

definition exampleQuestion :: Question where
  "exampleQuestion = \<lparr>qName = ''a.org.'', qType = TypeA, qClass = ClassINET\<rparr>"

definition exampleQuery :: dnsMsg where
  "exampleQuery = \<lparr>msgId = 7, msgResponse = False, msgAuthoritative = False, msgRecursionDesired = True,
     msgRecursionAvailable = False, msgRcode = RcodeSuccess, msgQuestion = [exampleQuestion], msgAnswer = [], msgNs = [], msgExtra = []\<rparr>"

definition exampleServer :: dnsTransport where "exampleServer = \<lparr>trTag = ''local'', trType = ''udp''\<rparr>"

definition exampleStart :: "unit clientState" where
  "exampleStart = client_Start exampleConfig \<lparr>clNow = 0, clCache = None, clStore = (), clRefreshing = [], clTasks = []\<rparr>"

definition exampleExchanged :: "(dnsMsg option \<times> dnsError option) \<times> unit clientState" where
  "exampleExchanged = client_Exchange exampleWorld exampleConfig exampleStart None (Some exampleServer) exampleQuery noQueryOptions None"

lemma exampleWorld_ok: "ednsHelpers exampleWorld" "tellsTime exampleWorld" "keepsEntries exampleWorld"
  by (auto simp: ednsHelpers_def tellsTime_def keepsEntries_def exampleWorld_def second_def find_None_iff list_ex_iff)



definition exampleLater :: "unit clientState" where
  "exampleLater = (snd exampleExchanged)\<lparr>clNow := 31 * second\<rparr>"

theorem cached_answer_fresh_witness:
  "\<exists>answer life t1. answeredAt exampleWorld exampleConfig (exampleQuestion, ''local'') answer life t1 \<and>
    31 * second \<le> t1 + second * uint life \<and> 30 = (t1 + second * uint life - 31 * second) div second"
proof -
  have "clientRun exampleWorld exampleConfig N exampleStart" for N
    unfolding exampleStart_def by (rule run_start)
  then have "clientRun exampleWorld exampleConfig N (snd exampleExchanged)" for N
    by (rule run_exchange[where res = "fst exampleExchanged"]) (simp add: exampleExchanged_def)
  then have run: "clientRun exampleWorld exampleConfig N exampleLater" for N
    unfolding exampleLater_def by (rule run_time) code_simp
  have load: "fst (loadResponse exampleWorld exampleConfig exampleQuestion exampleServer exampleLater) =
    Some (fst (the (fst (loadResponse exampleWorld exampleConfig exampleQuestion exampleServer exampleLater))), 30, False)"
    by code_simp
  then obtain response c' where l: "loadResponse exampleWorld exampleConfig exampleQuestion exampleServer exampleLater =
    (Some (response, 30, False), c')" by (metis prod.collapse)
  have K: "\<not> ccDNSCache exampleConfig" "\<not> ccDisableExpire exampleConfig" by (simp_all add: exampleConfig_def)
  have now: "clNow exampleLater = 31 * second" by (simp add: exampleLater_def)
  have tag: "trTag exampleServer = ''local''" by (simp add: exampleServer_def)
  from cached_answer_fresh[OF exampleWorld_ok(2,3) run K l] show ?thesis unfolding now tag if_False by blast
qed

end
