(* ===== verification/Managers.thy ===== *)
theory Managers
  imports Prelude
begin

text \<open>
  The managers that own the inbounds, endpoints, services, certificate providers, outbounds and DNS
  servers of an instance (\<^verbatim>\<open>adapter/*/manager.go\<close>, \<^verbatim>\<open>dns/transport_manager.go\<close>) with the start stages of
  \<^verbatim>\<open>adapter/lifecycle.go\<close>.  A manager keeps its objects in a list and in a map by tag, starts them stage by
  stage, replaces and removes them at run time, and closes them.

  An object is what the managers see of it: its identity, type, tag and dependencies, and the life-cycle
  methods it has.  What a method returns is a parameter that may depend on the whole history of calls; the
  history itself is the observable effect.  Each operation runs under the manager's lock and is one step of
  the model.  An error is the list of the errors that \<^verbatim>\<open>E.Append\<close> and \<^verbatim>\<open>E.Errors\<close> collect, the empty list is nil.
\<close>

section \<open>Stages and calls\<close>

datatype StartStage = StartStateInitialize | StartStateStart | StartStatePostStart | StartStateStarted

fun stageIndex :: "StartStage \<Rightarrow> nat" where
  "stageIndex StartStateInitialize = 0"
| "stageIndex StartStateStart = 1"
| "stageIndex StartStatePostStart = 2"
| "stageIndex StartStateStarted = 3"

lemma stageIndex_inj: "stageIndex s = stageIndex t \<Longrightarrow> s = t"
  by (cases s; cases t) auto

instantiation StartStage :: linorder
begin

definition less_eq_StartStage :: "StartStage \<Rightarrow> StartStage \<Rightarrow> bool" where
  "less_eq_StartStage s t \<longleftrightarrow> stageIndex s \<le> stageIndex t"

definition less_StartStage :: "StartStage \<Rightarrow> StartStage \<Rightarrow> bool" where
  "less_StartStage s t \<longleftrightarrow> stageIndex s < stageIndex t"

instance
  by standard (auto simp: less_eq_StartStage_def less_StartStage_def stageIndex_inj)

end

definition ListStartStages :: "StartStage list" where
  "ListStartStages = [StartStateInitialize, StartStateStart, StartStatePostStart, StartStateStarted]"

fun StartStage_String :: "StartStage \<Rightarrow> string" where
  "StartStage_String StartStateInitialize = ''initialize''"
| "StartStage_String StartStateStart = ''start''"
| "StartStage_String StartStatePostStart = ''post-start''"
| "StartStage_String StartStateStarted = ''finish-start''"

text \<open>
  \<open>adId\<close> is the identity of the object; \<open>adLifecycle\<close> tells whether it implements \<^verbatim>\<open>adapter.Lifecycle\<close>, the
  other flags whether it has the methods \<^verbatim>\<open>PreStart()\<close>, \<^verbatim>\<open>Start()\<close>, \<^verbatim>\<open>PostStart()\<close> and \<^verbatim>\<open>Close()\<close>.
\<close>

record adapterObj =
  adId :: nat
  adType :: string
  adTag :: string
  adDependencies :: "string list"
  adLifecycle :: bool
  adPreStarter :: bool
  adStarter :: bool
  adPostStarter :: bool
  adCloser :: bool

datatype lifecycleCall = CallStart StartStage | CallPreStart | CallStartPlain | CallPostStart | CallClose

type_synonym history = "(adapterObj \<times> lifecycleCall) list"
type_synonym behaviour = "history \<Rightarrow> adapterObj \<Rightarrow> lifecycleCall \<Rightarrow> goerror option"

definition invoke :: "behaviour \<Rightarrow> adapterObj \<Rightarrow> lifecycleCall \<Rightarrow> history \<Rightarrow> goerror option \<times> history" where
  "invoke L a c h = (L h a c, h @ [(a, c)])"

definition LegacyStart :: "behaviour \<Rightarrow> adapterObj \<Rightarrow> StartStage \<Rightarrow> history \<Rightarrow> goerror option \<times> history" where
  "LegacyStart L a stage h =
     (if adLifecycle a then invoke L a (CallStart stage) h
      else case stage of
        StartStateInitialize \<Rightarrow> if adPreStarter a then invoke L a CallPreStart h else (None, h)
      | StartStateStart \<Rightarrow> if adStarter a then invoke L a CallStartPlain h else (None, h)
      | StartStateStarted \<Rightarrow> if adPostStarter a then invoke L a CallPostStart h else (None, h)
      | StartStatePostStart \<Rightarrow> (None, h))"

text \<open>
  \<^verbatim>\<open>common.Close\<close>, and the type assertion to \<^verbatim>\<open>io.Closer\<close> of the \<^verbatim>\<open>Close\<close> loops; an object with
  \<^verbatim>\<open>adapter.Lifecycle\<close>, as all but outbounds are, always has the method.
\<close>

definition closeObj :: "behaviour \<Rightarrow> adapterObj \<Rightarrow> history \<Rightarrow> goerror option \<times> history" where
  "closeObj L a h = (if adCloser a then invoke L a CallClose h else (None, h))"

definition ErrInvalid :: goerror where "ErrInvalid = EOther ''invalid argument''"

definition objName :: "string \<Rightarrow> adapterObj \<Rightarrow> string" where
  "objName kind a = kind @ ''/'' @ adType a @ ''['' @ adTag a @ '']''"

section \<open>The common part of the managers\<close>

record manager =
  mStarted :: bool
  mStage :: StartStage
  mItems :: "adapterObj list"
  mByTag :: "(string, adapterObj) gomap"

definition NewManager :: manager where
  "NewManager = \<lparr>mStarted = False, mStage = StartStateInitialize, mItems = [], mByTag = []\<rparr>"

text \<open>The loop over the objects in \<^verbatim>\<open>Start\<close>: the first error ends it.\<close>

fun startEach :: "behaviour \<Rightarrow> string \<Rightarrow> StartStage \<Rightarrow> adapterObj list \<Rightarrow> history \<Rightarrow> goerror list \<times> history" where
  "startEach L kind stage [] h = ([], h)"
| "startEach L kind stage (a # as) h = (case LegacyStart L a stage h of
     (None, h') \<Rightarrow> startEach L kind stage as h'
   | (Some e, h') \<Rightarrow> ([ECause e (StartStage_String stage @ '' '' @ objName kind a)], h'))"

text \<open>The loop over the objects in \<^verbatim>\<open>Close\<close>: every object is closed, the errors add up.\<close>

fun closeEach :: "behaviour \<Rightarrow> string \<Rightarrow> adapterObj list \<Rightarrow> history \<Rightarrow> goerror list \<times> history" where
  "closeEach L kind [] h = ([], h)"
| "closeEach L kind (a # as) h =
     (let (e, h1) = closeObj L a h;
          (es, h2) = closeEach L kind as h1
      in ((case e of None \<Rightarrow> es | Some e' \<Rightarrow> ECause e' (''close '' @ objName kind a) # es), h2))"

definition alreadyStarted :: "'m manager_scheme \<Rightarrow> StartStage \<Rightarrow> bool" where
  "alreadyStarted m stage \<longleftrightarrow> mStarted m \<and> mStage m \<ge> stage"

text \<open>
  \<^verbatim>\<open>Start\<close> of the simple managers; \<open>elsewhere\<close> is the stage that another manager runs for these objects, if any.
\<close>

definition manager_Start ::
  "behaviour \<Rightarrow> string \<Rightarrow> StartStage option \<Rightarrow> manager \<Rightarrow> StartStage \<Rightarrow> history \<Rightarrow> goerror list \<times> manager \<times> history" where
  "manager_Start L kind elsewhere m stage h =
     (if alreadyStarted m stage then ([EPanic ''already started''], m, h)
      else
        let m' = m\<lparr>mStarted := True, mStage := stage\<rparr>
        in if elsewhere = Some stage then ([], m', h)
        else let (es, h') = startEach L kind stage (mItems m') h in (es, m', h'))"

definition manager_Close ::
  "behaviour \<Rightarrow> string \<Rightarrow> 'm manager_scheme \<Rightarrow> history \<Rightarrow> goerror list \<times> 'm manager_scheme \<times> history" where
  "manager_Close L kind m h =
     (if \<not> mStarted m then ([], m, h)
      else let (es, h') = closeEach L kind (mItems m) h in (es, m\<lparr>mStarted := False, mItems := []\<rparr>, h'))"

definition manager_Get :: "'m manager_scheme \<Rightarrow> string \<Rightarrow> adapterObj option" where
  "manager_Get m tag = map_of (mByTag m) tag"

definition toList :: "'a option \<Rightarrow> 'a list" where
  "toList x = (case x of None \<Rightarrow> [] | Some a \<Rightarrow> [a])"

definition manager_Remove ::
  "behaviour \<Rightarrow> string \<Rightarrow> manager \<Rightarrow> string \<Rightarrow> history \<Rightarrow> goerror list \<times> manager \<times> history" where
  "manager_Remove L what m tag h = (case map_of (mByTag m) tag of
     None \<Rightarrow> ([ErrInvalid], m, h)
   | Some a \<Rightarrow>
       let m1 = m\<lparr>mByTag := AList.delete tag (mByTag m)\<rparr>
       in if a \<notin> set (mItems m) then ([EPanic (''invalid '' @ what @ '' index'')], m1, h)
       else
         let m2 = m1\<lparr>mItems := remove1 a (mItems m)\<rparr>
         in if mStarted m then let (e, h') = invoke L a CallClose h in (toList e, m2, h')
         else ([], m2, h))"

text \<open>The stages a new object goes through when the manager is running.\<close>

fun startStages ::
  "behaviour \<Rightarrow> adapterObj \<Rightarrow> StartStage list \<Rightarrow> history \<Rightarrow> (StartStage \<times> goerror) option \<times> history" where
  "startStages L a [] h = (None, h)"
| "startStages L a (stage # rest) h = (case LegacyStart L a stage h of
     (None, h') \<Rightarrow> startStages L a rest h'
   | (Some e, h') \<Rightarrow> (Some (stage, e), h'))"

text \<open>The error of a failed \<^verbatim>\<open>Create\<close>; all managers but that of the certificate providers close the new object.\<close>

definition failCreate ::
  "behaviour \<Rightarrow> bool \<Rightarrow> string \<Rightarrow> adapterObj \<Rightarrow> goerror \<Rightarrow> history \<Rightarrow> goerror list \<times> history" where
  "failCreate L closeNew kind a err h =
     (if \<not> closeNew then ([err], h)
      else let (ce, h') = closeObj L a h
           in (err # map (\<lambda>e. ECause e (''close failed '' @ objName kind a)) (toList ce), h'))"

text \<open>
  \<^verbatim>\<open>Create\<close> up to the change of the list: start the new object, then close the one it replaces.  The result is
  the errors, empty if the change goes on.
\<close>

definition startNew ::
  "behaviour \<Rightarrow> bool \<Rightarrow> string \<Rightarrow> 'm manager_scheme \<Rightarrow> string \<Rightarrow> adapterObj \<Rightarrow> history \<Rightarrow> goerror list \<times> history" where
  "startNew L closeNew kind m tag a h =
     (if \<not> mStarted m then ([], h)
      else case startStages L a ListStartStages h of
        (Some (stage, e), h1) \<Rightarrow>
          failCreate L closeNew kind a (ECause e (StartStage_String stage @ '' '' @ objName kind a)) h1
      | (None, h1) \<Rightarrow> (case map_of (mByTag m) tag of
          None \<Rightarrow> ([], h1)
        | Some old \<Rightarrow> (case closeObj L old h1 of
            (None, h2) \<Rightarrow> ([], h2)
          | (Some e, h2) \<Rightarrow> failCreate L closeNew kind a (ECause e (''close '' @ objName kind old)) h2)))"

text \<open>The list without the object that has the tag now, if there is one; \<open>None\<close> is the panic.\<close>

definition withoutTag :: "'m manager_scheme \<Rightarrow> string \<Rightarrow> adapterObj list option" where
  "withoutTag m tag = (case map_of (mByTag m) tag of
     None \<Rightarrow> Some (mItems m)
   | Some old \<Rightarrow> if old \<in> set (mItems m) then Some (remove1 old (mItems m)) else None)"

definition manager_Create ::
  "behaviour \<Rightarrow> bool \<Rightarrow> string \<Rightarrow> string \<Rightarrow> manager \<Rightarrow> string \<Rightarrow> (goerror, adapterObj) result \<Rightarrow> history \<Rightarrow>
   goerror list \<times> manager \<times> history" where
  "manager_Create L closeNew kind what m tag created h = (case created of
     Inl e \<Rightarrow> ([e], m, h)
   | Inr a \<Rightarrow> (case startNew L closeNew kind m tag a h of
       (e # es, h') \<Rightarrow> (e # es, m, h')
     | ([], h') \<Rightarrow> (case withoutTag m tag of
         None \<Rightarrow> ([EPanic (''invalid '' @ what @ '' index'')], m, h')
       | Some items \<Rightarrow> ([], m\<lparr>mItems := items @ [a], mByTag := AList.update tag a (mByTag m)\<rparr>, h'))))"

section \<open>Inbounds, endpoints, services and certificate providers\<close>

definition inbound_Start :: "behaviour \<Rightarrow> manager \<Rightarrow> StartStage \<Rightarrow> history \<Rightarrow> goerror list \<times> manager \<times> history" where
  "inbound_Start L = manager_Start L ''inbound'' None"

definition inbound_Close :: "behaviour \<Rightarrow> manager \<Rightarrow> history \<Rightarrow> goerror list \<times> manager \<times> history" where
  "inbound_Close L = manager_Close L ''inbound''"

text \<open>An unknown inbound may still be an endpoint.\<close>

definition inbound_Get :: "manager \<Rightarrow> manager \<Rightarrow> string \<Rightarrow> adapterObj option" where
  "inbound_Get endpoint m tag = (case manager_Get m tag of Some a \<Rightarrow> Some a | None \<Rightarrow> manager_Get endpoint tag)"

definition inbound_Remove :: "behaviour \<Rightarrow> manager \<Rightarrow> string \<Rightarrow> history \<Rightarrow> goerror list \<times> manager \<times> history" where
  "inbound_Remove L = manager_Remove L ''inbound''"

definition inbound_Create ::
  "behaviour \<Rightarrow> manager \<Rightarrow> string \<Rightarrow> (goerror, adapterObj) result \<Rightarrow> history \<Rightarrow> goerror list \<times> manager \<times> history" where
  "inbound_Create L = manager_Create L True ''inbound'' ''inbound''"

text \<open>Endpoints run the stage \<^verbatim>\<open>start\<close> with the outbounds.\<close>

definition endpoint_Start :: "behaviour \<Rightarrow> manager \<Rightarrow> StartStage \<Rightarrow> history \<Rightarrow> goerror list \<times> manager \<times> history" where
  "endpoint_Start L = manager_Start L ''endpoint'' (Some StartStateStart)"

definition endpoint_Close :: "behaviour \<Rightarrow> manager \<Rightarrow> history \<Rightarrow> goerror list \<times> manager \<times> history" where
  "endpoint_Close L = manager_Close L ''endpoint''"

definition endpoint_Remove :: "behaviour \<Rightarrow> manager \<Rightarrow> string \<Rightarrow> history \<Rightarrow> goerror list \<times> manager \<times> history" where
  "endpoint_Remove L = manager_Remove L ''endpoint''"

definition endpoint_Create ::
  "behaviour \<Rightarrow> manager \<Rightarrow> string \<Rightarrow> (goerror, adapterObj) result \<Rightarrow> history \<Rightarrow> goerror list \<times> manager \<times> history" where
  "endpoint_Create L = manager_Create L True ''endpoint'' ''endpoint''"

definition service_Start :: "behaviour \<Rightarrow> manager \<Rightarrow> StartStage \<Rightarrow> history \<Rightarrow> goerror list \<times> manager \<times> history" where
  "service_Start L = manager_Start L ''service'' None"

definition service_Close :: "behaviour \<Rightarrow> manager \<Rightarrow> history \<Rightarrow> goerror list \<times> manager \<times> history" where
  "service_Close L = manager_Close L ''service''"

definition service_Remove :: "behaviour \<Rightarrow> manager \<Rightarrow> string \<Rightarrow> history \<Rightarrow> goerror list \<times> manager \<times> history" where
  "service_Remove L = manager_Remove L ''service''"

definition service_Create ::
  "behaviour \<Rightarrow> manager \<Rightarrow> string \<Rightarrow> (goerror, adapterObj) result \<Rightarrow> history \<Rightarrow> goerror list \<times> manager \<times> history" where
  "service_Create L = manager_Create L True ''service'' ''service''"

definition provider_Start :: "behaviour \<Rightarrow> manager \<Rightarrow> StartStage \<Rightarrow> history \<Rightarrow> goerror list \<times> manager \<times> history" where
  "provider_Start L = manager_Start L ''certificate-provider'' None"

definition provider_Close :: "behaviour \<Rightarrow> manager \<Rightarrow> history \<Rightarrow> goerror list \<times> manager \<times> history" where
  "provider_Close L = manager_Close L ''certificate-provider''"

definition provider_Remove :: "behaviour \<Rightarrow> manager \<Rightarrow> string \<Rightarrow> history \<Rightarrow> goerror list \<times> manager \<times> history" where
  "provider_Remove L = manager_Remove L ''certificate provider''"

definition provider_Create ::
  "behaviour \<Rightarrow> manager \<Rightarrow> string \<Rightarrow> (goerror, adapterObj) result \<Rightarrow> history \<Rightarrow> goerror list \<times> manager \<times> history" where
  "provider_Create L = manager_Create L False ''certificate-provider'' ''certificate provider''"

section \<open>Starting in the order of dependencies\<close>

text \<open>
  The words by which the messages of the two dependency managers differ: the prefix of the name, and what an
  object is called.
\<close>

record vocabulary =
  voPrefix :: string
  voObject :: string

text \<open>
  One pass of the loop \<^verbatim>\<open>startOne\<close>.  The map \<^verbatim>\<open>started\<close> is the list of its keys in the order of insertion; an
  object starts through \<^verbatim>\<open>Lifecycle\<close>, or through a plain \<^verbatim>\<open>Start()\<close>.
\<close>

fun startPass ::
  "behaviour \<Rightarrow> vocabulary \<Rightarrow> adapterObj list \<Rightarrow> string list \<Rightarrow> bool \<Rightarrow> history \<Rightarrow>
   goerror option \<times> string list \<times> bool \<times> history" where
  "startPass L V [] started canContinue h = (None, started, canContinue, h)"
| "startPass L V (a # as) started canContinue h =
     (if adTag a \<in> set started then startPass L V as started canContinue h
      else if \<exists>d \<in> set (adDependencies a). d \<notin> set started then startPass L V as started canContinue h
      else case LegacyStart L a StartStateStart h of
        (None, h') \<Rightarrow> startPass L V as (started @ [adTag a]) True h'
      | (Some e, h') \<Rightarrow>
          (Some (ECause e (''start '' @ objName (voPrefix V) a)), started @ [adTag a], True, h'))"

text \<open>\<^verbatim>\<open>strings.Join(tree, " -> ")\<close> and the function \<^verbatim>\<open>lintTransport\<close>, \<^verbatim>\<open>lintOutbound\<close> that explains why no object can start.\<close>

fun joinTags :: "string \<Rightarrow> string list \<Rightarrow> string" where
  "joinTags sep [] = ''''"
| "joinTags sep [t] = t"
| "joinTags sep (t # ts) = t @ sep @ joinTags sep ts"

definition firstMissing :: "string list \<Rightarrow> adapterObj \<Rightarrow> string" where
  "firstMissing started a = (case find (\<lambda>d. d \<notin> set started) (adDependencies a) of None \<Rightarrow> '''' | Some d \<Rightarrow> d)"

function lint ::
  "vocabulary \<Rightarrow> (string, adapterObj) gomap \<Rightarrow> string list \<Rightarrow> string list \<Rightarrow> adapterObj \<Rightarrow> goerror" where
  "lint V byTag started oTree a =
     (let problem = firstMissing started a
      in if problem \<in> set oTree
      then ENew (''circular '' @ voObject V @ '' dependency: '' @ joinTags '' -> '' oTree @ '' -> '' @ problem)
      else case map_of byTag problem of
        None \<Rightarrow> ENew (''dependency['' @ problem @ ''] not found for '' @ voObject V @ ''['' @ adTag a @ '']'')
      | Some next \<Rightarrow> lint V byTag started (oTree @ [problem]) next)"
  by pat_completeness auto
termination
proof (relation "measure (\<lambda>(V, byTag, started, oTree, a). card (dom (map_of byTag) - set oTree))", goal_cases)
  case (2 V byTag started oTree a problem b)
  then have "problem \<in> dom (map_of byTag) - set oTree" by auto
  then have "dom (map_of byTag) - set (oTree @ [problem]) \<subset> dom (map_of byTag) - set oTree" by auto
  then show ?case by (simp add: psubset_card_mono finite_dom_map_of)
qed simp

declare lint.simps [simp del]

lemma startPass_grows:
  assumes "startPass L V as started c h = (e, started', c', h')"
  shows "\<exists>new. started' = started @ new \<and> set new \<subseteq> adTag ` set as \<and> distinct new \<and> set new \<inter> set started = {} \<and>
    (c' \<longleftrightarrow> c \<or> new \<noteq> [])"
  using assms
proof (induction as arbitrary: started c h)
  case (Cons a as)
  show ?case
  proof (cases "adTag a \<in> set started \<or> (\<exists>d \<in> set (adDependencies a). d \<notin> set started)")
    case True
    with Cons.prems have "startPass L V as started c h = (e, started', c', h')" by (auto split: if_splits)
    from Cons.IH[OF this] show ?thesis by auto
  next
    case False
    obtain e1 h1 where ls: "LegacyStart L a StartStateStart h = (e1, h1)" by fastforce
    show ?thesis
    proof (cases e1)
      case None
      with False ls Cons.prems have "startPass L V as (started @ [adTag a]) True h1 = (e, started', c', h')" by simp
      from Cons.IH[OF this] obtain new where "started' = started @ adTag a # new" "set new \<subseteq> adTag ` set as"
        "distinct new" "set new \<inter> set (started @ [adTag a]) = {}" "c'" by auto
      with False show ?thesis by (intro exI[of _ "adTag a # new"]) auto
    next
      case (Some e2)
      with False ls Cons.prems show ?thesis by (intro exI[of _ "[adTag a]"]) auto
    qed
  qed
qed simp

lemma startPass_shrinks:
  assumes "startPass L V items started False h = (e, started', True, h')"
  shows "card (adTag ` set items - set started') < card (adTag ` set items - set started)"
proof -
  from startPass_grows[OF assms] obtain new where new: "started' = started @ new" "set new \<subseteq> adTag ` set items"
    "set new \<inter> set started = {}" "new \<noteq> []" by auto
  then obtain t where "t \<in> set new" by (cases new) auto
  with new have "adTag ` set items - set started' \<subset> adTag ` set items - set started" by auto
  then show ?thesis by (simp add: psubset_card_mono)
qed

text \<open>
  \<^verbatim>\<open>startTransports\<close> and \<^verbatim>\<open>startOutbounds\<close>: passes until all have started.  If a pass starts nothing, the result is
  the explanation for the first object left; that none is left, though the count differs, happens only with
  two objects of one tag and ends in a nil dereference.
\<close>

function startInOrder ::
  "behaviour \<Rightarrow> vocabulary \<Rightarrow> (string, adapterObj) gomap \<Rightarrow> adapterObj list \<Rightarrow> string list \<Rightarrow> history \<Rightarrow>
   goerror list \<times> string list \<times> history" where
  "startInOrder L V byTag items started h = (case startPass L V items started False h of
     (Some e, started', canContinue, h') \<Rightarrow> ([e], started', h')
   | (None, started', canContinue, h') \<Rightarrow>
       if length started' = length items then ([], started', h')
       else if canContinue then startInOrder L V byTag items started' h'
       else (case find (\<lambda>a. adTag a \<notin> set started') items of
         None \<Rightarrow> ([EPanic ''invalid memory address or nil pointer dereference''], started', h')
       | Some current \<Rightarrow> ([lint V byTag started' [adTag current] current], started', h')))"
  by pat_completeness auto
termination
  by (relation "measure (\<lambda>(L, V, byTag, items, started, h). card (adTag ` set items - set started))")
    (auto dest: startPass_shrinks[OF sym])

declare startInOrder.simps [simp del]

definition outboundVocabulary :: vocabulary where
  "outboundVocabulary = \<lparr>voPrefix = ''outbound'', voObject = ''outbound''\<rparr>"

definition serverVocabulary :: vocabulary where
  "serverVocabulary = \<lparr>voPrefix = ''dns'', voObject = ''server''\<rparr>"

definition startOutbounds ::
  "behaviour \<Rightarrow> (string, adapterObj) gomap \<Rightarrow> adapterObj list \<Rightarrow> history \<Rightarrow> goerror list \<times> history" where
  "startOutbounds L byTag items h = (let (es, s, h') = startInOrder L outboundVocabulary byTag items [] h in (es, h'))"

definition startTransports ::
  "behaviour \<Rightarrow> (string, adapterObj) gomap \<Rightarrow> adapterObj list \<Rightarrow> history \<Rightarrow> goerror list \<times> history" where
  "startTransports L byTag items h = (let (es, s, h') = startInOrder L serverVocabulary byTag items [] h in (es, h'))"

section \<open>Outbounds\<close>

record dependencyManager = manager +
  dmDefaultTag :: string
  dmDependBy :: "(string, string list) gomap"
  dmDefault :: "adapterObj option"

definition outbound_New :: "string \<Rightarrow> dependencyManager" where
  "outbound_New tag = \<lparr>mStarted = False, mStage = StartStateInitialize, mItems = [], mByTag = [],
     dmDefaultTag = tag, dmDependBy = [], dmDefault = None\<rparr>"

text \<open>Add the fallback as the only object, and as the default.\<close>

definition withFallback :: "adapterObj \<Rightarrow> 'm dependencyManager_scheme \<Rightarrow> 'm dependencyManager_scheme" where
  "withFallback a m = m\<lparr>mItems := mItems m @ [a], mByTag := AList.update (adTag a) a (mByTag m), dmDefault := Some a\<rparr>"

text \<open>The default outbound may be an endpoint; \<open>fallback\<close> is what \<^verbatim>\<open>defaultOutboundFallback\<close> returns.\<close>

definition outbound_Start ::
  "behaviour \<Rightarrow> manager \<Rightarrow> (goerror, adapterObj) result \<Rightarrow> dependencyManager \<Rightarrow> StartStage \<Rightarrow> history \<Rightarrow>
   goerror list \<times> dependencyManager \<times> history" where
  "outbound_Start L endpoint fallback m stage h =
     (if alreadyStarted m stage then ([EPanic ''already started''], m, h)
      else
        let m1 = m\<lparr>mStarted := True, mStage := stage\<rparr>
        in if stage \<noteq> StartStateStart
        then (let (es, h') = startEach L ''outbound'' stage (mItems m1) h in (es, m1, h'))
        else if dmDefaultTag m \<noteq> '''' \<and> dmDefault m = None \<and> manager_Get endpoint (dmDefaultTag m) = None
        then ([ENew (''default outbound not found: '' @ dmDefaultTag m)], m1, h)
        else
          let m2 = (if dmDefaultTag m \<noteq> '''' \<and> dmDefault m = None
                    then m1\<lparr>dmDefault := manager_Get endpoint (dmDefaultTag m)\<rparr> else m1)
          in (case (dmDefault m2, fallback) of
            (None, Inl e) \<Rightarrow> ([ECause e ''create direct outbound for fallback''], m2, h)
          | (None, Inr a) \<Rightarrow>
              (let m3 = withFallback a m2;
                   (es, h') = startOutbounds L (mByTag m3) (mItems m3 @ mItems endpoint) h
               in (es, m3, h'))
          | (Some _, _) \<Rightarrow>
              (let (es, h') = startOutbounds L (mByTag m2) (mItems m2 @ mItems endpoint) h
               in (es, m2, h'))))"

definition outbound_Close ::
  "behaviour \<Rightarrow> dependencyManager \<Rightarrow> history \<Rightarrow> goerror list \<times> dependencyManager \<times> history" where
  "outbound_Close L = manager_Close L ''outbound''"

definition outbound_Outbound :: "manager \<Rightarrow> dependencyManager \<Rightarrow> string \<Rightarrow> adapterObj option" where
  "outbound_Outbound endpoint m tag = (case manager_Get m tag of Some a \<Rightarrow> Some a | None \<Rightarrow> manager_Get endpoint tag)"

definition removeDependency :: "string \<Rightarrow> string \<Rightarrow> (string, string list) gomap \<Rightarrow> (string, string list) gomap" where
  "removeDependency tag dependency dependBy =
     (if length (getd [] dependBy dependency) = 1 then AList.delete dependency dependBy
      else AList.update dependency (filter (\<lambda>it. it \<noteq> tag) (getd [] dependBy dependency)) dependBy)"

definition removeDependenciesLocked :: "adapterObj \<Rightarrow> 'm dependencyManager_scheme \<Rightarrow> 'm dependencyManager_scheme" where
  "removeDependenciesLocked a m =
     m\<lparr>dmDependBy := fold (removeDependency (adTag a)) (adDependencies a) (dmDependBy m)\<rparr>"

definition addDependencies :: "string \<Rightarrow> string list \<Rightarrow> (string, string list) gomap \<Rightarrow> (string, string list) gomap" where
  "addDependencies tag ds dependBy =
     fold (\<lambda>d m. AList.update d (getd [] m d @ [tag]) m) ds dependBy"

text \<open>The message that an object is still needed.\<close>

definition dependedBy :: "string \<Rightarrow> string \<Rightarrow> string list \<Rightarrow> goerror" where
  "dependedBy what tag dependBy = ENew (what @ ''['' @ tag @ ''] is depended by '' @ joinTags '', '' dependBy)"

definition outbound_Remove ::
  "behaviour \<Rightarrow> dependencyManager \<Rightarrow> string \<Rightarrow> history \<Rightarrow> goerror list \<times> dependencyManager \<times> history" where
  "outbound_Remove L m tag h = (case map_of (mByTag m) tag of
     None \<Rightarrow> ([ErrInvalid], m, h)
   | Some a \<Rightarrow>
       if getd [] (dmDependBy m) tag \<noteq> [] then ([dependedBy ''outbound'' tag (getd [] (dmDependBy m) tag)], m, h)
       else
         let m1 = m\<lparr>mByTag := AList.delete tag (mByTag m)\<rparr>
         in if a \<notin> set (mItems m) then ([EPanic ''invalid inbound index''], m1, h)
         else
           let m2 = m1\<lparr>mItems := remove1 a (mItems m)\<rparr>;
               m3 = (if dmDefault m2 \<noteq> Some a then m2
                     else m2\<lparr>dmDefault := (case mItems m2 of [] \<Rightarrow> None | b # _ \<Rightarrow> Some b)\<rparr>);
               m4 = removeDependenciesLocked a m3
           in if mStarted m then let (e, h') = closeObj L a h in (toList e, m4, h') else ([], m4, h))"

definition outbound_Create ::
  "behaviour \<Rightarrow> dependencyManager \<Rightarrow> string \<Rightarrow> (goerror, adapterObj) result \<Rightarrow> history \<Rightarrow>
   goerror list \<times> dependencyManager \<times> history" where
  "outbound_Create L m tag created h =
     (if tag = '''' then ([ErrInvalid], m, h)
      else case created of
        Inl e \<Rightarrow> ([e], m, h)
      | Inr a \<Rightarrow> (case startNew L True ''outbound'' m tag a h of
          (e # es, h') \<Rightarrow> (e # es, m, h')
        | ([], h') \<Rightarrow>
            let m1 = (case map_of (mByTag m) tag of None \<Rightarrow> m | Some old \<Rightarrow> removeDependenciesLocked old m)
            in (case withoutTag m1 tag of
              None \<Rightarrow> ([EPanic ''invalid inbound index''], m1, h')
            | Some items \<Rightarrow>
                let m2 = m1\<lparr>mItems := items @ [a], mByTag := AList.update tag a (mByTag m1),
                           dmDependBy := addDependencies tag (adDependencies a) (dmDependBy m1)\<rparr>;
                    m3 = (if tag = dmDefaultTag m \<or> (dmDefaultTag m = '''' \<and> dmDefault m = None)
                          then m2\<lparr>dmDefault := Some a\<rparr> else m2)
                in ([], m3, h'))))"

section \<open>DNS servers\<close>

record transportManager = dependencyManager +
  tmFakeIP :: "adapterObj option"

definition TransportManager_New :: "string \<Rightarrow> transportManager" where
  "TransportManager_New tag = \<lparr>mStarted = False, mStage = StartStateInitialize, mItems = [], mByTag = [],
     dmDefaultTag = tag, dmDependBy = [], dmDefault = None, tmFakeIP = None\<rparr>"

definition fakeIPType :: string where "fakeIPType = ''fakeip''"

definition TransportManager_Start ::
  "behaviour \<Rightarrow> (goerror, adapterObj) result \<Rightarrow> transportManager \<Rightarrow> StartStage \<Rightarrow> history \<Rightarrow>
   goerror list \<times> transportManager \<times> history" where
  "TransportManager_Start L fallback m stage h =
     (if alreadyStarted m stage then ([EPanic ''already started''], m, h)
      else
        let m1 = m\<lparr>mStarted := True, mStage := stage\<rparr>
        in if stage \<noteq> StartStateStart
        then (let (es, h') = startEach L ''dns'' stage (mItems m1) h in (es, m1, h'))
        else if dmDefaultTag m \<noteq> '''' \<and> dmDefault m = None
        then ([ENew (''default DNS server not found: '' @ dmDefaultTag m)], m1, h)
        else (case (dmDefault m1, fallback) of
            (None, Inl e) \<Rightarrow> ([ECause e ''default DNS server fallback''], m1, h)
          | (None, Inr a) \<Rightarrow>
              (let m2 = withFallback a m1;
                   (es, h') = startTransports L (mByTag m2) (mItems m2) h
               in (es, m2, h'))
          | (Some _, _) \<Rightarrow>
              (let (es, h') = startTransports L (mByTag m1) (mItems m1) h
               in (es, m1, h'))))"

definition TransportManager_Close ::
  "behaviour \<Rightarrow> transportManager \<Rightarrow> history \<Rightarrow> goerror list \<times> transportManager \<times> history" where
  "TransportManager_Close L = manager_Close L ''server''"

text \<open>
  \<^verbatim>\<open>Remove\<close>: the checks of the next default server and of the dependencies come after the server has left the
  list and the map, and an error of \<^verbatim>\<open>Close\<close> is dropped.
\<close>

definition TransportManager_Remove ::
  "behaviour \<Rightarrow> transportManager \<Rightarrow> string \<Rightarrow> history \<Rightarrow> goerror list \<times> transportManager \<times> history" where
  "TransportManager_Remove L m tag h = (case map_of (mByTag m) tag of
     None \<Rightarrow> ([ErrInvalid], m, h)
   | Some a \<Rightarrow>
       let m1 = m\<lparr>mByTag := AList.delete tag (mByTag m)\<rparr>
       in if a \<notin> set (mItems m) then ([EPanic ''invalid inbound index''], m1, h)
       else
         let m2 = m1\<lparr>mItems := remove1 a (mItems m)\<rparr>
         in if dmDefault m = Some a \<and> (case mItems m2 of [] \<Rightarrow> False | b # _ \<Rightarrow> adType b \<noteq> fakeIPType)
         then ([ENew ''default server cannot be fakeip''], m2, h)
         else
           let m3 = (if dmDefault m2 \<noteq> Some a then m2
                     else m2\<lparr>dmDefault := (case mItems m2 of [] \<Rightarrow> None | b # _ \<Rightarrow> Some b)\<rparr>)
           in if getd [] (dmDependBy m) tag \<noteq> [] then ([dependedBy ''server'' tag (getd [] (dmDependBy m) tag)], m3, h)
           else
             let m4 = removeDependenciesLocked a m3
             in if mStarted m then let (e, h') = invoke L a CallClose h in ([], m4, h') else ([], m4, h))"

text \<open>
  \<^verbatim>\<open>Create\<close>: a server that cannot start is not closed again, and the dependencies of a replaced server stay
  recorded.
\<close>

definition TransportManager_Create ::
  "behaviour \<Rightarrow> transportManager \<Rightarrow> string \<Rightarrow> (goerror, adapterObj) result \<Rightarrow> history \<Rightarrow>
   goerror list \<times> transportManager \<times> history" where
  "TransportManager_Create L m tag created h =
     (if tag = '''' then ([ErrInvalid], m, h)
      else case created of
        Inl e \<Rightarrow> ([e], m, h)
      | Inr a \<Rightarrow> (case startNew L False ''dns'' m tag a h of
          (e # es, h') \<Rightarrow> (e # es, m, h')
        | ([], h') \<Rightarrow> (case withoutTag m tag of
            None \<Rightarrow> ([EPanic ''invalid inbound index''], m, h')
          | Some items \<Rightarrow>
              let m1 = m\<lparr>mItems := items @ [a], mByTag := AList.update tag a (mByTag m),
                         dmDependBy := addDependencies tag (adDependencies a) (dmDependBy m)\<rparr>;
                  chosen = (tag = dmDefaultTag m \<or> (dmDefaultTag m = '''' \<and> dmDefault m = None))
              in if chosen \<and> adType a = fakeIPType then ([ENew ''default server cannot be fakeip''], m1, h')
              else
                let m2 = (if chosen then m1\<lparr>dmDefault := Some a\<rparr> else m1)
                in if adType a \<noteq> fakeIPType then ([], m2, h')
                else if tmFakeIP m \<noteq> None then ([ENew ''multiple fakeip server are not supported''], m2, h')
                else ([], m2\<lparr>tmFakeIP := Some a\<rparr>, h'))))"

end
