(* ===== verification/ManagersCorrect.thy ===== *)
theory ManagersCorrect
  imports Managers
begin

text \<open>
  What the managers promise: dependencies start before the objects that need them and every object that can
  start does; the list and the map by tag agree, so that no operation runs into the panic of a missing index;
  replacing an object is all or nothing; an outbound that others need cannot be removed.
\<close>

section \<open>The order of starting\<close>

text \<open>The calls that starting an object makes, and sequences of objects each of which comes, with a new tag, after
  all its dependencies.\<close>

definition startCalls :: "adapterObj \<Rightarrow> history" where
  "startCalls a = (if adLifecycle a then [(a, CallStart StartStateStart)]
     else if adStarter a then [(a, CallStartPlain)] else [])"

fun ordered :: "string list \<Rightarrow> adapterObj list \<Rightarrow> bool" where
  "ordered S [] \<longleftrightarrow> True"
| "ordered S (a # as) \<longleftrightarrow> set (adDependencies a) \<subseteq> set S \<and> adTag a \<notin> set S \<and> ordered (S @ [adTag a]) as"

lemma ordered_append: "ordered S (xs @ ys) \<longleftrightarrow> ordered S xs \<and> ordered (S @ map adTag xs) ys"
  by (induction xs arbitrary: S) auto

lemma ordered_distinct: "ordered S xs \<Longrightarrow> distinct (map adTag xs) \<and> set S \<inter> adTag ` set xs = {}"
  by (induction xs arbitrary: S) fastforce+

lemma LegacyStart_calls: "LegacyStart L a StartStateStart h = (e, h') \<Longrightarrow> h' = h @ startCalls a"
  by (auto simp: LegacyStart_def startCalls_def invoke_def split: if_splits)

lemma startPass_ordered:
  assumes "startPass L V as started c h = (e, started', c', h')"
  shows "\<exists>new. started' = started @ map adTag new \<and> h' = h @ concat (map startCalls new) \<and>
    set new \<subseteq> set as \<and> ordered started new"
  using assms
proof (induction as arbitrary: started c h)
  case (Cons a as)
  show ?case
  proof (cases "adTag a \<in> set started \<or> (\<exists>d \<in> set (adDependencies a). d \<notin> set started)")
    case True
    with Cons.prems have "startPass L V as started c h = (e, started', c', h')" by (auto split: if_splits)
    from Cons.IH[OF this] show ?thesis by auto
  next
    case False
    obtain e1 h1 where ls: "LegacyStart L a StartStateStart h = (e1, h1)" by fastforce
    note h1 = LegacyStart_calls[OF this]
    show ?thesis
    proof (cases e1)
      case None
      with False ls Cons.prems have "startPass L V as (started @ [adTag a]) True h1 = (e, started', c', h')" by simp
      from Cons.IH[OF this] obtain new where "started' = (started @ [adTag a]) @ map adTag new"
        "h' = h1 @ concat (map startCalls new)" "set new \<subseteq> set as" "ordered (started @ [adTag a]) new" by blast
      with False h1 show ?thesis by (intro exI[of _ "a # new"]) auto
    next
      case (Some e2)
      with False ls Cons.prems h1 show ?thesis by (intro exI[of _ "[a]"]) auto
    qed
  qed
qed simp

lemma startPass_stuck:
  assumes "startPass L V as started False h = (e, started', False, h')" "a \<in> set as"
  shows "adTag a \<in> set started' \<or> (\<exists>d \<in> set (adDependencies a). d \<notin> set started')"
  using assms
proof (induction as arbitrary: h)
  case (Cons b as)
  have skip: "adTag b \<in> set started \<or> (\<exists>d \<in> set (adDependencies b). d \<notin> set started)"
  proof (rule ccontr)
    assume "\<not> ?thesis"
    moreover obtain e1 h1 where "LegacyStart L b StartStateStart h = (e1, h1)" by fastforce
    ultimately show False
      using Cons.prems(1) startPass_grows[of L V as "started @ [adTag b]" True h1 e started' False h']
      by (cases e1) auto
  qed
  with Cons.prems(1) have rest: "startPass L V as started False h = (e, started', False, h')" by (auto split: if_splits)
  from startPass_grows[OF this] have "started' = started" by auto
  with skip Cons.IH[OF rest] Cons.prems(2) show ?case by auto
qed simp

lemma startPass_fails:
  assumes "startPass L V as started c h = (Some e, started', c', h')"
  shows "\<exists>h a c. L h a c \<noteq> None"
  using assms
proof (induction as arbitrary: started c h)
  case (Cons a as)
  obtain e1 h1 where ls: "LegacyStart L a StartStateStart h = (e1, h1)" by fastforce
  show ?case
  proof (cases e1)
    case None
    with ls Cons show ?thesis by (auto split: if_splits)
  next
    case (Some e2)
    with ls have "\<exists>c. L h a c \<noteq> None" by (auto simp: LegacyStart_def invoke_def split: if_splits)
    then show ?thesis by blast
  qed
qed simp

text \<open>If an order of all objects exists, one in which nothing can start is one in which all have started.\<close>

lemma ordered_complete:
  assumes "ordered S xs" "set S \<subseteq> set started"
    "\<And>a. a \<in> set xs \<Longrightarrow> adTag a \<in> set started \<or> (\<exists>d \<in> set (adDependencies a). d \<notin> set started)"
  shows "adTag ` set xs \<subseteq> set started"
  using assms
proof (induction xs arbitrary: S)
  case (Cons a xs)
  from Cons.prems(1,2) have "set (adDependencies a) \<subseteq> set started" by auto
  with Cons.prems(3)[of a] have a: "adTag a \<in> set started" by auto
  with Cons.IH[of "S @ [adTag a]"] Cons.prems show ?case by auto
qed simp

lemma startInOrder_ordered:
  assumes "startInOrder L V byTag items started h = (errs, started', h')"
  shows "\<exists>new. started' = started @ map adTag new \<and> h' = h @ concat (map startCalls new) \<and>
    set new \<subseteq> set items \<and> ordered started new \<and> (errs = [] \<longrightarrow> length started' = length items)"
  using assms
proof (induction L V byTag items started h rule: startInOrder.induct)
  case (1 L V byTag items started h)
  obtain e s1 c h1 where pass: "startPass L V items started False h = (e, s1, c, h1)"
    by (cases "startPass L V items started False h")
  from startPass_ordered[OF pass] obtain new where new: "s1 = started @ map adTag new"
    "h1 = h @ concat (map startCalls new)" "set new \<subseteq> set items" "ordered started new" by blast
  show ?case
  proof (cases "e = None \<and> length s1 \<noteq> length items \<and> c")
    case True
    with pass "1.prems" have rec: "startInOrder L V byTag items s1 h1 = (errs, started', h')"
      by (simp add: startInOrder.simps[of L V byTag items started h])
    from True have "e = None" "length s1 \<noteq> length items" c by auto
    from "1.IH"[OF pass[symmetric] this(1) refl refl this(2,3) rec] obtain more where
      "started' = s1 @ map adTag more" "h' = h1 @ concat (map startCalls more)" "set more \<subseteq> set items"
      "ordered s1 more" "errs = [] \<longrightarrow> length started' = length items" by auto
    with new show ?thesis by (intro exI[of _ "new @ more"]) (auto simp: ordered_append)
  next
    case False
    with pass "1.prems" have "started' = s1 \<and> h' = h1 \<and> (errs = [] \<longrightarrow> length s1 = length items)"
      by (auto simp: startInOrder.simps[of L V byTag items started h] split: option.splits if_splits)
    with new show ?thesis by blast
  qed
qed

lemma startInOrder_complete:
  assumes "startInOrder L V byTag items started h = (errs, started', h')" "errs \<noteq> []" "\<And>h a c. L h a c = None"
    "ordered [] xs" "set xs = set items" "distinct (map adTag items)" "distinct started" "set started \<subseteq> adTag ` set items"
  shows False
  using assms
proof (induction L V byTag items started h rule: startInOrder.induct)
  case (1 L V byTag items started h)
  obtain e s1 c h1 where pass: "startPass L V items started False h = (e, s1, c, h1)"
    by (cases "startPass L V items started False h")
  with startPass_fails "1.prems"(3) have e: "e = None" by (cases e) (metis option.distinct(1))+
  from startPass_grows[OF pass] obtain new where new: "s1 = started @ new" "set new \<subseteq> adTag ` set items"
    "distinct new" "set new \<inter> set started = {}" by blast
  with "1.prems"(7,8) have s1: "distinct s1" "set s1 \<subseteq> adTag ` set items" by auto
  show ?case
  proof (cases c)
    case True
    with pass e "1.prems"(1,2) have len: "length s1 \<noteq> length items"
      and rec: "startInOrder L V byTag items s1 h1 = (errs, started', h')"
      by (auto simp: startInOrder.simps[of L V byTag items started h] split: if_splits)
    from "1.IH"[OF pass[symmetric] e refl refl len True rec] "1.prems"(2-6) s1 show False by blast
  next
    case False
    with pass have "startPass L V items started False h = (e, s1, False, h1)" by simp
    note stuck = startPass_stuck[OF this]
    have "adTag ` set items \<subseteq> set s1"
      using ordered_complete[OF "1.prems"(4), of s1] stuck "1.prems"(5) by auto
    with s1 have "set s1 = set (map adTag items)" by auto
    then have "length s1 = length items"
      using distinct_card[OF s1(1)] distinct_card[OF "1.prems"(6)] by simp
    with pass e "1.prems"(1,2) show False by (simp add: startInOrder.simps[of L V byTag items started h])
  qed
qed

text \<open>
  C35: Outbounds and DNS servers start in the order of their dependencies.  For objects with different tags,
  \<^verbatim>\<open>startOutbounds\<close> and \<^verbatim>\<open>startTransports\<close> always return; the objects they start are started once each, and after
  all their dependencies; without an error all have started; and if no start fails, the result is an error
  exactly when no order exists in which each object comes after its dependencies.
\<close>

theorem start_in_order:
  assumes "distinct (map adTag items)" "startInOrder L V byTag items [] h = (errs, started, h')"
  shows "\<exists>order. started = map adTag order \<and> set order \<subseteq> set items \<and> ordered [] order \<and>
    h' = h @ concat (map startCalls order) \<and> (errs = [] \<longrightarrow> set order = set items) \<and>
    ((\<forall>h a c. L h a c = None) \<longrightarrow> (errs = [] \<longleftrightarrow> (\<exists>xs. ordered [] xs \<and> set xs = set items)))"
proof -
  from startInOrder_ordered[OF assms(2)] obtain order where o: "started = map adTag order"
    "h' = h @ concat (map startCalls order)" "set order \<subseteq> set items" "ordered [] order"
    "errs = [] \<longrightarrow> length started = length items" by auto
  have all: "set order = set items" if "errs = []"
  proof -
    have "distinct order" using ordered_distinct[OF o(4)] by (simp add: distinct_map)
    moreover have "length order = length items" using o(1,5) that by simp
    moreover have "distinct items" using assms(1) by (simp add: distinct_map)
    ultimately have "card (set items) \<le> card (set order)" by (simp add: distinct_card)
    with o(3) show ?thesis by (simp add: card_seteq)
  qed
  have "errs = [] \<longleftrightarrow> (\<exists>xs. ordered [] xs \<and> set xs = set items)" if "\<forall>h a c. L h a c = None"
  proof
    assume "errs = []"
    with all o(4) show "\<exists>xs. ordered [] xs \<and> set xs = set items" by blast
  next
    assume "\<exists>xs. ordered [] xs \<and> set xs = set items"
    then obtain xs where xs: "ordered [] xs" "set xs = set items" by blast
    show "errs = []"
    proof (rule ccontr)
      assume "errs \<noteq> []"
      from startInOrder_complete[OF assms(2) this _ xs assms(1)] that show False by simp
    qed
  qed
  with o all show ?thesis by blast
qed

definition exampleObj :: "nat \<Rightarrow> string \<Rightarrow> string list \<Rightarrow> adapterObj" where
  "exampleObj n tag deps = \<lparr>adId = n, adType = ''direct'', adTag = tag, adDependencies = deps, adLifecycle = True,
     adPreStarter = False, adStarter = False, adPostStarter = False, adCloser = True\<rparr>"

definition exampleItems :: "adapterObj list" where
  "exampleItems = [exampleObj 0 ''proxy'' [''local''], exampleObj 1 ''local'' []]"

theorem start_in_order_witness:
  "\<exists>order. [''local'', ''proxy''] = map adTag order \<and> ordered [] order \<and> set order = set exampleItems"
proof -
  have d: "distinct (map adTag exampleItems)" by code_simp
  have run: "startInOrder (\<lambda>h a c. None) outboundVocabulary [] exampleItems [] [] =
    ([], [''local'', ''proxy''], [(exampleObj 1 ''local'' [], CallStart StartStateStart),
       (exampleObj 0 ''proxy'' [''local''], CallStart StartStateStart)])" by code_simp
  from start_in_order[OF d run] show ?thesis
  proof (elim exE conjE)
    fix order
    assume "[''local'', ''proxy''] = map adTag order" "ordered [] order" "[] = [] \<longrightarrow> set order = set exampleItems"
    then show ?thesis by (intro exI[of _ order] conjI) simp_all
  qed
qed

section \<open>List and map agree\<close>

definition registered :: "'m manager_scheme \<Rightarrow> bool" where
  "registered m \<longleftrightarrow> distinct (mItems m) \<and>
     (\<forall>tag a. map_of (mByTag m) tag = Some a \<longleftrightarrow> a \<in> set (mItems m) \<and> adTag a = tag)"

lemma registered_member: "registered m \<Longrightarrow> map_of (mByTag m) tag = Some a \<Longrightarrow> a \<in> set (mItems m) \<and> adTag a = tag"
  by (simp add: registered_def)

lemma registered_tag: "registered m \<Longrightarrow> a \<in> set (mItems m) \<Longrightarrow> map_of (mByTag m) (adTag a) = Some a"
  by (simp add: registered_def)

lemma registered_unique:
  assumes "registered m" "map_of (mByTag m) tag = Some a" "b \<in> set (mItems m)"
  shows "adTag b = tag \<longleftrightarrow> b = a"
proof
  assume "adTag b = tag"
  with registered_tag[OF assms(1,3)] assms(2) show "b = a" by simp
next
  assume "b = a"
  with registered_member[OF assms(1,2)] show "adTag b = tag" by simp
qed

lemma registered_distinct: "registered m \<Longrightarrow> distinct (mItems m)"
  by (simp add: registered_def)

lemma registered_withoutTag:
  assumes "registered m"
  shows "\<exists>items. withoutTag m tag = Some items \<and> distinct items \<and> set items = {b \<in> set (mItems m). adTag b \<noteq> tag}"
proof (cases "map_of (mByTag m) tag")
  case None
  have "adTag b \<noteq> tag" if "b \<in> set (mItems m)" for b
    using registered_tag[OF assms that] None by (cases "adTag b = tag") simp_all
  then have "set (mItems m) = {b \<in> set (mItems m). adTag b \<noteq> tag}" by blast
  with None registered_distinct[OF assms] show ?thesis by (simp add: withoutTag_def)
next
  case (Some old)
  have "withoutTag m tag = Some (remove1 old (mItems m))"
    using registered_member[OF assms Some] Some by (simp add: withoutTag_def)
  moreover have "set (remove1 old (mItems m)) = {b \<in> set (mItems m). adTag b \<noteq> tag}"
    unfolding set_remove1_eq[OF registered_distinct[OF assms]] using registered_unique[OF assms Some] by blast
  moreover have "distinct (remove1 old (mItems m))" using registered_distinct[OF assms] by (rule distinct_remove1)
  ultimately show ?thesis by blast
qed

text \<open>The two changes of the list and the map that keep them in agreement.\<close>

lemma registered_put:
  assumes "registered m" "adTag a = tag" "distinct items" "set items = {b \<in> set (mItems m). adTag b \<noteq> tag}"
    "mItems m' = items @ [a]" "mByTag m' = AList.update tag a (mByTag m)"
  shows "registered m'"
  unfolding registered_def
proof (intro conjI allI)
  show "distinct (mItems m')" using assms(2-5) by auto
  fix t b
  show "map_of (mByTag m') t = Some b \<longleftrightarrow> b \<in> set (mItems m') \<and> adTag b = t"
  proof (cases "t = tag")
    case True
    with assms(2,4-6) show ?thesis by auto
  next
    case False
    then have "map_of (mByTag m') t = Some b \<longleftrightarrow> b \<in> set (mItems m) \<and> adTag b = t"
      using assms(1,6) by (simp only: registered_def map_of_update fun_upd_other not_False_eq_True)
    with False assms(2,4,5) show ?thesis by auto
  qed
qed

lemma registered_drop:
  assumes "registered m" "map_of (mByTag m) tag = Some a" "mItems m' = remove1 a (mItems m)"
    "mByTag m' = AList.delete tag (mByTag m)"
  shows "registered m'"
  unfolding registered_def
proof (intro conjI allI)
  note d = registered_distinct[OF assms(1)]
  show "distinct (mItems m')" unfolding assms(3) by (rule distinct_remove1[OF d])
  fix t b
  show "map_of (mByTag m') t = Some b \<longleftrightarrow> b \<in> set (mItems m') \<and> adTag b = t"
  proof (cases "t = tag")
    case True
    with assms(3,4) registered_unique[OF assms(1,2)] d show ?thesis by auto
  next
    case False
    then have "map_of (mByTag m') t = Some b \<longleftrightarrow> b \<in> set (mItems m) \<and> adTag b = t"
      using assms(1,4) by (simp only: registered_def map_of_delete fun_upd_other not_False_eq_True)
    with False assms(3) registered_member[OF assms(1,2)] d show ?thesis by auto
  qed
qed

lemma registered_same:
  "registered m \<Longrightarrow> mItems m' = mItems m \<Longrightarrow> mByTag m' = mByTag m \<Longrightarrow> registered m'"
  by (simp only: registered_def simp_thms)

lemma manager_Create_registered:
  assumes "registered m" "\<And>a. created = Inr a \<Longrightarrow> adTag a = tag"
    "manager_Create L closeNew kind what m tag created h = (es, m', h')"
  shows "registered m'"
proof (cases created)
  case (Inr a)
  obtain items where items: "withoutTag m tag = Some items" "distinct items"
    "set items = {b \<in> set (mItems m). adTag b \<noteq> tag}" using registered_withoutTag[OF assms(1)] by blast
  obtain es1 h1 where "startNew L closeNew kind m tag a h = (es1, h1)" by fastforce
  with Inr assms(3) items(1) have "m' = m \<or> m' = m\<lparr>mItems := items @ [a], mByTag := AList.update tag a (mByTag m)\<rparr>"
    by (cases es1) (auto simp: manager_Create_def)
  with registered_put[OF assms(1) assms(2)[OF Inr] items(2,3), of m'] assms(1) show ?thesis by auto
qed (use assms in \<open>auto simp: manager_Create_def\<close>)

lemma manager_Remove_registered:
  assumes "registered m" "manager_Remove L what m tag h = (es, m', h')"
  shows "registered m'"
proof (cases "map_of (mByTag m) tag")
  case (Some a)
  with registered_member[OF assms(1) this] assms(2)
  have "mItems m' = remove1 a (mItems m)" "mByTag m' = AList.delete tag (mByTag m)"
    by (auto simp: manager_Remove_def Let_def split: if_splits prod.splits)
  with registered_drop[OF assms(1) Some] show ?thesis by blast
qed (use assms in \<open>auto simp: manager_Remove_def\<close>)

lemma manager_Start_registered:
  assumes "registered m" "manager_Start L kind elsewhere m stage h = (es, m', h')"
  shows "registered m'"
proof (rule registered_same[OF assms(1)])
  show "mItems m' = mItems m" "mByTag m' = mByTag m"
    using assms(2) by (auto simp: manager_Start_def Let_def split: if_splits prod.splits)
qed

text \<open>
  The runs of the manager of the inbounds until it is closed.  The registry gives a new inbound the tag it is
  asked for.
\<close>

inductive inboundRun :: "behaviour \<Rightarrow> manager \<Rightarrow> history \<Rightarrow> bool" for L where
  inbound_new: "inboundRun L NewManager []"
| inbound_start: "inboundRun L m h \<Longrightarrow> inbound_Start L m stage h = (es, m', h') \<Longrightarrow> inboundRun L m' h'"
| inbound_create: "inboundRun L m h \<Longrightarrow> (\<And>a. created = Inr a \<Longrightarrow> adTag a = tag) \<Longrightarrow>
    inbound_Create L m tag created h = (es, m', h') \<Longrightarrow> inboundRun L m' h'"
| inbound_remove: "inboundRun L m h \<Longrightarrow> inbound_Remove L m tag h = (es, m', h') \<Longrightarrow> inboundRun L m' h'"

lemma inboundRun_registered: "inboundRun L m h \<Longrightarrow> registered m"
proof (induction rule: inboundRun.induct)
  case inbound_new
  show ?case by (simp add: registered_def NewManager_def)
next
  case (inbound_start m h stage es m' h')
  from manager_Start_registered[OF inbound_start(3) inbound_start(2)[unfolded inbound_Start_def]] show ?case .
next
  case (inbound_create m h created tag es m' h')
  from manager_Create_registered[OF inbound_create(4,2) inbound_create(3)[unfolded inbound_Create_def]] show ?case .
next
  case (inbound_remove m h tag es m' h')
  from manager_Remove_registered[OF inbound_remove(3) inbound_remove(2)[unfolded inbound_Remove_def]] show ?case .
qed

lemma startStages_calls:
  "startStages L a stages h = (r, h') \<Longrightarrow> \<exists>calls. h' = h @ calls \<and> fst ` set calls \<subseteq> {a}"
proof (induction stages arbitrary: h)
  case (Cons stage stages)
  obtain e h1 where ls: "LegacyStart L a stage h = (e, h1)" by (cases "LegacyStart L a stage h")
  then obtain calls where calls: "h1 = h @ calls" "fst ` set calls \<subseteq> {a}"
    by (auto simp: LegacyStart_def invoke_def split: if_splits StartStage.splits)
  show ?case
  proof (cases e)
    case None
    with ls Cons.prems have "startStages L a stages h1 = (r, h')" by simp
    from Cons.IH[OF this] obtain more where "h' = h1 @ more" "fst ` set more \<subseteq> {a}" by blast
    with calls show ?thesis by (intro exI[of _ "calls @ more"]) auto
  next
    case (Some e')
    with ls Cons.prems calls show ?thesis by auto
  qed
qed simp

text \<open>
  What \<^verbatim>\<open>Create\<close> does before it changes the list of a running manager: on success the new object went through its
  stages and the old one, if there is one, was closed; on failure the new object was closed last.
\<close>

lemma failCreate_nonempty: "fst (failCreate L c kind a err h) \<noteq> []"
  by (simp add: failCreate_def split: prod.splits)

lemma startNew_ok:
  assumes "startNew L True kind m tag a h = ([], h')" "mStarted m"
  shows "\<exists>calls. fst ` set calls \<subseteq> {a} \<and>
    h' = h @ calls @ (case map_of (mByTag m) tag of None \<Rightarrow> [] | Some old \<Rightarrow> if adCloser old then [(old, CallClose)] else [])"
proof -
  obtain r h1 where st: "startStages L a ListStartStages h = (r, h1)" by fastforce
  from startStages_calls[OF st] obtain calls where calls: "h1 = h @ calls" "fst ` set calls \<subseteq> {a}" by blast
  have r: "r = None"
    using assms st failCreate_nonempty[of L True kind a] by (cases r) (auto simp: startNew_def, metis fst_conv)
  show ?thesis
  proof (cases "map_of (mByTag m) tag")
    case None
    with assms st r calls show ?thesis by (auto simp: startNew_def)
  next
    case (Some old)
    obtain e h2 where cl: "closeObj L old h1 = (e, h2)" by fastforce
    with assms st r Some failCreate_nonempty[of L True kind a] have "e = None" "h' = h2"
      by (cases e, auto simp: startNew_def, metis fst_conv)+
    with cl calls Some show ?thesis by (auto simp: closeObj_def invoke_def split: if_splits)
  qed
qed

lemma startNew_fail:
  assumes "startNew L True kind m tag a h = (e # es, h')" "adCloser a"
  shows "\<exists>calls. h' = h @ calls @ [(a, CallClose)]"
proof -
  obtain r h1 where st: "startStages L a ListStartStages h = (r, h1)" by fastforce
  from startStages_calls[OF st] obtain calls where calls: "h1 = h @ calls" by blast
  have "\<exists>err h2 more. h2 = h @ more \<and> failCreate L True kind a err h2 = (e # es, h')"
  proof (cases r)
    case None
    with assms(1) st obtain old where old: "map_of (mByTag m) tag = Some old"
      by (cases "map_of (mByTag m) tag") (auto simp: startNew_def split: if_splits)
    obtain ce h2 where cl: "closeObj L old h1 = (ce, h2)" by fastforce
    then have "\<exists>more. h2 = h @ more" using calls by (auto simp: closeObj_def invoke_def split: if_splits)
    with assms(1) st None old cl show ?thesis by (cases ce) (auto simp: startNew_def split: if_splits)
  next
    case (Some se)
    with assms(1) st have "\<exists>err. failCreate L True kind a err h1 = (e # es, h')"
      by (cases se) (auto simp: startNew_def split: if_splits)
    with calls show ?thesis by blast
  qed
  then obtain err h2 more where "h2 = h @ more" "failCreate L True kind a err h2 = (e # es, h')" by blast
  with assms(2) have "h' = h @ more @ [(a, CallClose)]" by (auto simp: failCreate_def closeObj_def invoke_def)
  then show ?thesis by blast
qed

text \<open>
  C36: Replacing an inbound of a running manager is all or nothing.  In every run, \<^verbatim>\<open>Create\<close> never panics; if it
  succeeds, the new inbound is the one found under the tag, the previous one is closed, after the new one has
  gone through its stages, and left out, and every other inbound stays; if it fails, the manager is unchanged
  and the last thing that happened is that the new inbound was closed.
\<close>

theorem inbound_replace_atomic:
  assumes "inboundRun L m h" "mStarted m" "adTag a = tag" "adCloser a"
    "inbound_Create L m tag (Inr a) h = (es, m', h')"
  shows "(es = [] \<longrightarrow> inbound_Get endpoint m' tag = Some a \<and> set (mItems m') = insert a {b \<in> set (mItems m). adTag b \<noteq> tag} \<and>
      (\<exists>calls. fst ` set calls \<subseteq> {a} \<and> h' = h @ calls @ (case manager_Get m tag of
          None \<Rightarrow> [] | Some old \<Rightarrow> if adCloser old then [(old, CallClose)] else []))) \<and>
    (es \<noteq> [] \<longrightarrow> m' = m \<and> (\<exists>calls. h' = h @ calls @ [(a, CallClose)]))"
proof -
  obtain items where items: "withoutTag m tag = Some items" "set items = {b \<in> set (mItems m). adTag b \<noteq> tag}"
    using registered_withoutTag[OF inboundRun_registered[OF assms(1)]] by blast
  obtain es1 h1 where new: "startNew L True ''inbound'' m tag a h = (es1, h1)" by fastforce
  show ?thesis
  proof (cases es1)
    case Nil
    with new items assms(5) have "es = []" "h' = h1"
      "m' = m\<lparr>mItems := items @ [a], mByTag := AList.update tag a (mByTag m)\<rparr>"
      by (auto simp: inbound_Create_def manager_Create_def)
    with startNew_ok[OF new[unfolded Nil] assms(2)] items(2) show ?thesis
      by (simp add: inbound_Get_def manager_Get_def)
  next
    case (Cons e es2)
    with new assms(5) have "es = e # es2" "h' = h1" "m' = m" by (auto simp: inbound_Create_def manager_Create_def)
    with startNew_fail[OF new[unfolded Cons] assms(4)] show ?thesis by simp
  qed
qed

text \<open>An example: an inbound is created, the manager starts, and the inbound is replaced.\<close>

definition willing :: behaviour where "willing h a c = None"

definition firstInbound :: adapterObj where "firstInbound = exampleObj 0 ''node'' []"
definition secondInbound :: adapterObj where "secondInbound = exampleObj 1 ''node'' []"

definition exampleInbounds :: "bool \<Rightarrow> manager" where
  "exampleInbounds started = \<lparr>mStarted = started, mStage = StartStateInitialize, mItems = [firstInbound],
     mByTag = [(''node'', firstInbound)]\<rparr>"

lemma example_inbound: "adTag firstInbound = ''node''" "adTag secondInbound = ''node''" "adCloser secondInbound"
  by (simp_all add: firstInbound_def secondInbound_def exampleObj_def)

lemma example_create: "inbound_Create willing NewManager ''node'' (Inr firstInbound) [] = ([], exampleInbounds False, [])"
  by code_simp

lemma example_start: "inbound_Start willing (exampleInbounds False) StartStateInitialize [] =
  ([], exampleInbounds True, [(firstInbound, CallStart StartStateInitialize)])"
  by code_simp

lemma example_inboundRun: "inboundRun willing (exampleInbounds True) [(firstInbound, CallStart StartStateInitialize)]"
proof -
  have "inboundRun willing (exampleInbounds False) []"
    using inbound_create[OF inbound_new _ example_create] example_inbound(1) by auto
  from inbound_start[OF this example_start] show ?thesis .
qed

definition exampleReplaced :: "goerror list \<times> manager \<times> history" where
  "exampleReplaced = inbound_Create willing (exampleInbounds True) ''node'' (Inr secondInbound)
     [(firstInbound, CallStart StartStateInitialize)]"

theorem inbound_replace_atomic_witness:
  "inbound_Get NewManager (fst (snd exampleReplaced)) ''node'' = Some secondInbound \<and>
   last (snd (snd exampleReplaced)) = (firstInbound, CallClose)"
proof -
  have ok: "fst exampleReplaced = []" by code_simp
  have closed: "last (snd (snd exampleReplaced)) = (firstInbound, CallClose)" by code_simp
  have started: "mStarted (exampleInbounds True)" by (simp add: exampleInbounds_def)
  have run: "inbound_Create willing (exampleInbounds True) ''node'' (Inr secondInbound)
      [(firstInbound, CallStart StartStateInitialize)] =
    (fst exampleReplaced, fst (snd exampleReplaced), snd (snd exampleReplaced))"
    by (simp only: exampleReplaced_def prod.collapse)
  from inbound_replace_atomic[OF example_inboundRun started example_inbound(2,3) run, of NewManager]
  show ?thesis by (rule conjunct1[THEN mp[OF _ ok], THEN conjunct1, THEN conjI[OF _ closed]])
qed

section \<open>Dependencies of outbounds\<close>

text \<open>The map of dependents tells, for every tag, the objects of the set that depend on it.\<close>

definition tracked :: "(string, string list) gomap \<Rightarrow> adapterObj set \<Rightarrow> bool" where
  "tracked dependBy S \<longleftrightarrow> (\<forall>d. set (getd [] dependBy d) = adTag ` {b \<in> S. d \<in> set (adDependencies b)})"

lemma addDependencies_set:
  "set (getd [] (addDependencies tag ds dependBy) d) = set (getd [] dependBy d) \<union> (if d \<in> set ds then {tag} else {})"
  unfolding addDependencies_def
proof (induction ds arbitrary: dependBy)
  case (Cons x ds)
  show ?case by (simp only: fold_Cons comp_def Cons.IH getd_update) auto
qed simp

lemma tracked_add:
  assumes "tracked dependBy S"
  shows "tracked (addDependencies (adTag a) (adDependencies a) dependBy) (insert a S)"
  unfolding tracked_def
proof
  fix d
  have "{b \<in> insert a S. d \<in> set (adDependencies b)} =
    {b \<in> S. d \<in> set (adDependencies b)} \<union> (if d \<in> set (adDependencies a) then {a} else {})" by auto
  then show "set (getd [] (addDependencies (adTag a) (adDependencies a) dependBy) d) =
    adTag ` {b \<in> insert a S. d \<in> set (adDependencies b)}"
    using assms by (simp add: addDependencies_set tracked_def image_Un)
qed

lemma removeDependency_other: "d \<noteq> x \<Longrightarrow> getd [] (removeDependency tag x dependBy) d = getd [] dependBy d"
  by (simp add: removeDependency_def)

lemma removeDependency_same:
  assumes "tag \<in> set (getd [] dependBy x)"
  shows "set (getd [] (removeDependency tag x dependBy) x) = set (getd [] dependBy x) - {tag}"
proof (cases "length (getd [] dependBy x) = 1")
  case True
  then obtain t where "getd [] dependBy x = [t]" by (auto simp: length_Suc_conv)
  with assms show ?thesis by (simp add: removeDependency_def)
next
  case False
  then show ?thesis by (auto simp: removeDependency_def)
qed

lemma removeDependencies_set:
  assumes "distinct ds" "\<And>x. x \<in> set ds \<Longrightarrow> tag \<in> set (getd [] dependBy x)"
  shows "set (getd [] (fold (removeDependency tag) ds dependBy) d) =
    (if d \<in> set ds then set (getd [] dependBy d) - {tag} else set (getd [] dependBy d))"
  using assms
proof (induction ds arbitrary: dependBy)
  case (Cons x ds)
  have "tag \<in> set (getd [] (removeDependency tag x dependBy) y)" if "y \<in> set ds" for y
    using Cons.prems that removeDependency_other[of y x] by (cases "y = x") auto
  with Cons.IH[of "removeDependency tag x dependBy"] Cons.prems(1)
  have "set (getd [] (fold (removeDependency tag) (x # ds) dependBy) d) = (if d \<in> set ds
    then set (getd [] (removeDependency tag x dependBy) d) - {tag} else set (getd [] (removeDependency tag x dependBy) d))"
    by simp
  also have "\<dots> = (if d \<in> set (x # ds) then set (getd [] dependBy d) - {tag} else set (getd [] dependBy d))"
    using Cons.prems removeDependency_other[of d x] removeDependency_same[of tag dependBy x] by (cases "d = x") auto
  finally show ?case .
qed simp

lemma tracked_remove:
  assumes "tracked dependBy S" "inj_on adTag S" "a \<in> S" "distinct (adDependencies a)"
  shows "tracked (fold (removeDependency (adTag a)) (adDependencies a) dependBy) (S - {a})"
  unfolding tracked_def
proof
  fix d
  let ?D = "\<lambda>S. {b \<in> S. d \<in> set (adDependencies b)}"
  have t: "set (getd [] dependBy x) = adTag ` {b \<in> S. x \<in> set (adDependencies b)}" for x
    using assms(1) by (simp add: tracked_def)
  have "adTag ` ?D (S - {a}) = (if d \<in> set (adDependencies a) then adTag ` ?D S - {adTag a} else adTag ` ?D S)"
  proof (cases "d \<in> set (adDependencies a)")
    case True
    have "?D (S - {a}) = ?D S - {a}" by auto
    moreover have "adTag ` (?D S - {a}) = adTag ` ?D S - {adTag a}"
      using inj_on_image_set_diff[OF assms(2), of "?D S" "{a}"] assms(3) by auto
    ultimately show ?thesis using True by simp
  next
    case False
    then have "?D (S - {a}) = ?D S" by auto
    with False show ?thesis by simp
  qed
  moreover have "adTag a \<in> set (getd [] dependBy x)" if "x \<in> set (adDependencies a)" for x
    using that assms(3) t by auto
  ultimately show "set (getd [] (fold (removeDependency (adTag a)) (adDependencies a) dependBy) d) =
    adTag ` ?D (S - {a})"
    using removeDependencies_set[OF assms(4), of "adTag a" dependBy d] t[of d] by simp
qed

definition outboundOk :: "'m dependencyManager_scheme \<Rightarrow> bool" where
  "outboundOk m \<longleftrightarrow> registered m \<and> tracked (dmDependBy m) (set (mItems m)) \<and>
     (\<forall>a \<in> set (mItems m). distinct (adDependencies a)) \<and>
     (dmDefaultTag m = '''' \<and> dmDefault m = None \<longrightarrow> mItems m = [])"

lemma outboundOkD:
  assumes "outboundOk m"
  shows "registered m" "tracked (dmDependBy m) (set (mItems m))" "a \<in> set (mItems m) \<Longrightarrow> distinct (adDependencies a)"
    "dmDefaultTag m = '''' \<Longrightarrow> dmDefault m = None \<Longrightarrow> mItems m = []"
  using assms by (simp_all add: outboundOk_def)

lemma registered_inj: "registered m \<Longrightarrow> inj_on adTag (set (mItems m))"
  by (rule inj_onI) (metis registered_tag option.inject)

text \<open>
  The runs of the manager of the outbounds until it is closed.  The registry gives a new outbound the tag it
  is asked for; no outbound names a dependency twice; the fallback outbound depends on nothing.
\<close>

inductive outboundRun :: "behaviour \<Rightarrow> dependencyManager \<Rightarrow> history \<Rightarrow> bool" for L where
  outbound_new: "outboundRun L (outbound_New tag) []"
| outbound_start: "outboundRun L m h \<Longrightarrow> (\<And>a. fallback = Inr a \<Longrightarrow> adDependencies a = []) \<Longrightarrow>
    outbound_Start L endpoint fallback m stage h = (es, m', h') \<Longrightarrow> outboundRun L m' h'"
| outbound_create: "outboundRun L m h \<Longrightarrow>
    (\<And>a. created = Inr a \<Longrightarrow> adTag a = tag \<and> distinct (adDependencies a)) \<Longrightarrow>
    outbound_Create L m tag created h = (es, m', h') \<Longrightarrow> outboundRun L m' h'"
| outbound_remove: "outboundRun L m h \<Longrightarrow> outbound_Remove L m tag h = (es, m', h') \<Longrightarrow> outboundRun L m' h'"

lemma outboundOk_same:
  assumes "outboundOk m" "mItems m' = mItems m" "mByTag m' = mByTag m" "dmDependBy m' = dmDependBy m"
    "dmDefault m' = None \<Longrightarrow> dmDefault m = None" "dmDefaultTag m' = dmDefaultTag m"
  shows "outboundOk m'"
  unfolding outboundOk_def
proof (intro conjI impI ballI)
  show "registered m'" by (rule registered_same[OF outboundOkD(1)[OF assms(1)] assms(2,3)])
  show "tracked (dmDependBy m') (set (mItems m'))" using outboundOkD(2)[OF assms(1)] assms(2,4) by simp
  show "distinct (adDependencies a)" if "a \<in> set (mItems m')" for a
    using outboundOkD(3)[OF assms(1)] that assms(2) by simp
  show "mItems m' = []" if "dmDefaultTag m' = '''' \<and> dmDefault m' = None"
    using outboundOkD(4)[OF assms(1)] that assms(2,5,6) by simp
qed

lemma outboundOk_fallback:
  assumes "outboundOk m" "dmDefaultTag m = ''''" "dmDefault m = None" "adDependencies a = []"
  shows "outboundOk (withFallback a m)"
proof -
  from outboundOkD(4)[OF assms(1-3)] have none: "mItems m = []" .
  then have "set (mItems (withFallback a m)) = {a}" by (simp add: withFallback_def)
  moreover have "registered (withFallback a m)"
    by (rule registered_put[OF outboundOkD(1)[OF assms(1)] refl, of "[]"]) (simp_all add: none withFallback_def)
  moreover have "tracked (dmDependBy m) {a}"
    using outboundOkD(2)[OF assms(1)] assms(4) none by (simp add: tracked_def)
  ultimately show ?thesis using assms(4) none by (simp add: outboundOk_def withFallback_def)
qed

lemma outbound_Start_ok:
  assumes "outboundOk m" "\<And>a. fallback = Inr a \<Longrightarrow> adDependencies a = []"
    "outbound_Start L endpoint fallback m stage h = (es, m', h')"
  shows "outboundOk m'"
proof -
  define m1 where "m1 = m\<lparr>mStarted := True, mStage := stage\<rparr>"
  define m2 where "m2 = (if dmDefaultTag m \<noteq> '''' \<and> dmDefault m = None
    then m1\<lparr>dmDefault := manager_Get endpoint (dmDefaultTag m)\<rparr> else m1)"
  have ok: "outboundOk m1" "outboundOk m2"
    by (rule outboundOk_same[OF assms(1)]; simp add: m1_def m2_def split: if_splits)+
  from assms(3) have "m' = m \<or> m' = m1 \<or> m' = m2 \<or>
    (\<exists>a. fallback = Inr a \<and> dmDefault m2 = None \<and> m' = withFallback a m2 \<and>
      \<not> (dmDefaultTag m \<noteq> '''' \<and> dmDefault m = None \<and> manager_Get endpoint (dmDefaultTag m) = None))"
    unfolding outbound_Start_def Let_def m1_def[symmetric] m2_def[symmetric]
    by (auto split: if_splits prod.splits option.splits sum.splits)
  then show ?thesis
  proof (elim disjE exE conjE)
    fix a
    assume a: "fallback = Inr a" "dmDefault m2 = None" "m' = withFallback a m2"
      "\<not> (dmDefaultTag m \<noteq> '''' \<and> dmDefault m = None \<and> manager_Get endpoint (dmDefaultTag m) = None)"
    then have "dmDefaultTag m2 = ''''" by (auto simp: m2_def m1_def split: if_splits)
    from outboundOk_fallback[OF ok(2) this a(2) assms(2)[OF a(1)]] a(3) show ?thesis by simp
  qed (use assms(1) ok in simp_all)
qed

lemma outbound_Create_ok:
  assumes "outboundOk m" "\<And>a. created = Inr a \<Longrightarrow> adTag a = tag \<and> distinct (adDependencies a)"
    "outbound_Create L m tag created h = (es, m', h')"
  shows "outboundOk m'"
proof (cases "\<exists>a h1. created = Inr a \<and> tag \<noteq> '''' \<and> startNew L True ''outbound'' m tag a h = ([], h1)")
  case False
  with assms(3) have "m' = m" by (auto simp: outbound_Create_def split: if_splits sum.splits prod.splits list.splits)
  with assms(1) show ?thesis by simp
next
  case True
  then obtain a h1 where a: "created = Inr a" "tag \<noteq> ''''" "startNew L True ''outbound'' m tag a h = ([], h1)" by blast
  note at = assms(2)[OF a(1)]
  note ok = outboundOkD[OF assms(1)]
  define m1 where "m1 = (case map_of (mByTag m) tag of None \<Rightarrow> m | Some old \<Rightarrow> removeDependenciesLocked old m)"
  have same: "mItems m1 = mItems m" "mByTag m1 = mByTag m" "dmDefaultTag m1 = dmDefaultTag m" "dmDefault m1 = dmDefault m"
    by (simp_all add: m1_def removeDependenciesLocked_def split: option.splits)
  obtain items where items: "withoutTag m tag = Some items" "distinct items"
    "set items = {b \<in> set (mItems m). adTag b \<noteq> tag}" using registered_withoutTag[OF ok(1)] by blast
  have left: "tracked (dmDependBy m1) (set items)"
  proof (cases "map_of (mByTag m) tag")
    case None
    have "set items = set (mItems m)"
      unfolding items(3) using registered_tag[OF ok(1)] None by (metis (mono_tags, lifting) Collect_cong Collect_mem_eq option.distinct(1))
    with None ok(2) show ?thesis by (simp add: m1_def)
  next
    case (Some old)
    have "set items = set (mItems m) - {old}" unfolding items(3) using registered_unique[OF ok(1) Some] by blast
    with tracked_remove[OF ok(2) registered_inj[OF ok(1)] _ ok(3), of old] registered_member[OF ok(1) Some] Some
    show ?thesis by (simp add: m1_def removeDependenciesLocked_def)
  qed
  from a assms(3) items(1) same have m': "mItems m' = items @ [a]" "mByTag m' = AList.update tag a (mByTag m)"
    "dmDependBy m' = addDependencies tag (adDependencies a) (dmDependBy m1)"
    by (auto simp: outbound_Create_def m1_def[symmetric] withoutTag_def Let_def split: option.splits if_splits)
  show ?thesis
    unfolding outboundOk_def
  proof (intro conjI impI ballI)
    show "registered m'" by (rule registered_put[OF ok(1) conjunct1[OF at] items(2,3) m'(1,2)])
    show "tracked (dmDependBy m') (set (mItems m'))"
      using tracked_add[OF left, of a] at by (simp add: m')
    show "distinct (adDependencies b)" if "b \<in> set (mItems m')" for b
      using that ok(3) at items(3) by (auto simp: m')
    show "mItems m' = []" if "dmDefaultTag m' = '''' \<and> dmDefault m' = None"
    proof -
      have "withoutTag m1 tag = Some items" using items(1) unfolding withoutTag_def same .
      with a assms(3) have "dmDefaultTag m' = dmDefaultTag m"
        "dmDefault m' = None \<Longrightarrow> dmDefault m = None \<and> dmDefaultTag m \<noteq> ''''"
        using same by (auto simp: outbound_Create_def Let_def m1_def[symmetric] split: if_splits)
      with that show ?thesis by auto
    qed
  qed
qed

lemma outbound_Remove_cases:
  assumes "outboundOk m" "map_of (mByTag m) tag = Some a" "outbound_Remove L m tag h = (es, m', h')"
  shows "if getd [] (dmDependBy m) tag \<noteq> [] then es \<noteq> [] \<and> m' = m \<and> h' = h
    else mItems m' = remove1 a (mItems m) \<and> mByTag m' = AList.delete tag (mByTag m) \<and>
      dmDependBy m' = fold (removeDependency (adTag a)) (adDependencies a) (dmDependBy m) \<and>
      dmDefaultTag m' = dmDefaultTag m \<and> (dmDefault m' = None \<longrightarrow> dmDefault m = None \<or> mItems m' = []) \<and>
      (es, h') = (if mStarted m then (toList (fst (closeObj L a h)), snd (closeObj L a h)) else ([], h))"
proof (cases "getd [] (dmDependBy m) tag = []")
  case False
  with assms(2,3) show ?thesis by (auto simp: outbound_Remove_def)
next
  case True
  have "a \<in> set (mItems m)" using registered_member[OF outboundOkD(1)[OF assms(1)] assms(2)] by simp
  with True assms(2,3) show ?thesis
    by (auto simp: outbound_Remove_def Let_def removeDependenciesLocked_def split: if_splits prod.splits list.splits)
qed

lemma outbound_Remove_ok:
  assumes "outboundOk m" "outbound_Remove L m tag h = (es, m', h')"
  shows "outboundOk m'"
proof (cases "map_of (mByTag m) tag")
  case None
  with assms show ?thesis by (simp add: outbound_Remove_def)
next
  case (Some a)
  note ok = outboundOkD[OF assms(1)]
  note cs = outbound_Remove_cases[OF assms(1) Some assms(2)]
  show ?thesis
  proof (cases "getd [] (dmDependBy m) tag = []")
    case False
    with cs assms(1) show ?thesis by simp
  next
    case True
    with cs have m': "mItems m' = remove1 a (mItems m)" "mByTag m' = AList.delete tag (mByTag m)"
      "dmDependBy m' = fold (removeDependency (adTag a)) (adDependencies a) (dmDependBy m)"
      "dmDefaultTag m' = dmDefaultTag m" "dmDefault m' = None \<longrightarrow> dmDefault m = None \<or> mItems m' = []"
      by (auto split: if_splits)
    have a: "a \<in> set (mItems m)" using registered_member[OF ok(1) Some] by simp
    have items: "set (mItems m') = set (mItems m) - {a}"
      unfolding m'(1) by (rule set_remove1_eq[OF registered_distinct[OF ok(1)]])
    show ?thesis
      unfolding outboundOk_def
    proof (intro conjI impI ballI)
      show "registered m'" by (rule registered_drop[OF ok(1) Some m'(1,2)])
      show "tracked (dmDependBy m') (set (mItems m'))"
        unfolding m'(3) items by (rule tracked_remove[OF ok(2) registered_inj[OF ok(1)] a ok(3)[OF a]])
      show "distinct (adDependencies b)" if "b \<in> set (mItems m')" for b
        using that ok(3) items by blast
      show "mItems m' = []" if "dmDefaultTag m' = '''' \<and> dmDefault m' = None"
        using that m'(1,4,5) ok(4) by auto
    qed
  qed
qed

lemma outboundRun_ok: "outboundRun L m h \<Longrightarrow> outboundOk m"
proof (induction rule: outboundRun.induct)
  case (outbound_new tag)
  show ?case by (simp add: outboundOk_def outbound_New_def registered_def tracked_def)
next
  case (outbound_start m h fallback endpoint stage es m' h')
  from outbound_Start_ok[OF outbound_start(4,2,3)] show ?case .
next
  case (outbound_create m h created tag es m' h')
  from outbound_Create_ok[OF outbound_create(4,2,3)] show ?case .
next
  case (outbound_remove m h tag es m' h')
  from outbound_Remove_ok[OF outbound_remove(3,2)] show ?case .
qed

text \<open>
  C37: An outbound is removed exactly if no outbound depends on it.  In every run of the manager, \<^verbatim>\<open>Remove\<close> of a
  known tag fails and changes nothing while an outbound names the tag as a dependency; otherwise exactly that
  outbound leaves the list and the map, it is closed if the manager is running, and the only error possible is
  that of closing it.
\<close>

theorem outbound_removed_unless_needed:
  assumes "outboundRun L m h" "manager_Get m tag = Some a" "outbound_Remove L m tag h = (es, m', h')"
  shows "if \<exists>b \<in> set (mItems m). tag \<in> set (adDependencies b) then es \<noteq> [] \<and> m' = m \<and> h' = h
    else set (mItems m') = set (mItems m) - {a} \<and> manager_Get m' tag = None \<and>
      (es, h') = (if mStarted m then (toList (fst (closeObj L a h)), snd (closeObj L a h)) else ([], h))"
proof -
  note run = outboundRun_ok[OF assms(1)]
  note ok = outboundOkD[OF run]
  from assms(2) have a: "map_of (mByTag m) tag = Some a" by (simp add: manager_Get_def)
  have "getd [] (dmDependBy m) tag \<noteq> [] \<longleftrightarrow> set (getd [] (dmDependBy m) tag) \<noteq> {}" by simp
  also have "\<dots> \<longleftrightarrow> (\<exists>b \<in> set (mItems m). tag \<in> set (adDependencies b))"
    using ok(2) unfolding tracked_def by auto
  finally have needed: "getd [] (dmDependBy m) tag \<noteq> [] \<longleftrightarrow> (\<exists>b \<in> set (mItems m). tag \<in> set (adDependencies b))" .
  show ?thesis
    using outbound_Remove_cases[OF run a assms(3)] set_remove1_eq[OF registered_distinct[OF ok(1)], of a]
    unfolding needed by (simp add: manager_Get_def)
qed

definition neededOutbound :: adapterObj where "neededOutbound = exampleObj 0 ''local'' []"
definition needingOutbound :: adapterObj where "needingOutbound = exampleObj 1 ''proxy'' [''local'']"

definition exampleOutbounds :: "bool \<Rightarrow> dependencyManager" where
  "exampleOutbounds both = \<lparr>mStarted = False, mStage = StartStateInitialize,
     mItems = (if both then [neededOutbound, needingOutbound] else [neededOutbound]),
     mByTag = (if both then [(''local'', neededOutbound), (''proxy'', needingOutbound)] else [(''local'', neededOutbound)]),
     dmDefaultTag = '''', dmDependBy = (if both then [(''local'', [''proxy''])] else []), dmDefault = Some neededOutbound\<rparr>"

lemma example_outbound: "adTag neededOutbound = ''local''" "adDependencies neededOutbound = []"
  "adTag needingOutbound = ''proxy''" "adDependencies needingOutbound = [''local'']"
  by (simp_all add: neededOutbound_def needingOutbound_def exampleObj_def)

lemma example_first: "outbound_Create willing (outbound_New '''') ''local'' (Inr neededOutbound) [] = ([], exampleOutbounds False, [])"
  by code_simp

lemma example_second: "outbound_Create willing (exampleOutbounds False) ''proxy'' (Inr needingOutbound) [] = ([], exampleOutbounds True, [])"
  by code_simp

theorem outbound_removed_unless_needed_witness:
  "fst (outbound_Remove willing (exampleOutbounds True) ''local'' []) \<noteq> [] \<and>
   fst (snd (outbound_Remove willing (exampleOutbounds True) ''local'' [])) = exampleOutbounds True"
proof -
  have "outboundRun willing (exampleOutbounds False) []"
    by (rule outbound_create[OF outbound_new _ example_first]) (auto simp: example_outbound)
  then have run: "outboundRun willing (exampleOutbounds True) []"
    by (rule outbound_create[OF _ _ example_second]) (auto simp: example_outbound)
  have get: "manager_Get (exampleOutbounds True) ''local'' = Some neededOutbound"
    by (simp add: manager_Get_def exampleOutbounds_def)
  have "\<exists>b \<in> set (mItems (exampleOutbounds True)). ''local'' \<in> set (adDependencies b)"
    by (simp add: exampleOutbounds_def example_outbound)
  with outbound_removed_unless_needed[OF run get, of "fst (outbound_Remove willing (exampleOutbounds True) ''local'' [])"
    "fst (snd (outbound_Remove willing (exampleOutbounds True) ''local'' []))"
    "snd (snd (outbound_Remove willing (exampleOutbounds True) ''local'' []))"]
  show ?thesis by (simp only: prod.collapse if_True simp_thms)
qed

end
