(* ===== verification/Spec2Isabelle.thy ===== *)
theory Spec2Isabelle
  imports RuleSemantics RuleBuild RouteCorrect FakeIPServer TrackerRuns DNSRouterCorrect DNSClientCorrect ManagersCorrect
begin

text \<open>
  Verification of the routing core of singlink.
\<close>

end
